(* ===== verification/Base.thy ===== *)
theory Base
  imports Main "HOL-Library.Word" "HOL-Library.Monad_Syntax"
begin

unbundle bit_operations_syntax

text \<open>
  The prelude of the development: the machine types of the platform the repository is built
  for (i386, little endian: \<open>int\<close>, \<open>size_t\<close>, pointers and enums have 32 bits), byte
  buffers and byte-addressed memory, the little-endian encoding of the fixed-width integers
  that \<open>memcpy(&field, buffer, sizeof field)\<close> reads and writes, and C strings.

  A value of type \<open>'a option\<close> is the outcome of a piece of C that may go wrong:
  \<open>None\<close> stands for undefined behaviour (a null or dangling pointer is dereferenced, a
  buffer is accessed out of its bounds) or for a loop that never ends, \<open>Some\<close> for a
  normal return. Error codes the program returns are ordinary values.
\<close>

section \<open>Machine types\<close>

type_synonym byte = "8 word"
type_synonym u16 = "16 word"
type_synonym u32 = "32 word"

text \<open>A buffer is the contents of a \<open>malloc\<close>ed block.\<close>

type_synonym buffer = "byte list"

text \<open>Byte-addressed memory: a mapped disk image, the cache block, the key space.\<close>

type_synonym mem = "nat \<Rightarrow> byte"

named_theorems le_simps \<open>lengths and round trips of the little-endian encodings\<close>
named_theorems mem_simps \<open>reads of written memory\<close>

section \<open>Guards\<close>

text \<open>\<open>ensure b\<close> continues only where the C access is defined.\<close>

definition ensure :: "bool \<Rightarrow> unit option" where
  "ensure b = (if b then Some () else None)"

lemma ensure_simps [simp]: "ensure True = Some ()" "ensure False = None"
  by (simp_all add: ensure_def)

lemma ensure_eq_Some [simp]: "ensure b = Some u \<longleftrightarrow> b"
  by (simp add: ensure_def)

lemma bind_ensure [simp]: "Option.bind (ensure b) f = (if b then f () else None)"
  by (simp add: ensure_def)

section \<open>Little-endian integers\<close>

definition le16 :: "u16 \<Rightarrow> buffer" where
  "le16 w = [ucast w, ucast (drop_bit 8 w)]"

definition le32 :: "u32 \<Rightarrow> buffer" where
  "le32 w = [ucast w, ucast (drop_bit 8 w), ucast (drop_bit 16 w), ucast (drop_bit 24 w)]"

definition of_le16 :: "buffer \<Rightarrow> u16" where
  "of_le16 bs = ucast (bs ! 0) OR push_bit 8 (ucast (bs ! 1))"

definition of_le32 :: "buffer \<Rightarrow> u32" where
  "of_le32 bs = ucast (bs ! 0) OR push_bit 8 (ucast (bs ! 1))
     OR push_bit 16 (ucast (bs ! 2)) OR push_bit 24 (ucast (bs ! 3))"

lemma length_le16 [simp, le_simps]: "length (le16 w) = 2"
  by (simp add: le16_def)

lemma length_le32 [simp, le_simps]: "length (le32 w) = 4"
  by (simp add: le32_def)

lemma of_le16_le16 [simp, le_simps]: "of_le16 (le16 w) = w"
  by (rule bit_word_eqI) (auto simp: of_le16_def le16_def bit_simps)

lemma of_le32_le32 [simp, le_simps]: "of_le32 (le32 w) = w"
proof (rule bit_word_eqI)
  fix n :: nat
  assume "n < LENGTH(32)"
  then have "n < 8 \<or> (8 \<le> n \<and> n < 16) \<or> (16 \<le> n \<and> n < 24) \<or> (24 \<le> n \<and> n < 32)"
    by auto
  then show "bit (of_le32 (le32 w)) n = bit w n"
    by (elim disjE) (auto simp: of_le32_def le32_def bit_simps)
qed

lemma of_le32_append [simp, le_simps]: "of_le32 (le32 w @ bs) = w"
proof -
  have "of_le32 (le32 w @ bs) = of_le32 (le32 w)"
    by (simp add: of_le32_def nth_append)
  then show ?thesis by simp
qed

lemma of_le16_append [simp, le_simps]: "of_le16 (le16 w @ bs) = w"
proof -
  have "of_le16 (le16 w @ bs) = of_le16 (le16 w)"
    by (simp add: of_le16_def nth_append)
  then show ?thesis by simp
qed

lemma le32_inject [simp]: "le32 v = le32 w \<longleftrightarrow> v = w"
  by (metis of_le32_le32)

section \<open>Buffers\<close>

text \<open>
  \<open>read_buf b off n\<close> is \<open>memcpy(dst, b + off, n)\<close>: the \<open>n\<close> bytes at \<open>off\<close>, undefined
  when they are not all inside the block.
\<close>

definition read_buf :: "buffer \<Rightarrow> nat \<Rightarrow> nat \<Rightarrow> buffer option" where
  "read_buf b off n = (if off + n \<le> length b then Some (take n (drop off b)) else None)"

definition read_u32 :: "buffer \<Rightarrow> nat \<Rightarrow> u32 option" where
  "read_u32 b off = map_option of_le32 (read_buf b off 4)"

lemma read_buf_mid [simp]:
  "off = length xs \<Longrightarrow> n = length ys \<Longrightarrow> read_buf (xs @ ys @ zs) off n = Some ys"
  by (simp add: read_buf_def)

lemma read_buf_prefix [simp]: "n = length xs \<Longrightarrow> read_buf (xs @ ys) 0 n = Some xs"
  by (simp add: read_buf_def)

lemma read_buf_suffix [simp]:
  "off = length xs \<Longrightarrow> n = length ys \<Longrightarrow> read_buf (xs @ ys) off n = Some ys"
  using read_buf_mid [of off xs n ys "[]"] by simp

lemma read_u32_mid [simp]: "off = length xs \<Longrightarrow> read_u32 (xs @ le32 w @ zs) off = Some w"
  by (simp add: read_u32_def)

lemma read_u32_suffix [simp]: "off = length xs \<Longrightarrow> read_u32 (xs @ le32 w) off = Some w"
  using read_u32_mid [of off xs w "[]"] by simp

lemma read_u32_prefix [simp]: "read_u32 (le32 w @ zs) 0 = Some w"
  using read_u32_mid [of 0 "[]"] by simp

lemma read_u32_eq_None: "read_u32 b off = None \<longleftrightarrow> length b < off + 4"
  by (auto simp: read_u32_def read_buf_def)

section \<open>C strings\<close>

text \<open>A C string is the list of its bytes, without the terminating NUL.\<close>

type_synonym cstr = "byte list"

definition str :: "string \<Rightarrow> cstr" where
  "str s = map of_char s"

definition is_cstr :: "cstr \<Rightarrow> bool" where
  "is_cstr s \<longleftrightarrow> 0 \<notin> set s"

text \<open>\<open>strlen\<close> of a block: undefined when the block holds no NUL.\<close>

definition c_strlen :: "buffer \<Rightarrow> nat option" where
  "c_strlen b = (if 0 \<in> set b then Some (length (takeWhile (\<lambda>c. c \<noteq> 0) b)) else None)"

text \<open>The string at the start of a block (what \<open>strcpy\<close> copies).\<close>

definition c_str :: "buffer \<Rightarrow> cstr option" where
  "c_str b = map_option (\<lambda>n. take n b) (c_strlen b)"

lemma is_cstr_Nil [simp]: "is_cstr []"
  by (simp add: is_cstr_def)

lemma is_cstr_append [simp]: "is_cstr (s @ t) \<longleftrightarrow> is_cstr s \<and> is_cstr t"
  by (auto simp: is_cstr_def)

lemma takeWhile_cstr: "is_cstr s \<Longrightarrow> takeWhile (\<lambda>c. c \<noteq> 0) (s @ 0 # rest) = s"
  by (induction s) (auto simp: is_cstr_def)

lemma c_strlen_cstr [simp]: "is_cstr s \<Longrightarrow> c_strlen (s @ 0 # rest) = Some (length s)"
  by (simp add: c_strlen_def takeWhile_cstr)

lemma c_str_cstr [simp]: "is_cstr s \<Longrightarrow> c_str (s @ 0 # rest) = Some s"
  by (simp add: c_str_def)

lemma takeWhile_is_cstr: "is_cstr (takeWhile (\<lambda>c. c \<noteq> 0) b)"
  by (auto simp: is_cstr_def dest: set_takeWhileD)

lemma c_strlen_bound: "c_strlen b = Some n \<Longrightarrow> n < length b"
proof -
  assume "c_strlen b = Some n"
  then have "0 \<in> set b" and n: "n = length (takeWhile (\<lambda>c. c \<noteq> 0) b)"
    by (auto simp: c_strlen_def split: if_splits)
  then have "takeWhile (\<lambda>c. c \<noteq> 0) b \<noteq> b"
    by (metis (mono_tags, lifting) set_takeWhileD)
  then show ?thesis
    using n length_takeWhile_le [of "\<lambda>c. c \<noteq> 0" b]
    by (metis le_neq_implies_less takeWhile_eq_take take_all order_refl)
qed

lemma c_str_SomeD: "c_str b = Some s \<Longrightarrow> is_cstr s \<and> (\<exists>rest. b = s @ 0 # rest)"
proof -
  assume a: "c_str b = Some s"
  then have z: "0 \<in> set b" and s: "s = takeWhile (\<lambda>c. c \<noteq> 0) b"
    by (auto simp: c_str_def c_strlen_def takeWhile_eq_take [symmetric] split: if_splits)
  from z have d: "dropWhile (\<lambda>c. c \<noteq> 0) b \<noteq> []"
    by (auto simp: dropWhile_eq_Nil_conv)
  then have "hd (dropWhile (\<lambda>c. c \<noteq> 0) b) = 0"
    using hd_dropWhile [OF d] by simp
  then obtain rest where "dropWhile (\<lambda>c. c \<noteq> 0) b = 0 # rest"
    using d by (cases "dropWhile (\<lambda>c. c \<noteq> 0) b") auto
  then have "b = s @ 0 # rest"
    by (metis s takeWhile_dropWhile_id)
  with s show ?thesis using takeWhile_is_cstr by blast
qed

section \<open>Byte-addressed memory\<close>

definition mem_read :: "mem \<Rightarrow> nat \<Rightarrow> nat \<Rightarrow> buffer" where
  "mem_read m a n = map (\<lambda>i. m (a + i)) [0..<n]"

definition mem_write :: "mem \<Rightarrow> nat \<Rightarrow> buffer \<Rightarrow> mem" where
  "mem_write m a bs = (\<lambda>x. if a \<le> x \<and> x < a + length bs then bs ! (x - a) else m x)"

definition rd8 :: "mem \<Rightarrow> nat \<Rightarrow> byte" where "rd8 m a = m a"
definition rd16 :: "mem \<Rightarrow> nat \<Rightarrow> u16" where "rd16 m a = of_le16 (mem_read m a 2)"
definition rd32 :: "mem \<Rightarrow> nat \<Rightarrow> u32" where "rd32 m a = of_le32 (mem_read m a 4)"

definition wr8 :: "mem \<Rightarrow> nat \<Rightarrow> byte \<Rightarrow> mem" where "wr8 m a v = mem_write m a [v]"
definition wr16 :: "mem \<Rightarrow> nat \<Rightarrow> u16 \<Rightarrow> mem" where "wr16 m a v = mem_write m a (le16 v)"
definition wr32 :: "mem \<Rightarrow> nat \<Rightarrow> u32 \<Rightarrow> mem" where "wr32 m a v = mem_write m a (le32 v)"

lemma length_mem_read [simp]: "length (mem_read m a n) = n"
  by (simp add: mem_read_def)

lemma nth_mem_read [simp]: "i < n \<Longrightarrow> mem_read m a n ! i = m (a + i)"
  by (simp add: mem_read_def)

lemma mem_write_at [simp]: "i < length bs \<Longrightarrow> mem_write m a bs (a + i) = bs ! i"
  by (simp add: mem_write_def)

lemma mem_write_other [mem_simps]:
  "x < a \<or> a + length bs \<le> x \<Longrightarrow> mem_write m a bs x = m x"
  by (auto simp: mem_write_def)

lemma mem_write_Nil [simp]: "mem_write m a [] = m"
  by (auto simp: mem_write_def fun_eq_iff)

lemma mem_read_write_same [simp, mem_simps]:
  "n = length bs \<Longrightarrow> mem_read (mem_write m a bs) a n = bs"
  by (rule nth_equalityI) auto

lemma mem_read_write_disjoint [mem_simps]:
  "a + n \<le> b \<or> b + length bs \<le> a \<Longrightarrow> mem_read (mem_write m b bs) a n = mem_read m a n"
  by (rule nth_equalityI) (auto simp: mem_write_def)

lemma mem_read_split: "n \<le> k \<Longrightarrow> mem_read m a k = mem_read m a n @ mem_read m (a + n) (k - n)"
  by (rule nth_equalityI) (auto simp: nth_append)

lemma mem_write_read_id [simp]: "mem_write m a (mem_read m a n) = m"
  by (auto simp: mem_write_def fun_eq_iff)

lemma rd_wr_same [simp, mem_simps]:
  "rd8 (wr8 m a x) a = x" "rd16 (wr16 m a y) a = y" "rd32 (wr32 m a z) a = z"
proof -
  show "rd8 (wr8 m a x) a = x" by (simp add: rd8_def wr8_def mem_write_def)
qed (simp_all add: rd16_def wr16_def rd32_def wr32_def)

lemma rd32_disjoint [mem_simps]:
  "a + 4 \<le> b \<or> b + length bs \<le> a \<Longrightarrow> rd32 (mem_write m b bs) a = rd32 m a"
  by (simp add: rd32_def mem_read_write_disjoint)

lemma rd16_disjoint [mem_simps]:
  "a + 2 \<le> b \<or> b + length bs \<le> a \<Longrightarrow> rd16 (mem_write m b bs) a = rd16 m a"
  by (simp add: rd16_def mem_read_write_disjoint)

lemma rd8_disjoint [mem_simps]:
  "a + 1 \<le> b \<or> b + length bs \<le> a \<Longrightarrow> rd8 (mem_write m b bs) a = rd8 m a"
  by (auto simp: rd8_def mem_write_def)

section \<open>Words\<close>

lemma unat_of_nat_small [simp]: "n < 2 ^ 32 \<Longrightarrow> unat (of_nat n :: u32) = n"
  by (simp add: unat_of_nat take_bit_nat_eq_self)

end
