(* ===== verification/Vector.thy ===== *)
theory Vector
  imports Base "HOL-Library.Multiset"
begin

unbundle bit_operations_syntax

text \<open>
  The partition table of the cache engine, \<open>rc/src/vector.c\<close>. The globals of the C program are
  one record: \<open>key_vector\<close>, the bytes of the key space and of the cache block, \<open>ultima_posicion\<close>.
  Sizes and pointers are 32-bit words, so that the unsigned subtractions of the code wrap
  as they do there. The loops of the code evaluate \<open>key_vector[i]\<close> before they test
  \<open>i < cantRegistros\<close>: the list has one cell more than the block, the memory just past
  it, with arbitrary contents; an access further away is undefined (\<open>None\<close>). The locks
  are left out: each operation runs alone. Loops of which the code does not show an end are
  \<open>partial_function\<close>s, where \<open>None\<close> is also the loop that never ends.
\<close>

section \<open>State\<close>

record timespec =
  tv_sec :: int
  tv_nsec :: int

record key_element =
  key :: u32
  nkey :: u32
  stored :: bool
  data_size :: u32
  data_unuse :: u32
  data :: u32
  actual :: int
  padre :: int
  libre :: bool
  exptime :: u32
  tp :: timespec

text \<open>The configuration: the engine's arguments and the values read from \<open>rc.conf\<close>.\<close>

record rc_config =
  cache_size :: u32
  part_minima :: u32
  part_maxima :: u32
  FREQ :: int
  MAX_KEY :: int
  VICTIM_LRU :: bool
  cantRegistros :: nat
  keys_space :: u32
  cache :: u32

record rc =
  key_vector :: "key_element list"
  keys_mem :: mem
  cache_mem :: mem
  ultima_posicion :: nat

definition cell :: "rc \<Rightarrow> nat \<Rightarrow> key_element option" where
  "cell s i = (if i < length (key_vector s) then Some (key_vector s ! i) else None)"

definition set_cell :: "rc \<Rightarrow> nat \<Rightarrow> (key_element \<Rightarrow> key_element) \<Rightarrow> rc option" where
  "set_cell s i f = (if i < length (key_vector s)
     then Some (s\<lparr>key_vector := (key_vector s)[i := f (key_vector s ! i)]\<rparr>) else None)"

text \<open>\<open>while (p(key_vector[i]) && i < n) i++;\<close>\<close>

function scan :: "(key_element \<Rightarrow> bool) \<Rightarrow> rc \<Rightarrow> nat \<Rightarrow> nat \<Rightarrow> nat option" where
  "scan p s n i = do {
     e \<leftarrow> cell s i;
     (if p e \<and> i < n then scan p s n (i + 1) else Some i) }"
  by pat_completeness auto
termination by (relation "measure (\<lambda>(p, s, n, i). n - i)") auto

declare scan.simps [simp del]

section \<open>Free slots and loading\<close>

definition buscarPosLibre :: "rc_config \<Rightarrow> rc \<Rightarrow> int option" where
  "buscarPosLibre cf s = do {
     i \<leftarrow> scan (\<lambda>e. data_size e \<noteq> 0) s (cantRegistros cf) 0;
     Some (if i = cantRegistros cf then -1 else int i) }"

definition cargarEnVector :: "rc \<Rightarrow> u32 \<Rightarrow> u32 \<Rightarrow> u32 \<Rightarrow> bool \<Rightarrow> nat \<Rightarrow> rc option" where
  "cargarEnVector s keys dat ndata libr pos =
     set_cell s pos (\<lambda>e. e\<lparr>key := keys, data := dat, libre := libr, data_size := ndata\<rparr>)"

section \<open>Victims\<close>

definition tp_less :: "timespec \<Rightarrow> timespec \<Rightarrow> bool" where
  "tp_less t u \<longleftrightarrow> (if tv_sec t < tv_sec u then True
     else if tv_sec t = tv_sec u then tv_nsec t < tv_nsec u else False)"

text \<open>The inner loop of \<open>borrar\<close>: over a run of occupied partitions.\<close>

function borrar_inner :: "rc \<Rightarrow> nat \<Rightarrow> nat \<Rightarrow> timespec \<Rightarrow> nat \<Rightarrow> (nat \<times> timespec \<times> nat) option" where
  "borrar_inner s n i t resultado =
     (if i < n then do {
        e \<leftarrow> cell s i;
        (if tv_sec (tp e) \<noteq> 0 \<and> \<not> libre e
         then (if tp_less (tp e) t then borrar_inner s n (i + 1) (tp e) i
               else borrar_inner s n (i + 1) t resultado)
         else Some (i, t, resultado)) }
      else Some (i, t, resultado))"
  by pat_completeness auto
termination by (relation "measure (\<lambda>(s, n, i, t, r). n - i)") auto

declare borrar_inner.simps [simp del]

lemma borrar_inner_ge: "borrar_inner s n i t r = Some (j, t', r') \<Longrightarrow> i \<le> j"
proof (induction s n i t r rule: borrar_inner.induct)
  case (1 s n i t r)
  from "1.prems" show ?case unfolding borrar_inner.simps [of s n i t r]
    by (auto split: if_splits bind_splits dest: "1.IH")
qed

lemma borrar_inner_progress:
  "borrar_inner s n (if libre e then i + 1 else i) t r = Some (j, t', r') \<Longrightarrow> cell s i = Some e \<Longrightarrow> i < n \<Longrightarrow>
    tv_sec (tp e) \<noteq> 0 \<Longrightarrow> i < j"
  using borrar_inner_ge
  by (cases "libre e") (fastforce simp: borrar_inner.simps [of s n i] split: if_splits)+

function borrar_outer :: "rc \<Rightarrow> nat \<Rightarrow> nat \<Rightarrow> timespec \<Rightarrow> nat \<Rightarrow> nat option" where
  "borrar_outer s n i t resultado = do {
     e \<leftarrow> cell s i;
     (if data_size e > 0 \<and> i < n \<and> tv_sec (tp e) \<noteq> 0
      then do {
        (j, t', resultado') \<leftarrow> borrar_inner s n (if libre e then i + 1 else i) t resultado;
        borrar_outer s n j t' resultado' }
      else Some resultado) }"
  by pat_completeness auto
termination
proof (relation "measure (\<lambda>(s, n, i, t, r). n - i)")
  fix s n i t resultado e x j y t' resultado'
  assume "cell s i = Some e" "0 < data_size e \<and> i < n \<and> tv_sec (tp e) \<noteq> 0"
    "borrar_inner s n (if libre e then i + 1 else i) t resultado = Some x" "(j, y) = x" "(t', resultado') = y"
  then have "i < j" using borrar_inner_progress by metis
  then show "((s, n, j, t', resultado'), s, n, i, t, resultado) \<in> measure (\<lambda>(s, n, i, t, r). n - i)"
    using \<open>0 < data_size e \<and> i < n \<and> tv_sec (tp e) \<noteq> 0\<close> by auto
qed simp

declare borrar_outer.simps [simp del]

definition borrar :: "rc_config \<Rightarrow> rc \<Rightarrow> nat option" where
  "borrar cf s = do {
     i \<leftarrow> scan libre s (cantRegistros cf) 0;
     e \<leftarrow> cell s i;
     borrar_outer s (cantRegistros cf) i (tp e) i }"

text \<open>The time of a partition that was read: only under LRU.\<close>

definition actualizar_key :: "rc_config \<Rightarrow> timespec \<Rightarrow> rc \<Rightarrow> nat \<Rightarrow> rc option" where
  "actualizar_key cf now s it = (if VICTIM_LRU cf then set_cell s it (\<lambda>e. e\<lparr>tp := now\<rparr>) else Some s)"

definition eliminar_particion :: "rc_config \<Rightarrow> rc \<Rightarrow> int \<Rightarrow> (nat \<times> rc) option" where
  "eliminar_particion cf s valor = do {
     resultado \<leftarrow> (if valor = -1 then borrar cf s else Some (nat valor));
     (if resultado \<noteq> cantRegistros cf
      then do {
        s' \<leftarrow> set_cell s resultado (\<lambda>e. e\<lparr>data_size := data_size e + data_unuse e, libre := True,
                 stored := False, data_unuse := 0\<rparr>);
        Some (resultado, s') }
      else Some (resultado, s)) }"

section \<open>Sorting by address\<close>

text \<open>\<open>strcmp(a, b) == 0\<close> on the key space.\<close>

partial_function (option) strcmp_eq :: "mem \<Rightarrow> nat \<Rightarrow> nat \<Rightarrow> bool option" where
  [code]: "strcmp_eq m a b =
     (if m a \<noteq> m b then Some False else if m a = 0 then Some True else strcmp_eq m (a + 1) (b + 1))"

text \<open>
  One pass of \<open>ordenar_vector\<close> from \<open>j\<close> on, \<open>k\<close> steps to go. \<open>clave\<close> is the key pointer of the position to be
  tracked, \<open>None\<close> when the caller passes -1. The last step compares with the cell past the block.
\<close>

fun ordenar_pass :: "mem \<Rightarrow> u32 option \<Rightarrow> nat \<Rightarrow> nat \<Rightarrow> key_element list \<Rightarrow> nat \<Rightarrow> bool
    \<Rightarrow> (key_element list \<times> nat \<times> bool) option" where
  "ordenar_pass m clave 0 j kv posicion2 flag = Some (kv, posicion2, flag)"
| "ordenar_pass m clave (Suc k) j kv posicion2 flag =
     (if j + 1 < length kv then
        (if data (kv ! j) > data (kv ! (j + 1)) \<and> data_size (kv ! j) > 0 \<and> data_size (kv ! (j + 1)) > 0
         then do {
           same \<leftarrow> (case clave of None \<Rightarrow> Some False
                    | Some c \<Rightarrow> strcmp_eq m (unat (key (kv ! j))) (unat c));
           ordenar_pass m clave k (j + 1) (kv[j := kv ! (j + 1), j + 1 := kv ! j])
             (if same then j + 1 else posicion2) True }
         else ordenar_pass m clave k (j + 1) kv posicion2 flag)
      else None)"

fun ordenar_loop :: "mem \<Rightarrow> u32 option \<Rightarrow> nat \<Rightarrow> nat \<Rightarrow> key_element list \<Rightarrow> nat \<Rightarrow> (key_element list \<times> nat) option" where
  "ordenar_loop m clave 0 hasta kv posicion2 = Some (kv, posicion2)"
| "ordenar_loop m clave (Suc k) hasta kv posicion2 = do {
     (kv', posicion2', flag) \<leftarrow> ordenar_pass m clave hasta 0 kv posicion2 False;
     (if \<not> flag then Some (kv', posicion2') else ordenar_loop m clave k hasta kv' posicion2') }"

definition ordenar_vector :: "rc_config \<Rightarrow> rc \<Rightarrow> int \<Rightarrow> (nat \<times> rc) option" where
  "ordenar_vector cf s posicion = do {
     let hasta = cantRegistros cf;
     (clave, posicion2) \<leftarrow>
       (if posicion \<noteq> -1 then do { e \<leftarrow> cell s (nat posicion); Some (Some (key e), nat posicion) }
        else Some (None, 0));
     (kv, posicion2') \<leftarrow> ordenar_loop (keys_mem s) clave (hasta - 2) hasta (key_vector s) posicion2;
     Some (posicion2', s\<lparr>key_vector := kv\<rparr>) }"

section \<open>Joining buddies\<close>

text \<open>C's remainder: the sign is the dividend's, so \<open>x % 2\<close> is non-zero exactly for the odd numbers.\<close>

definition juntarlos :: "rc \<Rightarrow> nat \<Rightarrow> nat \<Rightarrow> rc option" where
  "juntarlos s act posicion = do {
     a \<leftarrow> cell s act;
     let cuenta = (if odd (padre a) then 2 else 1);
     s1 \<leftarrow> set_cell s act (\<lambda>e. e\<lparr>actual := padre e,
             padre := (if padre e > 0 then padre e - cuenta else padre e + cuenta)\<rparr>);
     p \<leftarrow> cell s1 posicion;
     s2 \<leftarrow> set_cell s1 act (\<lambda>e. e\<lparr>data_size := data_size e + data_size p\<rparr>);
     set_cell s2 posicion (\<lambda>e. e\<lparr>data_size := 0\<rparr>) }"

definition cumple :: "rc_config \<Rightarrow> rc \<Rightarrow> nat \<Rightarrow> int \<Rightarrow> bool option" where
  "cumple cf s act posicionn =
     (if posicionn \<ge> 0 \<and> posicionn < int (cantRegistros cf)
      then do {
        p \<leftarrow> cell s (nat posicionn);
        a \<leftarrow> cell s act;
        Some ((data_size p > 0 \<and> data_size p = data_size a) \<and> padre p = padre a \<and> libre p) }
      else Some False)"

partial_function (option) elimina_buddy_loop ::
    "rc_config \<Rightarrow> rc \<Rightarrow> nat \<Rightarrow> int \<Rightarrow> int \<Rightarrow> int \<Rightarrow> int \<Rightarrow> rc option" where
  [code]: "elimina_buddy_loop cf s posicion siguiente anterior ns na =
     (if posicion < cantRegistros cf
      then Option.bind (cumple cf s posicion siguiente) (\<lambda>c1.
        Option.bind (if c1 then juntarlos s posicion (nat siguiente) else Some s) (\<lambda>s1.
        Option.bind (cumple cf s1 posicion anterior) (\<lambda>c2.
        Option.bind (if c2 then juntarlos s1 posicion (nat anterior) else Some s1) (\<lambda>s2.
        let ns' = (if c1 then ns + 1 else ns); na' = (if c2 then na + 1 else na);
            siguiente' = siguiente + ns'; anterior' = anterior - na' in
        Option.bind (cumple cf s2 posicion siguiente') (\<lambda>d1.
        Option.bind (cumple cf s2 posicion anterior') (\<lambda>d2.
        if \<not> d1 \<and> \<not> d2 then Some s2
        else elimina_buddy_loop cf s2 posicion siguiente' anterior' ns' na'))))))
      else Some s)"

definition elimina_buddy :: "rc_config \<Rightarrow> rc \<Rightarrow> nat \<Rightarrow> (nat \<times> rc) option" where
  "elimina_buddy cf s posicion_org = do {
     (posicion, s1) \<leftarrow> ordenar_vector cf s (int posicion_org);
     s2 \<leftarrow> elimina_buddy_loop cf s1 posicion (int posicion + 1) (int posicion - 1) 0 0;
     Some (posicion, s2) }"

section \<open>Compaction\<close>

text \<open>
  One iteration of \<open>compactarDinam\<close> at \<open>i\<close>, with \<open>posicion_new = 1\<close>: the new state and the flags
  \<open>compacte\<close>, \<open>termine\<close> and \<open>ultimo_libre\<close>.
\<close>

definition compactar_join :: "rc_config \<Rightarrow> rc \<Rightarrow> nat \<Rightarrow> (rc \<times> bool) option" where
  "compactar_join cf s i =
     (if i + 1 < cantRegistros cf then do {
        a \<leftarrow> cell s i;
        b \<leftarrow> cell s (i + 1);
        (if libre b \<and> (libre a \<and> data_size a > 0) \<and> data_size b > 0
         then do {
           s1 \<leftarrow> set_cell s (i + 1) (\<lambda>e. e\<lparr>data_size := data_size b + data_size a, data := data a\<rparr>);
           s2 \<leftarrow> set_cell s1 i (\<lambda>e. e\<lparr>data := 0, data_size := 0\<rparr>);
           Some (s2, True) }
         else Some (s, False)) }
      else Some (s, False))"

definition compactar_move :: "rc \<Rightarrow> nat \<Rightarrow> key_element \<Rightarrow> key_element \<Rightarrow> rc option" where
  "compactar_move s i a b = do {
     let m = mem_write (cache_mem s) (unat (data a)) (mem_read (cache_mem s) (unat (data b)) (unat (data_size b)));
     s1 \<leftarrow> set_cell (s\<lparr>cache_mem := m\<rparr>) i (\<lambda>_. b);
     set_cell s1 (i + 1) (\<lambda>e. e\<lparr>data_size := data_size a, data := data a + data_size b,
       data_unuse := data_unuse a, key := key a, stored := False, libre := True\<rparr>) }"

definition compactar_step :: "rc_config \<Rightarrow> rc \<Rightarrow> nat \<Rightarrow> bool \<Rightarrow> nat \<Rightarrow> (rc \<times> bool \<times> nat \<times> bool) option" where
  "compactar_step cf s i compacte ultimo = do {
     (s1, joined) \<leftarrow> compactar_join cf s i;
     let compacte1 = (compacte \<or> joined);
     let ultimo1 = (if joined then i + 1 else ultimo);
     a \<leftarrow> cell s1 i;
     b \<leftarrow> cell s1 (i + 1);
     (if i + 1 < cantRegistros cf \<and> \<not> libre b
      then (if libre a \<and> data_size a > 0
            then do { s2 \<leftarrow> compactar_move s1 i a b; Some (s2, True, i + 1, False) }
            else Some (s1, compacte1, ultimo1, False))
      else if (i + 1 = cantRegistros cf \<and> i < cantRegistros cf) \<and> data_size a > 0
      then (if libre a \<and> data_size a > 0
            then do {
              ensure (i \<ge> 1);
              c \<leftarrow> cell s1 (i - 1);
              (if libre c
               then do {
                 s2 \<leftarrow> set_cell s1 (i - 1) (\<lambda>e. e\<lparr>data_size := data_size c + data_size a\<rparr>);
                 s3 \<leftarrow> set_cell s2 i (\<lambda>e. e\<lparr>data_size := 0\<rparr>);
                 Some (s3, True, i - 1, False) }
               else Some (s1, compacte1, ultimo1, False)) }
            else Some (s1, compacte1, ultimo1, False))
      else Some (s1, compacte1, ultimo1, i + 1 = cantRegistros cf)) }"

function compactar_loop :: "rc_config \<Rightarrow> rc \<Rightarrow> nat \<Rightarrow> bool \<Rightarrow> nat \<Rightarrow> (rc \<times> bool \<times> nat) option" where
  "compactar_loop cf s i compacte ultimo =
     (if i < cantRegistros cf then do {
        (s', compacte', ultimo', termine) \<leftarrow> compactar_step cf s i compacte ultimo;
        (if termine then Some (s', compacte', ultimo') else compactar_loop cf s' (i + 1) compacte' ultimo') }
      else Some (s, compacte, ultimo))"
  by pat_completeness auto
termination by (relation "measure (\<lambda>(cf, s, i, c, u). cantRegistros cf - i)") auto

declare compactar_loop.simps [simp del]

definition compactarDinam :: "rc_config \<Rightarrow> rc \<Rightarrow> (int \<times> rc) option" where
  "compactarDinam cf s = do {
     (_, s1) \<leftarrow> ordenar_vector cf s (-1);
     a \<leftarrow> cell s1 0;
     (s2, compacte, ultimo_libre) \<leftarrow>
       (if libre a \<and> data_size a = cache_size cf then Some (s1, False, 0)
        else compactar_loop cf s1 0 False 0);
     Some (if \<not> compacte then (-1, s2) else (int ultimo_libre, s2)) }"

section \<open>Initialization\<close>

text \<open>\<open>int8_t MAX_KEY\<close>: the configured length is cut to a signed byte.\<close>

definition max_key8 :: "rc_config \<Rightarrow> int" where
  "max_key8 cf = sint (word_of_int (MAX_KEY cf) :: 8 word)"

fun inicializar_loop :: "rc_config \<Rightarrow> nat \<Rightarrow> nat \<Rightarrow> rc \<Rightarrow> rc option" where
  "inicializar_loop cf 0 i s = Some s"
| "inicializar_loop cf (Suc k) i s = do {
     prev \<leftarrow> cell s (i - 1);
     s' \<leftarrow> set_cell s i (\<lambda>e. e\<lparr>key := key prev + word_of_int (max_key8 cf), libre := True, stored := False,
             data_size := 0, data_unuse := 0, actual := 0, padre := 0\<rparr>);
     inicializar_loop cf k (i + 1) s' }"

definition vector_inicializar :: "rc_config \<Rightarrow> rc \<Rightarrow> rc option" where
  "vector_inicializar cf s = do {
     s1 \<leftarrow> cargarEnVector (s\<lparr>ultima_posicion := 0\<rparr>) (keys_space cf) (cache cf) (cache_size cf) True 0;
     s2 \<leftarrow> set_cell s1 0 (\<lambda>e. e\<lparr>actual := 0, padre := 0\<rparr>);
     inicializar_loop cf (cantRegistros cf - 1) 1 s2 }"

section \<open>Next fit\<close>

definition diferencia :: "rc_config \<Rightarrow> u32 \<Rightarrow> u32" where
  "diferencia cf espacio =
     (let resto = espacio mod part_minima cf in if resto \<noteq> 0 then part_minima cf - resto else 0)"

text \<open>
  When a search fails: evict a victim or compact, as \<open>evict\<close> says; the position to try next.
\<close>

definition busqueda_fallida :: "rc_config \<Rightarrow> rc \<Rightarrow> bool \<Rightarrow> nat \<Rightarrow> (nat \<times> rc) option" where
  "busqueda_fallida cf s evict i =
     (if evict
      then do {
        (particion, s1) \<leftarrow> eliminar_particion cf s (-1);
        (if particion = cantRegistros cf
         then do { s2 \<leftarrow> vector_inicializar cf s1; Some (i, s2) }
         else Some (particion, s1)) }
      else do {
        (compac, s1) \<leftarrow> compactarDinam cf s;
        (if compac = -1 then eliminar_particion cf s1 (-1) else Some (nat compac, s1)) })"

text \<open>\<open>busquedas_fallidas\<close> is an \<open>int16_t\<close>.\<close>

partial_function (option) next_loop ::
    "rc_config \<Rightarrow> u32 \<Rightarrow> rc \<Rightarrow> nat \<Rightarrow> 16 word \<Rightarrow> (nat \<times> rc) option" where
  [code]: "next_loop cf espacio s i busquedas =
     Option.bind (scan (\<lambda>e. \<not> libre e) s (cantRegistros cf) i) (\<lambda>i1.
     Option.bind (scan (\<lambda>e. libre e \<and> data_size e = 0) s (cantRegistros cf) i1) (\<lambda>i2.
     Option.bind (cell s i2) (\<lambda>e2.
     let encontrado = (i2 \<noteq> cantRegistros cf \<and> data_size e2 \<ge> espacio);
         i3 = (if i2 = cantRegistros cf then 0 else i2);
         i4 = (if \<not> encontrado \<and> i3 < ultima_posicion s then ultima_posicion s else i3)
     in if i4 = ultima_posicion s \<and> \<not> encontrado
        then let b = busquedas + 1; evict = (sint b < FREQ cf \<or> FREQ cf = -1) in
          Option.bind (busqueda_fallida cf s evict i4) (\<lambda>(i5, s5).
          Option.bind (cell s5 i5) (\<lambda>e5.
          if data_size e5 \<ge> espacio then Some (i5, s5)
          else next_loop cf espacio s5 i5 (if evict then b else 0)))
        else
          Option.bind (cell s i4) (\<lambda>e4.
          if data_size e4 \<ge> espacio then Some (i4, s)
          else next_loop cf espacio s 0 busquedas))))"

text \<open>
  The free rest of a partition becomes a partition of its own (the test and the size are unsigned).
  \<open>None\<close> in the first component is the null result when the vector has no free slot.
\<close>

definition partir :: "rc_config \<Rightarrow> u32 \<Rightarrow> rc \<Rightarrow> u32 \<Rightarrow> nat \<Rightarrow> (nat option \<times> rc) option" where
  "partir cf espacio s tamano i =
     (if tamano - espacio - diferencia cf espacio > 0
      then do {
        posicion \<leftarrow> buscarPosLibre cf s;
        (if posicion \<noteq> -1
         then do {
           p \<leftarrow> cell s (nat posicion);
           e \<leftarrow> cell s i;
           s1 \<leftarrow> cargarEnVector s (key p) (data e + espacio + diferencia cf espacio)
                  (data_size e - espacio - diferencia cf espacio) True (nat posicion);
           s2 \<leftarrow> set_cell s1 i (\<lambda>e. e\<lparr>data_unuse := diferencia cf espacio\<rparr>);
           Some (Some i, s2) }
         else Some (None, s)) }
      else Some (Some i, s))"

definition buscarLibreNext :: "rc_config \<Rightarrow> rc \<Rightarrow> u32 \<Rightarrow> (nat option \<times> rc) option" where
  "buscarLibreNext cf s espacio = do {
     (i, s1) \<leftarrow> next_loop cf espacio s (ultima_posicion s) 0;
     let s2 = s1\<lparr>ultima_posicion := (if i + 1 < cantRegistros cf then i + 1 else 0)\<rparr>;
     e \<leftarrow> cell s2 i;
     partir cf espacio s2 (data_size e) i }"

section \<open>Worst fit\<close>

text \<open>The condition of the code assigns: \<open>busquedas_fallidas = frecuencia\<close>.\<close>

partial_function (option) worst_loop ::
    "rc_config \<Rightarrow> u32 \<Rightarrow> rc \<Rightarrow> nat \<Rightarrow> bool \<Rightarrow> nat \<Rightarrow> u32 \<Rightarrow> (nat \<times> nat \<times> rc) option" where
  [code]: "worst_loop cf espacio s i encontrado pos_mayor mayor =
     Option.bind (cell s i) (\<lambda>e.
     if (\<not> encontrado \<or> data_size e > 0) \<and> i < cantRegistros cf
     then if data_size e = 0
       then if mayor = 0
         then Option.bind (busqueda_fallida cf s ((word_of_int (FREQ cf) :: 16 word) \<noteq> 0 \<or> FREQ cf = -1) i) (\<lambda>(i5, s5).
           Option.bind (cell s5 i5) (\<lambda>e5.
           if data_size e5 \<ge> espacio then worst_loop cf espacio s5 (i5 + 1) True i5 (data_size e5)
           else worst_loop cf espacio s5 1 encontrado pos_mayor mayor))
         else worst_loop cf espacio s (i + 1) True pos_mayor mayor
       else if (data_size e \<ge> espacio \<and> data_size e > mayor) \<and> libre e
       then worst_loop cf espacio s (i + 1) encontrado i (data_size e)
       else worst_loop cf espacio s (i + 1) encontrado pos_mayor mayor
     else Some (i, pos_mayor, s))"

text \<open>The test of the split reads the size at \<open>i\<close>, where the loop stopped, not at the chosen partition.\<close>

definition buscarLibreWorst :: "rc_config \<Rightarrow> rc \<Rightarrow> u32 \<Rightarrow> (nat option \<times> rc) option" where
  "buscarLibreWorst cf s espacio = do {
     (i, pos_mayor, s1) \<leftarrow> worst_loop cf espacio s 0 False 0 0;
     e \<leftarrow> cell s1 i;
     partir cf espacio s1 (data_size e) pos_mayor }"

section \<open>Buddy system\<close>

definition insert_PadreActual :: "rc \<Rightarrow> nat \<Rightarrow> int \<Rightarrow> int \<Rightarrow> nat \<Rightarrow> int \<Rightarrow> int \<Rightarrow> rc option" where
  "insert_PadreActual s posicion1 actual1 padre1 posicion2 actual2 padre2 = do {
     s1 \<leftarrow> set_cell s posicion1 (\<lambda>e. e\<lparr>padre := padre1, actual := actual1\<rparr>);
     set_cell s1 posicion2 (\<lambda>e. e\<lparr>padre := padre2, actual := actual2\<rparr>) }"

definition actualizar_flags :: "rc \<Rightarrow> nat \<Rightarrow> nat \<Rightarrow> rc option" where
  "actualizar_flags s lugares posicionn = do {
     e \<leftarrow> cell s lugares;
     let pad = padre e;
     let act = actual e;
     (if act = 0 then insert_PadreActual s posicionn (pad - 1) 0 lugares (pad + 1) 0
      else if act < 0 then insert_PadreActual s posicionn (act - 1) act lugares (act - 2) act
      else insert_PadreActual s posicionn (act + 1) act lugares (act + 2) act) }"

partial_function (option) crear_arbol :: "rc_config \<Rightarrow> rc \<Rightarrow> nat \<Rightarrow> u32 \<Rightarrow> (nat option \<times> rc) option" where
  [code]: "crear_arbol cf s lugares espacio =
     Option.bind (cell s lugares) (\<lambda>e.
     let prox_particion = data_size e div 2 in
     if espacio \<le> prox_particion \<and> prox_particion \<ge> part_minima cf
     then Option.bind (buscarPosLibre cf s) (\<lambda>posicionn.
       if posicionn \<noteq> -1
       then Option.bind (actualizar_flags s lugares (nat posicionn)) (\<lambda>s1.
         Option.bind (cell s1 (nat posicionn)) (\<lambda>p.
         Option.bind (cell s1 lugares) (\<lambda>l.
         Option.bind (cargarEnVector s1 (key p) (data l + prox_particion) prox_particion True (nat posicionn)) (\<lambda>s2.
         Option.bind (set_cell s2 lugares (\<lambda>e. e\<lparr>data_size := prox_particion\<rparr>)) (\<lambda>s3.
         crear_arbol cf s3 lugares espacio)))))
       else Some (None, s))
     else Option.bind (set_cell s lugares (\<lambda>e. e\<lparr>data_unuse :=
             (if espacio > prox_particion then data_size e - espacio else prox_particion - espacio)\<rparr>)) (\<lambda>s1.
       Some (Some lugares, s1)))"

partial_function (option) buddy_loop ::
    "rc_config \<Rightarrow> u32 \<Rightarrow> rc \<Rightarrow> nat \<Rightarrow> nat \<Rightarrow> (nat \<times> rc) option" where
  [code]: "buddy_loop cf espacio s i lugares =
     (if i < cantRegistros cf
      then Option.bind (cell s i) (\<lambda>e. Option.bind (cell s lugares) (\<lambda>l.
        if data_size e = 0
        then if (lugares = 0 \<and> data_size l < espacio) \<or> \<not> libre l
          then Option.bind (eliminar_particion cf s (-1)) (\<lambda>(j, s1).
            Option.bind (elimina_buddy cf s1 j) (\<lambda>(new_pos, s2).
            Option.bind (cell s2 new_pos) (\<lambda>n.
            if data_size n > espacio \<and> libre n then Some (new_pos, s2)
            else buddy_loop cf espacio s2 (new_pos + 1) lugares)))
          else Some (lugares, s)
        else if data_size e \<ge> espacio \<and> libre e \<and> (lugares = cantRegistros cf \<or> data_size e \<le> data_size l)
        then buddy_loop cf espacio s (i + 1) i
        else buddy_loop cf espacio s (i + 1) lugares))
      else Some (lugares, s))"

definition buscarLibreBuddy :: "rc_config \<Rightarrow> rc \<Rightarrow> u32 \<Rightarrow> (nat option \<times> rc) option" where
  "buscarLibreBuddy cf s espacio = do {
     (lugares, s1) \<leftarrow> buddy_loop cf espacio s 0 (cantRegistros cf);
     crear_arbol cf s1 lugares espacio }"

section \<open>Lookup\<close>

text \<open>\<open>strncmp(key_vector[i].key, k, strlen(k)) == 0\<close> for a string \<open>k\<close>.\<close>

definition key_matches :: "rc \<Rightarrow> cstr \<Rightarrow> key_element \<Rightarrow> bool" where
  "key_matches s k e \<longleftrightarrow> mem_read (keys_mem s) (unat (key e)) (length k) = k"

function vector_get_loop :: "rc_config \<Rightarrow> rc \<Rightarrow> cstr \<Rightarrow> nat \<Rightarrow> int option" where
  "vector_get_loop cf s k i =
     (if i < cantRegistros cf then do {
        e \<leftarrow> cell s i;
        (if data_size e = 0 then Some (-1)
         else if (\<not> libre e \<and> nkey e = of_nat (length k)) \<and> key_matches s k e then Some (int i)
         else vector_get_loop cf s k (i + 1)) }
      else Some (-1))"
  by pat_completeness auto
termination by (relation "measure (\<lambda>(cf, s, k, i). cantRegistros cf - i)") auto

declare vector_get_loop.simps [simp del]

definition vector_get :: "rc_config \<Rightarrow> rc \<Rightarrow> cstr \<Rightarrow> int option" where
  "vector_get cf s k = vector_get_loop cf s k 0"

end
