(* ===== verification/Partitions.thy ===== *)
theory Partitions
  imports Vector
begin

text \<open>
  Properties of the partition table: sorting, conservation of the bytes of the cache by the
  operations that move, join and free partitions, the choice of a victim, the buddy split
  and the lookup.
\<close>

section \<open>Cells\<close>

definition rc_ok :: "rc_config \<Rightarrow> rc \<Rightarrow> bool" where
  "rc_ok cf s \<longleftrightarrow> length (key_vector s) = cantRegistros cf + 1"

lemma cell_Some [simp]: "i < length (key_vector s) \<Longrightarrow> cell s i = Some (key_vector s ! i)"
  by (simp add: cell_def)

lemma cell_eq_Some: "cell s i = Some e \<longleftrightarrow> i < length (key_vector s) \<and> key_vector s ! i = e"
  by (auto simp: cell_def)

lemma set_cell_Some: "i < length (key_vector s) \<Longrightarrow>
    set_cell s i f = Some (s\<lparr>key_vector := (key_vector s)[i := f (key_vector s ! i)]\<rparr>)"
  by (simp add: set_cell_def)

lemma set_cell_eq_Some: "set_cell s i f = Some s' \<longleftrightarrow> i < length (key_vector s) \<and>
    s' = s\<lparr>key_vector := (key_vector s)[i := f (key_vector s ! i)]\<rparr>"
  by (auto simp: set_cell_def)

text \<open>Sums over the cells, as words: they add up as the sizes do.\<close>

definition sum_cells :: "(key_element \<Rightarrow> u32) \<Rightarrow> key_element list \<Rightarrow> u32" where
  "sum_cells f kv = sum_list (map f kv)"

lemma sum_cells_update:
  "i < length kv \<Longrightarrow> sum_cells f (kv[i := e]) = sum_cells f kv - f (kv ! i) + f e"
proof (induction kv arbitrary: i)
  case (Cons a kv)
  then show ?case by (cases i) (auto simp: sum_cells_def)
qed simp

lemma scan_spec:
  "scan p s n i = Some j \<Longrightarrow> i \<le> j \<and> (i \<le> n \<longrightarrow> j \<le> n) \<and> j < length (key_vector s) \<and>
     (\<forall>m. i \<le> m \<and> m < j \<longrightarrow> p (key_vector s ! m)) \<and> (j < n \<longrightarrow> \<not> p (key_vector s ! j))"
proof (induction p s n i rule: scan.induct)
  case (1 p s n i)
  from "1.prems" have i: "i < length (key_vector s)"
    by (auto simp: scan.simps [of p s n i] cell_def split: if_splits bind_splits)
  show ?case
  proof (cases "p (key_vector s ! i) \<and> i < n")
    case True
    then have "scan p s n (i + 1) = Some j" using "1.prems" i by (simp add: scan.simps [of p s n i])
    then have IH: "i + 1 \<le> j \<and> (i + 1 \<le> n \<longrightarrow> j \<le> n) \<and> j < length (key_vector s) \<and>
       (\<forall>m. i + 1 \<le> m \<and> m < j \<longrightarrow> p (key_vector s ! m)) \<and> (j < n \<longrightarrow> \<not> p (key_vector s ! j))"
      using "1.IH" [of "key_vector s ! i"] i True by simp
    moreover have "p (key_vector s ! m)" if "i \<le> m" "m < j" for m
      using that IH True by (cases "m = i") auto
    ultimately show ?thesis using True by auto
  next
    case False
    then have "j = i" using "1.prems" i by (auto simp: scan.simps [of p s n i] split: if_splits)
    then show ?thesis using False i by auto
  qed
qed

lemma scan_total: "n < length (key_vector s) \<Longrightarrow> i \<le> n \<Longrightarrow> \<exists>j. scan p s n i = Some j"
proof (induction p s n i rule: scan.induct)
  case (1 p s n i)
  then show ?case by (auto simp: scan.simps [of p s n i])
qed

lemma buscarPosLibre_spec:
  assumes "rc_ok cf s"
  shows "\<exists>r. buscarPosLibre cf s = Some r \<and>
     (r = -1 \<longleftrightarrow> (\<forall>i < cantRegistros cf. data_size (key_vector s ! i) \<noteq> 0)) \<and>
     (r \<noteq> -1 \<longrightarrow> 0 \<le> r \<and> nat r < cantRegistros cf \<and> data_size (key_vector s ! nat r) = 0)"
proof -
  let ?n = "cantRegistros cf"
  obtain j where j: "scan (\<lambda>e. data_size e \<noteq> 0) s ?n 0 = Some j"
    using scan_total assms by (metis rc_ok_def less_add_one zero_le)
  note sp = scan_spec [OF j]
  have "buscarPosLibre cf s = Some (if j = ?n then -1 else int j)" using j by (simp add: buscarPosLibre_def)
  moreover have "j \<le> ?n" using sp by simp
  ultimately show ?thesis using sp by (cases "j = ?n") (auto intro!: exI [of _ j])
qed

section \<open>Sorting\<close>

lemma mset_swap_adjacent: "j + 1 < length kv \<Longrightarrow> mset (kv[j := kv ! (j + 1), j + 1 := kv ! j]) = mset kv"
  using mset_swap [of "j + 1" kv j] by simp

lemma ordenar_pass_mset:
  "ordenar_pass m c k j kv p fl = Some (kv', p', fl') \<Longrightarrow> mset kv' = mset kv"
proof (induction k arbitrary: j kv p fl)
  case (Suc k)
  then show ?case using mset_swap_adjacent [of j kv]
    by (auto split: if_splits bind_splits)
qed simp

text \<open>One pass over the live partitions is one round of bubble sort.\<close>

fun bubble :: "key_element list \<Rightarrow> key_element list" where
  "bubble (x # y # zs) = (if data x > data y then y # bubble (x # zs) else x # bubble (y # zs))"
| "bubble xs = xs"

lemmas bubble_induct = bubble.induct [case_names two nil one]

abbreviation by_address :: "key_element list \<Rightarrow> bool" where
  "by_address xs \<equiv> sorted (map data xs)"

lemma length_bubble [simp]: "length (bubble xs) = length xs"
  by (induction xs rule: bubble_induct) auto

lemma set_bubble [simp]: "set (bubble xs) = set xs"
  by (induction xs rule: bubble_induct) auto

lemma bubble_sorted: "by_address xs \<Longrightarrow> bubble xs = xs"
  by (induction xs rule: bubble_induct) auto

lemma bubble_append:
  "by_address vs \<Longrightarrow> \<forall>x \<in> set xs. \<forall>v \<in> set vs. data x \<le> data v \<Longrightarrow> bubble (xs @ vs) = bubble xs @ vs"
proof (induction xs rule: bubble_induct)
  case (one x)
  then have "by_address (x # vs)" by simp
  then show ?case by (simp add: bubble_sorted del: list.map)
qed (auto simp: bubble_sorted)

lemma bubble_max: "xs \<noteq> [] \<Longrightarrow> \<forall>x \<in> set xs. data x \<le> data (last (bubble xs))"
proof (induction xs rule: bubble_induct)
  case (two x y zs)
  have "bubble (a # zs) \<noteq> []" for a by (metis length_bubble length_0_conv list.distinct(1))
  then show ?case using two by fastforce
qed auto

lemma ordenar_pass_dead:
  "\<forall>i. j < i \<and> i < length kv \<longrightarrow> data_size (kv ! i) = 0 \<Longrightarrow> j + k < length kv \<Longrightarrow>
     ordenar_pass m c k j kv p fl = Some (kv, p, fl)"
  by (induction k arbitrary: j) auto

lemma ordenar_pass_bubble:
  assumes "\<forall>x \<in> set xs. data_size x \<noteq> 0" and "\<forall>y \<in> set ys. data_size y = 0"
  shows "xs \<noteq> [] \<Longrightarrow> length xs - 1 \<le> k \<Longrightarrow> length pre + k < length (pre @ xs @ ys) \<Longrightarrow>
    ordenar_pass m None k (length pre) (pre @ xs @ ys) p fl =
      Some (pre @ bubble xs @ ys, p, fl \<or> \<not> by_address xs)"
  using assms(1)
proof (induction xs arbitrary: k pre fl rule: bubble_induct)
  case (two x y zs)
  then obtain k' where k: "k = Suc k'" by (cases k) auto
  have sw: "(pre @ x # y # zs @ ys)[length pre := y, Suc (length pre) := x] = (pre @ [y]) @ (x # zs) @ ys"
    by (simp add: list_update_append)
  show ?case
  proof (cases "data x > data y")
    case True
    have "ordenar_pass m None k' (length (pre @ [y])) ((pre @ [y]) @ (x # zs) @ ys) p True =
       Some ((pre @ [y]) @ bubble (x # zs) @ ys, p, True \<or> \<not> by_address (x # zs))"
      by (rule two.IH(1)) (use True two.prems k in auto)
    then show ?thesis using True two.prems k sw by (auto simp: nth_append word_neq_0_conv)
  next
    case False
    have "ordenar_pass m None k' (length (pre @ [x])) ((pre @ [x]) @ (y # zs) @ ys) p fl =
       Some ((pre @ [x]) @ bubble (y # zs) @ ys, p, fl \<or> \<not> by_address (y # zs))"
      by (rule two.IH(2)) (use False two.prems k in auto)
    moreover have "by_address (x # y # zs) = by_address (y # zs)" using False by auto
    ultimately show ?thesis using False two.prems k by (auto simp: nth_append)
  qed
next
  case (one x)
  have "\<forall>i. length pre < i \<and> i < length (pre @ [x] @ ys) \<longrightarrow> data_size ((pre @ [x] @ ys) ! i) = 0"
    using assms(2) by (auto simp: nth_append nth_Cons split: nat.split)
  then show ?case using ordenar_pass_dead [of "length pre" "pre @ [x] @ ys" k] one.prems by simp
qed simp

text \<open>After \<open>k\<close> passes the \<open>k\<close> partitions of highest address are in place.\<close>

definition placed_from :: "nat \<Rightarrow> key_element list \<Rightarrow> bool" where
  "placed_from k xs \<longleftrightarrow> by_address (drop (length xs - k) xs) \<and>
     (\<forall>x \<in> set (take (length xs - k) xs). \<forall>v \<in> set (drop (length xs - k) xs). data x \<le> data v)"

lemma bubble_placed:
  assumes "placed_from k xs" and "k < length xs"
  shows "placed_from (Suc k) (bubble xs)"
proof -
  let ?n = "length xs - k"
  define us where "us = take ?n xs"
  define vs where "vs = drop ?n xs"
  have xs: "xs = us @ vs" "length us = ?n" "us \<noteq> []" using assms(2) by (auto simp: us_def vs_def)
  have p: "by_address vs" "\<forall>x \<in> set us. \<forall>v \<in> set vs. data x \<le> data v"
    using assms(1) by (auto simp: placed_from_def us_def vs_def)
  have b: "bubble xs = bubble us @ vs" unfolding xs(1) by (rule bubble_append [OF p])
  obtain ws m where ws: "bubble us = ws @ [m]" using xs(3) by (metis length_bubble length_0_conv rev_exhaust)
  have m: "\<forall>x \<in> set us. data x \<le> data m" using bubble_max [OF xs(3)] ws by simp
  have mem: "m \<in> set us" "set ws \<subseteq> set us" using set_bubble [of us] ws by auto
  have lw: "length (bubble xs) - Suc k = length ws"
    using xs(2) ws length_bubble [of us] assms(2) by simp
  have "by_address (m # vs)" using p mem by auto
  then show ?thesis using m mem p(2) unfolding placed_from_def lw by (auto simp: b ws)
qed

lemma placed_from_sorted: "placed_from k xs \<Longrightarrow> length xs \<le> Suc k \<Longrightarrow> by_address xs"
proof -
  assume p: "placed_from k xs" and l: "length xs \<le> Suc k"
  let ?n = "length xs - k"
  have "xs = take ?n xs @ drop ?n xs" by simp
  moreover have "by_address (take ?n xs)" using l by (intro sorted01) simp
  ultimately have "by_address (take ?n xs @ drop ?n xs)"
    using p unfolding placed_from_def map_append sorted_append by (auto simp del: append_take_drop_id)
  then show ?thesis by simp
qed

lemma ordenar_loop_sorts:
  assumes "\<forall>x \<in> set xs. data_size x \<noteq> 0" and "\<forall>y \<in> set ys. data_size y = 0"
    and "length (xs @ ys) = n + 1" and "placed_from r xs" and "length xs \<le> Suc (r + k)" and "length xs \<le> n"
  shows "\<exists>xs'. ordenar_loop m None k n (xs @ ys) p = Some (xs' @ ys, p) \<and> mset xs' = mset xs \<and> by_address xs'"
  using assms
proof (induction k arbitrary: xs r)
  case 0
  then show ?case using placed_from_sorted [of r xs] by auto
next
  case (Suc k)
  show ?case
  proof (cases "xs = [] \<or> by_address xs")
    case True
    have "ordenar_pass m None n 0 (xs @ ys) p False = Some (xs @ ys, p, False)"
    proof (cases "xs = []")
      case True
      then show ?thesis using ordenar_pass_dead [of 0 ys n m None p False] Suc.prems by simp
    next
      case False
      then show ?thesis
        using True ordenar_pass_bubble [OF Suc.prems(1,2) False, of n "[]" m p False] Suc.prems
        by (simp add: bubble_sorted)
    qed
    then show ?thesis using True by auto
  next
    case False
    then have pass: "ordenar_pass m None n 0 (xs @ ys) p False = Some (bubble xs @ ys, p, True)"
      using ordenar_pass_bubble [OF Suc.prems(1,2), of n "[]" m p False] Suc.prems by simp
    have r: "Suc r < length xs" using False placed_from_sorted [OF Suc.prems(4)] by (meson not_less)
    have "mset (bubble xs) = mset xs"
      using ordenar_pass_mset [OF pass] by simp
    moreover have "\<exists>xs'. ordenar_loop m None k n (bubble xs @ ys) p = Some (xs' @ ys, p) \<and>
        mset xs' = mset (bubble xs) \<and> by_address xs'"
      by (rule Suc.IH [where r = "Suc r"]) (use Suc.prems bubble_placed [OF Suc.prems(4)] r in auto)
    ultimately show ?thesis using pass by auto
  qed
qed

text \<open>
  \<open>ordenar_vector\<close> sorts the live partitions by address, keeps them all and touches nothing
  else, when they come first and leave one slot of the vector unused (with a full vector
  it makes one pass too few).
\<close>

theorem ordenar_vector_sorts:
  assumes "key_vector s = xs @ ys" and "length (xs @ ys) = cantRegistros cf + 1"
    and "\<forall>x \<in> set xs. data_size x \<noteq> 0" and "\<forall>y \<in> set ys. data_size y = 0"
    and "length xs < cantRegistros cf"
  shows "\<exists>xs'. ordenar_vector cf s (-1) = Some (0, s\<lparr>key_vector := xs' @ ys\<rparr>) \<and> mset xs' = mset xs \<and>
    sorted (map data xs')"
proof -
  have "placed_from 0 xs" by (simp add: placed_from_def)
  then have "\<exists>xs'. ordenar_loop (keys_mem s) None (cantRegistros cf - 2) (cantRegistros cf) (xs @ ys) 0 = Some (xs' @ ys, 0) \<and>
      mset xs' = mset xs \<and> by_address xs'"
    by (intro ordenar_loop_sorts [where r = 0]) (use assms in auto)
  then show ?thesis using assms(1) by (auto simp: ordenar_vector_def Let_def)
qed

text \<open>The partition of a vector of three slots, addresses in descending order and all in use.\<close>

definition part :: "u32 \<Rightarrow> u32 \<Rightarrow> bool \<Rightarrow> int \<Rightarrow> key_element" where
  "part d n fr sec = \<lparr>key = 0, nkey = 0, stored = False, data_size = n, data_unuse = 0, data = d, actual = 0,
     padre = 0, libre = fr, exptime = 0, tp = \<lparr>tv_sec = sec, tv_nsec = 0\<rparr>\<rparr>"

definition conf :: "nat \<Rightarrow> rc_config" where
  "conf n = \<lparr>cache_size = 64, part_minima = 8, part_maxima = 64, FREQ = 1, MAX_KEY = 16, VICTIM_LRU = True,
     cantRegistros = n, keys_space = 0, cache = 0\<rparr>"

definition table :: "key_element list \<Rightarrow> rc" where
  "table kv = \<lparr>key_vector = kv, keys_mem = (\<lambda>_. 0), cache_mem = (\<lambda>a. of_nat a), ultima_posicion = 0\<rparr>"

theorem ordenar_vector_sorts_witness:
  "\<exists>xs'. ordenar_vector (conf 3) (table [part 8 8 False 1, part 0 8 True 0, part 0 0 True 0, part 0 0 True 0]) (-1) =
     Some (0, (table [])\<lparr>key_vector := xs' @ [part 0 0 True 0, part 0 0 True 0]\<rparr>) \<and>
     sorted (map data xs')"
  using ordenar_vector_sorts [of "table [part 8 8 False 1, part 0 8 True 0, part 0 0 True 0, part 0 0 True 0]"
      "[part 8 8 False 1, part 0 8 True 0]" "[part 0 0 True 0, part 0 0 True 0]" "conf 3"]
  by (auto simp: table_def conf_def part_def)

text \<open>
  With a full vector \<open>ordenar_vector\<close> stops one pass too early: three occupied partitions in
  descending order of address are not sorted when it returns.
\<close>

theorem ordenar_vector_full_unsorted:
  "map_option (\<lambda>(_, s). map data (key_vector s))
     (ordenar_vector (conf 3) (table [part 16 8 False 1, part 8 8 False 1, part 0 8 False 1, part 0 0 True 0]) (-1)) =
   Some [8, 0, 16, 0]"
  by code_simp

section \<open>Compaction\<close>

text \<open>
  \<open>compactarDinam\<close> moves the bytes of an occupied partition down but leaves its \<open>data\<close>
  pointer at the old address, and gives the free rest a null pointer: with a free partition
  of 10 bytes at 100, an occupied one of 5 at 110 and a free one of 49 at 115 it returns an occupied
  partition that still points to 110 (its bytes are at 100) and a free one of 59 bytes at address 0.
\<close>

theorem compactarDinam_wrong_addresses:
  "map_option (\<lambda>(r, s). (r, map (\<lambda>e. (data e, data_size e, libre e)) (key_vector s), mem_read (cache_mem s) 100 5))
     (compactarDinam (conf 3) (table [part 100 10 True 0, part 110 5 False 1, part 115 49 True 0, part 0 0 True 0])) =
   Some (1, [(110, 5, False), (0, 59, True), (105, 0, True), (0, 0, True)], [110, 111, 112, 113, 114])"
  by code_simp

section \<open>The victim\<close>

text \<open>The partitions \<open>borrar\<close> compares: the occupied ones of the slots from \<open>i\<close> to \<open>j\<close>.\<close>

definition candidates :: "rc \<Rightarrow> nat \<Rightarrow> nat \<Rightarrow> nat set" where
  "candidates s i j = {m. i \<le> m \<and> m < j \<and> \<not> libre (key_vector s ! m)}"

definition oldest :: "rc \<Rightarrow> nat \<Rightarrow> nat set \<Rightarrow> bool" where
  "oldest s r M \<longleftrightarrow> r \<in> M \<and> (\<forall>m \<in> M. \<not> tp_less (tp (key_vector s ! m)) (tp (key_vector s ! r)))"

lemma tp_less_trans: "\<not> tp_less a b \<Longrightarrow> tp_less c b \<Longrightarrow> \<not> tp_less a c"
  by (auto simp: tp_less_def split: if_splits)

lemma tp_less_irrefl [simp]: "\<not> tp_less a a"
  by (simp add: tp_less_def)

lemma oldest_extend:
  assumes "oldest s r (candidates s i0 i)" and "i0 \<le> i" and "\<not> libre (key_vector s ! i)"
  shows "oldest s (if tp_less (tp (key_vector s ! i)) (tp (key_vector s ! r)) then i else r) (candidates s i0 (i + 1))"
proof -
  have "candidates s i0 (i + 1) = insert i (candidates s i0 i)"
    using assms(2,3) by (auto simp: candidates_def less_Suc_eq)
  moreover have "\<forall>m \<in> candidates s i0 i. \<not> tp_less (tp (key_vector s ! m)) (tp (key_vector s ! r))"
    and "r \<in> candidates s i0 i" using assms(1) by (auto simp: oldest_def)
  moreover from this(1) have "\<forall>m \<in> candidates s i0 i. \<not> tp_less (tp (key_vector s ! m)) (tp (key_vector s ! i))"
    if "tp_less (tp (key_vector s ! i)) (tp (key_vector s ! r))" using that tp_less_trans by blast
  ultimately show ?thesis by (simp add: oldest_def)
qed

lemma candidates_free: "libre (key_vector s ! i) \<Longrightarrow> candidates s i0 (i + 1) = candidates s i0 i"
  by (auto simp: candidates_def less_Suc_eq)

lemma borrar_inner_oldest:
  assumes "n < length (key_vector s)"
  shows "oldest s r (candidates s i0 i) \<Longrightarrow> i0 \<le> i \<Longrightarrow> i \<le> n \<Longrightarrow> t = tp (key_vector s ! r) \<Longrightarrow>
    \<exists>j r'. borrar_inner s n i t r = Some (j, tp (key_vector s ! r'), r') \<and> i \<le> j \<and> j \<le> n \<and>
      oldest s r' (candidates s i0 j)"
  using assms
proof (induction s n i t r rule: borrar_inner.induct)
  case (1 s n i t r)
  let ?e = "key_vector s ! i"
  show ?case
  proof (cases "i < n \<and> tv_sec (tp ?e) \<noteq> 0 \<and> \<not> libre ?e")
    case True
    then have c: "cell s i = Some ?e" using "1.prems"(5) by simp
    note ext = oldest_extend [OF "1.prems"(1,2), of]
    show ?thesis
    proof (cases "tp_less (tp ?e) t")
      case less: True
      then have "oldest s i (candidates s i0 (i + 1))" using ext True "1.prems"(4) by simp
      from "1.IH"(1) [OF _ c _ less this] True "1.prems" obtain j r' where
        "borrar_inner s n (i + 1) (tp ?e) i = Some (j, tp (key_vector s ! r'), r')" "i + 1 \<le> j" "j \<le> n"
        "oldest s r' (candidates s i0 j)" by auto
      moreover have "borrar_inner s n i t r = borrar_inner s n (i + 1) (tp ?e) i"
        using less c True by (simp add: borrar_inner.simps [of s n i])
      ultimately show ?thesis by (intro exI [of _ j] exI [of _ r']) simp
    next
      case False
      then have "oldest s r (candidates s i0 (i + 1))" using ext True "1.prems"(4) by simp
      from "1.IH"(2) [OF _ c _ False this] True "1.prems" obtain j r' where
        "borrar_inner s n (i + 1) t r = Some (j, tp (key_vector s ! r'), r')" "i + 1 \<le> j" "j \<le> n"
        "oldest s r' (candidates s i0 j)" by auto
      moreover have "borrar_inner s n i t r = borrar_inner s n (i + 1) t r"
        using False c True by (simp add: borrar_inner.simps [of s n i])
      ultimately show ?thesis by (intro exI [of _ j] exI [of _ r']) simp
    qed
  next
    case False
    then have "borrar_inner s n i t r = Some (i, t, r)"
      using "1.prems"(5) by (auto simp: borrar_inner.simps [of s n i])
    then show ?thesis using "1.prems" by auto
  qed
qed

lemma borrar_outer_oldest:
  assumes "n < length (key_vector s)"
    and live: "\<forall>m. i0 \<le> m \<and> m < n \<longrightarrow> data_size (key_vector s ! m) \<noteq> 0 \<and> tv_sec (tp (key_vector s ! m)) \<noteq> 0"
  shows "oldest s r (candidates s i0 i) \<Longrightarrow> i0 \<le> i \<Longrightarrow> i \<le> n \<Longrightarrow>
    \<exists>r'. borrar_outer s n i (tp (key_vector s ! r)) r = Some r' \<and> oldest s r' (candidates s i0 n)"
proof (induction "n - i" arbitrary: i r rule: less_induct)
  case less
  let ?e = "key_vector s ! i"
  have c: "cell s i = Some ?e" using less.prems assms(1) by simp
  show ?case
  proof (cases "i = n")
    case True
    then show ?thesis using less.prems c by (auto simp: borrar_outer.simps [of s n n])
  next
    case False
    let ?i = "if libre ?e then i + 1 else i"
    have "oldest s r (candidates s i0 ?i)" "i0 \<le> ?i" "?i \<le> n"
      using less.prems False candidates_free [of s i i0] by auto
    from borrar_inner_oldest [OF assms(1) this refl] obtain j r' where
      j: "borrar_inner s n ?i (tp (key_vector s ! r)) r = Some (j, tp (key_vector s ! r'), r')" "?i \<le> j" "j \<le> n"
      "oldest s r' (candidates s i0 j)" by blast
    have l: "data_size ?e \<noteq> 0" "tv_sec (tp ?e) \<noteq> 0" "i < n" using live less.prems False by auto
    have "i < j" using borrar_inner_progress [OF j(1) c] l by simp
    then have "\<exists>r''. borrar_outer s n j (tp (key_vector s ! r')) r' = Some r'' \<and> oldest s r'' (candidates s i0 n)"
      using less.hyps [of j r'] j less.prems l by simp
    then show ?thesis using c l j(1) by (simp add: borrar_outer.simps [of s n i] word_gt_0)
  qed
qed

text \<open>
  C36. The victim is the oldest partition: when every slot of the vector is a partition that was used
  (non-zero size and time) and some partition is occupied, \<open>borrar\<close> returns an
  occupied one such that no occupied one has an earlier time, the last access under LRU and the
  allocation under FIFO.
\<close>

theorem borrar_oldest:
  assumes "rc_ok cf s" and "m < cantRegistros cf" and "\<not> libre (key_vector s ! m)"
    and "\<forall>m < cantRegistros cf. data_size (key_vector s ! m) \<noteq> 0 \<and> tv_sec (tp (key_vector s ! m)) \<noteq> 0"
  shows "\<exists>r. borrar cf s = Some r \<and> r < cantRegistros cf \<and> \<not> libre (key_vector s ! r) \<and>
    (\<forall>m < cantRegistros cf. \<not> libre (key_vector s ! m) \<longrightarrow>
       \<not> tp_less (tp (key_vector s ! m)) (tp (key_vector s ! r)))"
proof -
  let ?n = "cantRegistros cf"
  have n: "?n < length (key_vector s)" using assms(1) by (simp add: rc_ok_def)
  obtain i where i: "scan libre s ?n 0 = Some i" using scan_total [OF n, of 0 libre] by auto
  note sp = scan_spec [OF i]
  have "i \<le> m" using sp assms(3) by (meson le0 not_le)
  then have in': "i < ?n" "\<not> libre (key_vector s ! i)" "i < length (key_vector s)" using sp assms(2) by auto
  have "candidates s i (i + 1) = {i}" using in' by (auto simp: candidates_def)
  then have "oldest s i (candidates s i (i + 1))" by (simp add: oldest_def)
  moreover have "candidates s i i = {}" by (auto simp: candidates_def)
  have e: "borrar cf s = borrar_outer s ?n i (tp (key_vector s ! i)) i" using i in' by (simp add: borrar_def)
  have inner: "borrar_inner s ?n i (tp (key_vector s ! i)) i = borrar_inner s ?n (i + 1) (tp (key_vector s ! i)) i"
    using in' assms(4) by (simp add: borrar_inner.simps [of s ?n i])
  have "\<exists>j r'. borrar_inner s ?n (i + 1) (tp (key_vector s ! i)) i = Some (j, tp (key_vector s ! r'), r') \<and> i + 1 \<le> j \<and> j \<le> ?n \<and>
      oldest s r' (candidates s i j)"
    by (rule borrar_inner_oldest [OF n]) (use in' calculation in auto)
  then obtain j r' where j: "borrar_inner s ?n (i + 1) (tp (key_vector s ! i)) i = Some (j, tp (key_vector s ! r'), r')"
    "i + 1 \<le> j" "j \<le> ?n" "oldest s r' (candidates s i j)" by blast
  have "borrar cf s = borrar_outer s ?n j (tp (key_vector s ! r')) r'"
    using e in' assms(4) j(1) inner by (simp add: borrar_outer.simps [of s ?n i] word_gt_0)
  moreover obtain r where "borrar_outer s ?n j (tp (key_vector s ! r')) r' = Some r" "oldest s r (candidates s i ?n)"
    using borrar_outer_oldest [OF n, of i r' j] assms(4) j by auto
  ultimately have "borrar cf s = Some r" "oldest s r (candidates s i ?n)" by simp_all
  moreover have "i \<le> m'" if "\<not> libre (key_vector s ! m')" for m' using that sp by (meson le0 not_le)
  ultimately show ?thesis by (auto simp: oldest_def candidates_def)
qed

theorem borrar_oldest_witness:
  "\<exists>r. borrar (conf 3) (table [part 0 8 False 7, part 8 8 True 9, part 16 8 False 5, part 0 0 True 0]) = Some r \<and>
     \<not> tp_less (tp (part 16 8 False 5)) (tp (key_vector
        (table [part 0 8 False 7, part 8 8 True 9, part 16 8 False 5, part 0 0 True 0]) ! r))"
proof -
  let ?s = "table [part 0 8 False 7, part 8 8 True 9, part 16 8 False 5, part 0 0 True 0]"
  have "rc_ok (conf 3) ?s" "(0::nat) < cantRegistros (conf 3)" "\<not> libre (key_vector ?s ! 0)"
    "\<forall>m < cantRegistros (conf 3). data_size (key_vector ?s ! m) \<noteq> 0 \<and> tv_sec (tp (key_vector ?s ! m)) \<noteq> 0"
    by (auto simp: rc_ok_def conf_def table_def part_def numeral_3_eq_3 less_Suc_eq)
  from borrar_oldest [OF this] obtain r where r: "borrar (conf 3) ?s = Some r"
    "\<forall>m < cantRegistros (conf 3). \<not> libre (key_vector ?s ! m) \<longrightarrow>
       \<not> tp_less (tp (key_vector ?s ! m)) (tp (key_vector ?s ! r))" by blast
  moreover have "(2::nat) < cantRegistros (conf 3)" "key_vector ?s ! 2 = part 16 8 False 5" "\<not> libre (part 16 8 False 5)"
    by (simp_all add: conf_def table_def part_def)
  ultimately show ?thesis by metis
qed

text \<open>
  The scan of \<open>borrar\<close> stops at the first slot that was never used (time 0): with a fresh
  free partition between them, the older of two occupied partitions is not seen.
\<close>

theorem borrar_stops_at_fresh_partition:
  "borrar (conf 3) (table [part 0 8 False 7, part 8 8 True 0, part 16 8 False 5, part 0 0 True 0]) = Some 0"
  by code_simp

section \<open>The buddy split\<close>

text \<open>The bytes of a partition, and that no two partitions share a byte.\<close>

definition from_to :: "key_element \<Rightarrow> nat \<times> nat" where
  "from_to e = (unat (data e), unat (data e) + unat (data_size e))"

definition apart :: "key_element \<Rightarrow> key_element \<Rightarrow> bool" where
  "apart a b \<longleftrightarrow> data_size a = 0 \<or> data_size b = 0 \<or> snd (from_to a) \<le> fst (from_to b) \<or> snd (from_to b) \<le> fst (from_to a)"

definition no_overlap :: "nat \<Rightarrow> key_element list \<Rightarrow> bool" where
  "no_overlap n kv \<longleftrightarrow> (\<forall>i < n. snd (from_to (kv ! i)) < 2 ^ 32) \<and>
     (\<forall>i < n. \<forall>j < n. i \<noteq> j \<longrightarrow> apart (kv ! i) (kv ! j))"

lemma unat_half: "unat (w div 2 :: u32) = unat w div 2"
  by (simp add: unat_div)

lemma apart_sub:
  assumes "apart a x" and "data_size a \<noteq> 0" and "fst (from_to a) \<le> fst (from_to b)" and "snd (from_to b) \<le> snd (from_to a)"
  shows "apart b x" "apart x b"
  using assms by (auto simp: apart_def)

lemma no_overlap_split:
  assumes "no_overlap n kv" and "l < n" "p < n" "p \<noteq> l" "n \<le> length kv" and "data_size (kv ! l) \<noteq> 0"
    and "data_size ep = data_size (kv ! l) div 2" "data ep = data (kv ! l) + data_size (kv ! l) div 2"
    and "data_size el = data_size (kv ! l) div 2" "data el = data (kv ! l)"
  shows "no_overlap n (kv[p := ep, l := el])"
proof -
  let ?L = "kv ! l"
  let ?h = "unat (data_size ?L) div 2"
  have L: "unat (data ?L) + unat (data_size ?L) < 2 ^ 32" using assms(1,2) by (auto simp: no_overlap_def from_to_def)
  then have "unat (data ?L + data_size ?L div 2) = unat (data ?L) + ?h"
    by (simp add: unat_word_ariths unat_half)
  then have f: "from_to ep = (unat (data ?L) + ?h, unat (data ?L) + ?h + ?h)" "from_to el = (unat (data ?L), unat (data ?L) + ?h)"
    using assms by (simp_all add: from_to_def unat_half)
  have sub: "apart ep x \<and> apart x ep \<and> apart el x \<and> apart x el" if "apart ?L x" for x
    using apart_sub [OF that assms(6), of ep] apart_sub [OF that assms(6), of el]
    by (auto simp: f) (auto simp: from_to_def)
  have "apart (kv[p := ep, l := el] ! i) (kv[p := ep, l := el] ! j)" if "i < n" "j < n" "i \<noteq> j" for i j
  proof -
    have "apart ?L (kv ! i)" if "i \<noteq> l" using assms(1,2) that \<open>i < n\<close> by (auto simp: no_overlap_def)
    moreover have "apart ?L (kv ! j)" if "j \<noteq> l" using assms(1,2) that \<open>j < n\<close> by (auto simp: no_overlap_def)
    moreover have "apart (kv ! i) (kv ! j)" using assms(1) that by (auto simp: no_overlap_def)
    moreover have "apart ep el" "apart el ep" by (auto simp: apart_def f)
    ultimately show ?thesis using that assms(3-5) sub [of "kv ! i"] sub [of "kv ! j"]
      by (cases "i = l"; cases "j = l"; cases "i = p"; cases "j = p"; simp)
  qed
  moreover have "snd (from_to (kv[p := ep, l := el] ! i)) < 2 ^ 32" if "i < n" for i
    using that assms(1-5) L f by (cases "i = l"; cases "i = p"; simp add: no_overlap_def)
  ultimately show ?thesis by (auto simp: no_overlap_def)
qed

lemma crear_arbol_split:
  assumes "rc_ok cf s" and "l < cantRegistros cf" and "espacio \<le> data_size (key_vector s ! l) div 2"
    and "part_minima cf \<le> data_size (key_vector s ! l) div 2" and "0 < part_minima cf"
    and "buscarPosLibre cf s = Some p" and "p \<noteq> -1"
  shows "\<exists>ep el. crear_arbol cf s l espacio = crear_arbol cf (s\<lparr>key_vector := (key_vector s)[nat p := ep, l := el]\<rparr>) l espacio \<and>
     nat p < cantRegistros cf \<and> nat p \<noteq> l \<and> data_size (key_vector s ! nat p) = 0 \<and>
     data_size ep = data_size (key_vector s ! l) div 2 \<and> data ep = data (key_vector s ! l) + data_size (key_vector s ! l) div 2 \<and> libre ep \<and>
     data_size el = data_size (key_vector s ! l) div 2 \<and> data el = data (key_vector s ! l) \<and> libre el = libre (key_vector s ! l)"
proof -
  let ?kv = "key_vector s"
  let ?h = "data_size (?kv ! l) div 2"
  have p: "nat p < cantRegistros cf" "data_size (?kv ! nat p) = 0" using buscarPosLibre_spec [OF assms(1)] assms(6,7) by auto
  have "data_size (?kv ! l) \<noteq> 0" using assms(4,5) by auto
  then have pl: "nat p \<noteq> l" using p by metis
  have len: "nat p < length ?kv" "l < length ?kv" using p(1) assms(1,2) by (auto simp: rc_ok_def)
  have "\<exists>a1 p1 a2 p2. actualizar_flags s l (nat p) = insert_PadreActual s (nat p) a1 p1 l a2 p2"
    using len(2) by (simp add: actualizar_flags_def Let_def) blast
  then obtain p1 a1 p2 a2 where fl: "actualizar_flags s l (nat p) = insert_PadreActual s (nat p) a1 p1 l a2 p2"
    by blast
  let ?p1 = "(?kv ! nat p)\<lparr>padre := p1, actual := a1\<rparr>"
  let ?l1 = "(?kv ! l)\<lparr>padre := p2, actual := a2\<rparr>"
  let ?s1 = "s\<lparr>key_vector := ?kv[nat p := ?p1, l := ?l1]\<rparr>"
  have s1: "actualizar_flags s l (nat p) = Some ?s1"
    using len pl by (simp add: fl insert_PadreActual_def set_cell_Some)
  define ep where "ep = ?p1\<lparr>data := data (?kv ! l) + ?h, libre := True, data_size := ?h\<rparr>"
  define el where "el = ?l1\<lparr>data_size := ?h\<rparr>"
  have "crear_arbol cf s l espacio = crear_arbol cf (s\<lparr>key_vector := ?kv[nat p := ep, l := el]\<rparr>) l espacio"
    using assms(3,4,6,7) len pl s1
    by (subst crear_arbol.simps)
      (simp add: Let_def cargarEnVector_def set_cell_Some nth_list_update list_update_swap [of l "nat p"] ep_def el_def)
  then show ?thesis using p pl by (intro exI [of _ ep] exI [of _ el]) (simp add: ep_def el_def)
qed

definition split_ok :: "rc_config \<Rightarrow> u32 \<Rightarrow> nat \<Rightarrow> rc \<Rightarrow> nat option \<Rightarrow> rc \<Rightarrow> bool" where
  "split_ok cf espacio l s r s' \<longleftrightarrow> rc_ok cf s' \<and>
     (\<forall>i. i < cantRegistros cf \<and> i \<noteq> l \<and> data_size (key_vector s ! i) \<noteq> 0 \<longrightarrow> key_vector s' ! i = key_vector s ! i) \<and>
     (no_overlap (cantRegistros cf) (key_vector s) \<longrightarrow> no_overlap (cantRegistros cf) (key_vector s')) \<and>
     ((\<exists>k. unat (data_size (key_vector s ! l)) = 2 ^ k) \<longrightarrow>
        sum_cells data_size (key_vector s') = sum_cells data_size (key_vector s)) \<and>
     espacio \<le> data_size (key_vector s' ! l) \<and> data (key_vector s' ! l) = data (key_vector s ! l) \<and>
     (case r of None \<Rightarrow> \<forall>i < cantRegistros cf. data_size (key_vector s' ! i) \<noteq> 0
      | Some j \<Rightarrow> j = l \<and> (data_size (key_vector s' ! l) div 2 < espacio \<or> data_size (key_vector s' ! l) div 2 < part_minima cf))"

lemma half_sum: "unat w = 2 ^ k \<Longrightarrow> 0 < (w :: u32) div 2 \<Longrightarrow> w div 2 + w div 2 = w \<and> (\<exists>j. unat (w div 2) = 2 ^ j)"
proof -
  assume w: "unat w = 2 ^ k" and h: "0 < w div 2"
  then have "unat w div 2 \<noteq> 0" by (metis unat_half unat_eq_zero word_greater_zero_iff)
  then have "k \<noteq> 0" using w by (cases k) auto
  then obtain j where j: "k = Suc j" by (cases k) auto
  then have "unat (w div 2) = 2 ^ j" using w by (simp add: unat_half)
  moreover have "unat w < 2 ^ 32" using unsigned_less [of w] by simp
  then have "2 * 2 ^ j < (4294967296 :: nat)" "2 ^ j < (4294967296 :: nat)" using w j by simp_all
  then have "unat (w div 2 + w div 2) = unat w" using w j by (simp add: unat_word_ariths unat_half)
  ultimately show ?thesis using word_unat_eq_iff by blast
qed

text \<open>The three ways of a round: the halves are too small, there is no slot left, or the partition is split and the slot is tried again.\<close>

lemma split_stops:
  assumes R: "rc_ok cf s" and l: "l < cantRegistros cf" and "espacio \<le> data_size (key_vector s ! l)"
    and h: "h = data_size (key_vector s ! l) div 2" and small: "\<not> (espacio \<le> h \<and> part_minima cf \<le> h)"
  shows "\<exists>s'. crear_arbol cf s l espacio = Some (Some l, s') \<and> split_ok cf espacio l s (Some l) s'"
proof -
  let ?kv = "key_vector s"
  have l': "l < length ?kv" using R l by (simp add: rc_ok_def)
  define s' where "s' = s\<lparr>key_vector := ?kv[l := (?kv ! l)\<lparr>data_unuse :=
      (if espacio > h then data_size (?kv ! l) - espacio else h - espacio)\<rparr>]\<rparr>"
  have c: "crear_arbol cf s l espacio = Some (Some l, s')"
    using small l' h by (subst crear_arbol.simps) (auto simp: Let_def set_cell_Some s'_def)
  have same: "\<forall>i < length ?kv. data (key_vector s' ! i) = data (?kv ! i) \<and> data_size (key_vector s' ! i) = data_size (?kv ! i)"
    "length (key_vector s') = length ?kv" "sum_cells data_size (key_vector s') = sum_cells data_size ?kv"
    using l' by (simp_all add: s'_def nth_list_update sum_cells_update)
  then have "no_overlap (cantRegistros cf) (key_vector s') = no_overlap (cantRegistros cf) ?kv"
    using R by (auto simp: no_overlap_def apart_def from_to_def rc_ok_def)
  then have "split_ok cf espacio l s (Some l) s'"
    using assms same l' by (auto simp: split_ok_def rc_ok_def s'_def not_le)
  then show ?thesis using c by blast
qed

lemma split_round:
  assumes R: "rc_ok cf s" and l: "l < cantRegistros cf" and h: "h = data_size (key_vector s ! l) div 2" "0 < h"
    and p: "p < cantRegistros cf" "p \<noteq> l" "data_size (key_vector s ! p) = 0"
    and c: "data_size ep = h" "data ep = data (key_vector s ! l) + h" "data_size el = h" "data el = data (key_vector s ! l)"
    and r: "split_ok cf espacio l (s\<lparr>key_vector := (key_vector s)[p := ep, l := el]\<rparr>) r s'"
  shows "split_ok cf espacio l s r s'"
proof -
  let ?kv = "key_vector s"
  have len: "l < length ?kv" "p < length ?kv" using R l p(1) by (simp_all add: rc_ok_def)
  have nz: "data_size (?kv ! l) \<noteq> 0" using h by auto
  have "sum_cells data_size (?kv[p := ep, l := el]) = sum_cells data_size ?kv - data_size (?kv ! l) + (h + h)"
    using len p c by (simp add: sum_cells_update nth_list_update)
  then have sm: "sum_cells data_size (key_vector s') = sum_cells data_size ?kv" if "\<exists>k. unat (data_size (?kv ! l)) = 2 ^ k"
    using r that half_sum [OF _ h(2) [unfolded h(1)]] len c(3) by (auto simp: split_ok_def h(1))
  have cl: "key_vector s' ! i = ?kv ! i" if "i < cantRegistros cf" "i \<noteq> l" "data_size (?kv ! i) \<noteq> 0" for i
    using r that p(3) by (cases "i = p") (simp_all add: split_ok_def)
  have "no_overlap (cantRegistros cf) (key_vector s')" if "no_overlap (cantRegistros cf) ?kv"
    using r no_overlap_split [OF that l p(1,2) _ nz c [unfolded h(1)]] R by (simp add: split_ok_def rc_ok_def)
  then show ?thesis using r sm cl len c(4) unfolding split_ok_def [of cf espacio l] by simp
qed

lemma crear_arbol_ok:
  assumes "rc_ok cf s" and "l < cantRegistros cf" and "espacio \<le> data_size (key_vector s ! l)" and "0 < part_minima cf"
  shows "\<exists>r s'. crear_arbol cf s l espacio = Some (r, s') \<and> split_ok cf espacio l s r s'"
  using assms
proof (induction "unat (data_size (key_vector s ! l))" arbitrary: s rule: less_induct)
  case less
  let ?kv = "key_vector s"
  let ?h = "data_size (?kv ! l) div 2"
  have l: "l < length ?kv" using less.prems by (simp add: rc_ok_def)
  show ?case
  proof (cases "espacio \<le> ?h \<and> part_minima cf \<le> ?h")
    case False
    then show ?thesis using split_stops [OF less.prems(1-3) refl] by blast
  next
    case T: True
    obtain p where p: "buscarPosLibre cf s = Some p" "p = -1 \<longleftrightarrow> (\<forall>i < cantRegistros cf. data_size (?kv ! i) \<noteq> 0)"
      using buscarPosLibre_spec [OF less.prems(1)] by auto
    show ?thesis
    proof (cases "p = -1")
      case full: True
      have "crear_arbol cf s l espacio = Some (None, s)" using T p full l by (subst crear_arbol.simps) (simp add: Let_def)
      then show ?thesis using less.prems p full by (auto simp: split_ok_def)
    next
      case False
      obtain ep el where e: "crear_arbol cf s l espacio = crear_arbol cf (s\<lparr>key_vector := ?kv[nat p := ep, l := el]\<rparr>) l espacio"
        "nat p < cantRegistros cf" "nat p \<noteq> l" "data_size (?kv ! nat p) = 0"
        "data_size ep = ?h" "data ep = data (?kv ! l) + ?h" "data_size el = ?h" "data el = data (?kv ! l)"
        using crear_arbol_split [OF less.prems(1,2) conjunct1 [OF T] conjunct2 [OF T] less.prems(4) p(1) False] by blast
      let ?s = "s\<lparr>key_vector := ?kv[nat p := ep, l := el]\<rparr>"
      have h: "0 < ?h" using T less.prems(4) by auto
      then have "data_size (?kv ! l) \<noteq> 0" by auto
      then have "unat ?h < unat (data_size (?kv ! l))" by (simp add: unat_half unat_gt_0)
      then obtain r s' where r: "crear_arbol cf ?s l espacio = Some (r, s')" "split_ok cf espacio l ?s r s'"
        using less.hyps [of ?s] less.prems T l e(7) by (auto simp: rc_ok_def)
      then show ?thesis using e(1) split_round [OF less.prems(1,2) refl h e(2-8)] by auto
    qed
  qed
qed

text \<open>
  C35. The buddy split ends and is correct: from a partition of at least the requested size,
  \<open>crear_arbol\<close> returns the same slot and address, halved until a half would be too small for the
  request or below the minimal partition, or null when the vector has no slot left; every other
  partition stays as it was, partitions that did not overlap still do not, and no byte is lost
  when the partition's size is a power of two.
\<close>

theorem crear_arbol_splits:
  assumes "rc_ok cf s" and "l < cantRegistros cf" and "espacio \<le> data_size (key_vector s ! l)" and "0 < part_minima cf"
  shows "\<exists>r s'. crear_arbol cf s l espacio = Some (r, s') \<and> split_ok cf espacio l s r s'"
  using assms by (rule crear_arbol_ok)

theorem crear_arbol_splits_witness:
  "\<exists>r s'. crear_arbol (conf 4) (table [part 0 64 True 0, part 0 0 True 0, part 0 0 True 0, part 0 0 True 0, part 0 0 True 0]) 0 10 =
     Some (r, s') \<and> 10 \<le> data_size (key_vector s' ! 0)"
  using crear_arbol_splits [of "conf 4" "table [part 0 64 True 0, part 0 0 True 0, part 0 0 True 0, part 0 0 True 0, part 0 0 True 0]" 0 10]
  by (auto simp: split_ok_def rc_ok_def conf_def table_def part_def)

text \<open>
  The unused bytes of a buddy partition: they are the rest of the partition when the request is
  larger than half of it; for a smaller request (in a partition of minimal size) the code
  records the rest of the half, and the other half is lost when the partition is freed.
\<close>

theorem crear_arbol_unused_bytes:
  assumes "l < length (key_vector s)" and "data_size (key_vector s ! l) div 2 < part_minima cf"
  shows "\<exists>s'. crear_arbol cf s l espacio = Some (Some l, s') \<and>
    data_unuse (key_vector s' ! l) =
      (if espacio > data_size (key_vector s ! l) div 2 then data_size (key_vector s ! l) - espacio
       else data_size (key_vector s ! l) div 2 - espacio)"
proof -
  have "\<not> part_minima cf \<le> data_size (key_vector s ! l) div 2" using assms(2) by simp
  then show ?thesis using assms(1) by (subst crear_arbol.simps) (simp add: Let_def set_cell_Some)
qed

theorem crear_arbol_unused_bytes_witness:
  "\<exists>s'. crear_arbol (conf 1) (table [part 0 8 True 0, part 0 0 True 0]) 0 3 = Some (Some 0, s') \<and>
     data_unuse (key_vector s' ! 0) = 1"
  using crear_arbol_unused_bytes [of 0 "table [part 0 8 True 0, part 0 0 True 0]" "conf 1" 3]
  by (simp add: table_def conf_def part_def)

section \<open>The split of next fit and worst fit\<close>

text \<open>
  Next fit and worst fit: when the partition is larger than the request rounded up to the
  minimal partition and the vector has an unused slot, \<open>partir\<close> leaves the rounding as unused bytes
  of the partition and makes a free partition that starts where the rounded
  request ends and has the rest of the bytes; all other slots stay.
\<close>

theorem partir_splits:
  assumes "rc_ok cf s" and "i < cantRegistros cf" and "espacio + diferencia cf espacio < data_size (key_vector s ! i)"
    and "\<exists>p < cantRegistros cf. data_size (key_vector s ! p) = 0"
  shows "\<exists>s' p. partir cf espacio s (data_size (key_vector s ! i)) i = Some (Some i, s') \<and> p < cantRegistros cf \<and> p \<noteq> i \<and>
    data_size (key_vector s ! p) = 0 \<and>
    data_size (key_vector s' ! p) = data_size (key_vector s ! i) - (espacio + diferencia cf espacio) \<and>
    data (key_vector s' ! p) = data (key_vector s ! i) + (espacio + diferencia cf espacio) \<and>
    libre (key_vector s' ! p) \<and>
    data_unuse (key_vector s' ! i) = diferencia cf espacio \<and> data (key_vector s' ! i) = data (key_vector s ! i) \<and>
    (\<forall>j. j \<noteq> p \<and> j \<noteq> i \<longrightarrow> key_vector s' ! j = key_vector s ! j)"
proof -
  let ?kv = "key_vector s"
  let ?d = "diferencia cf espacio"
  obtain q where q: "buscarPosLibre cf s = Some q" "q \<noteq> -1" "nat q < cantRegistros cf" "data_size (?kv ! nat q) = 0"
    using buscarPosLibre_spec [OF assms(1)] assms(4) by blast
  define p where "p = nat q"
  have ne: "p \<noteq> i" using q(4) assms(3) by (auto simp: p_def)
  have len: "p < length ?kv" "i < length ?kv" using assms(1,2) q(3) by (auto simp: rc_ok_def p_def)
  have "data_size (?kv ! i) - espacio - ?d \<noteq> 0"
  proof
    assume "data_size (?kv ! i) - espacio - ?d = 0"
    then have "data_size (?kv ! i) = espacio + ?d" by (simp add: algebra_simps)
    then show False using assms(3) by simp
  qed
  then have t: "0 < data_size (?kv ! i) - espacio - ?d" by (simp add: word_gt_0)
  define ep where "ep = (?kv ! p)\<lparr>data := data (?kv ! i) + espacio + ?d, libre := True,
      data_size := data_size (?kv ! i) - espacio - ?d\<rparr>"
  define ei where "ei = (?kv ! i)\<lparr>data_unuse := ?d\<rparr>"
  have "partir cf espacio s (data_size (?kv ! i)) i = Some (Some i, s\<lparr>key_vector := ?kv[p := ep, i := ei]\<rparr>)"
    using t q(1,2) len ne by (simp add: partir_def cargarEnVector_def set_cell_Some p_def ep_def ei_def)
  moreover have "?kv[p := ep, i := ei] ! p = ep" "?kv[p := ep, i := ei] ! i = ei"
    "\<forall>j. j \<noteq> p \<and> j \<noteq> i \<longrightarrow> ?kv[p := ep, i := ei] ! j = ?kv ! j" using len ne by simp_all
  moreover have "data_size ep = data_size (?kv ! i) - (espacio + ?d)" "data ep = data (?kv ! i) + (espacio + ?d)" "libre ep"
    by (simp_all add: ep_def algebra_simps)
  moreover have "data_unuse ei = ?d" "data ei = data (?kv ! i)" by (simp_all add: ei_def)
  ultimately show ?thesis using q(3,4) ne
    by (intro exI [of _ "s\<lparr>key_vector := ?kv[p := ep, i := ei]\<rparr>"] exI [of _ p]) (simp add: p_def)
qed

theorem partir_splits_witness:
  "\<exists>s' p. partir (conf 2) 10 (table [part 0 64 True 0, part 0 0 True 0, part 0 0 True 0]) 64 0 = Some (Some 0, s') \<and>
     data_size (key_vector s' ! p) = 48 \<and> data (key_vector s' ! p) = 16"
proof -
  let ?s = "table [part 0 64 True 0, part 0 0 True 0, part 0 0 True 0]"
  have d: "diferencia (conf 2) 10 = 6" by code_simp
  have "10 + diferencia (conf 2) 10 < data_size (key_vector ?s ! 0)"
    unfolding d by (simp add: table_def part_def)
  moreover have "rc_ok (conf 2) ?s" "(0::nat) < cantRegistros (conf 2)"
    by (simp_all add: rc_ok_def conf_def table_def)
  moreover have "\<exists>p < cantRegistros (conf 2). data_size (key_vector ?s ! p) = 0"
    by (intro exI [of _ 1]) (simp add: conf_def table_def part_def)
  ultimately obtain s' p where "partir (conf 2) 10 ?s (data_size (key_vector ?s ! 0)) 0 = Some (Some 0, s')"
    "data_size (key_vector s' ! p) = data_size (key_vector ?s ! 0) - (10 + diferencia (conf 2) 10)"
    "data (key_vector s' ! p) = data (key_vector ?s ! 0) + (10 + diferencia (conf 2) 10)"
    using partir_splits by blast
  then show ?thesis unfolding d by (auto simp: table_def part_def)
qed

text \<open>
  The test of the split is unsigned: a free partition of 10 bytes satisfies a request of 9, whose
  rounding to 16 does not fit, and the split makes a free partition of \<open>2 ^ 32 - 6\<close> bytes.
\<close>

theorem partir_underflow:
  "map_option (\<lambda>(r, s). (r, map data_size (key_vector s)))
     (buscarLibreNext (conf 2) (table [part 0 10 True 0, part 0 0 True 0, part 0 0 True 0]) 9) =
   Some (Some 0, [10, 4294967290, 0])"
  by code_simp

section \<open>Lookup\<close>

text \<open>The slot of a key: occupied, with the length and the bytes of the key.\<close>

definition holds_key :: "rc \<Rightarrow> cstr \<Rightarrow> nat \<Rightarrow> bool" where
  "holds_key s k i \<longleftrightarrow> \<not> libre (key_vector s ! i) \<and> nkey (key_vector s ! i) = of_nat (length k) \<and> key_matches s k (key_vector s ! i)"

definition reachable_key :: "rc_config \<Rightarrow> rc \<Rightarrow> cstr \<Rightarrow> nat \<Rightarrow> bool" where
  "reachable_key cf s k j \<longleftrightarrow> j < cantRegistros cf \<and> holds_key s k j \<and> (\<forall>m \<le> j. data_size (key_vector s ! m) \<noteq> 0)"

lemma vector_get_loop_spec:
  assumes "rc_ok cf s"
  shows "i \<le> cantRegistros cf \<Longrightarrow> \<forall>m < i. data_size (key_vector s ! m) \<noteq> 0 \<and> \<not> holds_key s k m \<Longrightarrow>
    vector_get_loop cf s k i = Some (if \<exists>j. reachable_key cf s k j then int (LEAST j. reachable_key cf s k j) else -1)"
proof (induction "cantRegistros cf - i" arbitrary: i)
  case 0
  then have "\<not> reachable_key cf s k j" for j by (auto simp: reachable_key_def)
  then show ?case using 0 by (simp add: vector_get_loop.simps [of cf s k i])
next
  case (Suc n)
  then have i: "i < cantRegistros cf" "i < length (key_vector s)" using assms by (auto simp: rc_ok_def)
  let ?e = "key_vector s ! i"
  consider "data_size ?e = 0" | "data_size ?e \<noteq> 0" "holds_key s k i" | "data_size ?e \<noteq> 0" "\<not> holds_key s k i" by blast
  then show ?case
  proof cases
    case 1
    then have "\<not> reachable_key cf s k j" for j
      using Suc.prems(2) by (cases "j < i") (auto simp: reachable_key_def not_less)
    then show ?thesis using 1 i by (simp add: vector_get_loop.simps [of cf s k i])
  next
    case 2
    then have "reachable_key cf s k i"
      using Suc.prems(2) i by (auto simp: reachable_key_def le_less)
    moreover have "i \<le> j" if "reachable_key cf s k j" for j
      using that Suc.prems(2) by (auto simp: reachable_key_def not_less [symmetric])
    ultimately have "(LEAST j. reachable_key cf s k j) = i" "\<exists>j. reachable_key cf s k j" by (auto intro: Least_equality)
    moreover have "vector_get_loop cf s k i = Some (int i)"
      using 2 i by (auto simp: vector_get_loop.simps [of cf s k i] holds_key_def)
    ultimately show ?thesis by simp
  next
    case 3
    then have "vector_get_loop cf s k i = vector_get_loop cf s k (i + 1)"
      using i by (auto simp: vector_get_loop.simps [of cf s k i] holds_key_def)
    moreover have "\<forall>m < i + 1. data_size (key_vector s ! m) \<noteq> 0 \<and> \<not> holds_key s k m"
      using Suc.prems(2) 3 by (auto simp: less_Suc_eq)
    ultimately show ?thesis using Suc.hyps(1) [of "i + 1"] Suc.hyps(2) i by simp
  qed
qed

text \<open>
  \<open>vector_get\<close> returns the first occupied slot with the key among those before the first slot of size zero,
  and -1 when there is none: a key stored behind an unused slot is not found.
\<close>

theorem vector_get_first:
  assumes "rc_ok cf s"
  shows "vector_get cf s k =
    Some (if \<exists>j. reachable_key cf s k j then int (LEAST j. reachable_key cf s k j) else -1)"
  unfolding vector_get_def by (rule vector_get_loop_spec [OF assms]) simp_all

theorem vector_get_first_witness:
  "vector_get (conf 1) (table [part 0 8 True 0, part 0 0 True 0]) (str ''k'') = Some (-1)"
  using vector_get_first [of "conf 1" "table [part 0 8 True 0, part 0 0 True 0]" "str ''k''"]
  by (auto simp: rc_ok_def conf_def table_def part_def reachable_key_def holds_key_def)

end
