(* ===== verification/Engine.thy ===== *)
theory Engine
  imports Partitions
begin

text \<open>
  The memcached engine of \<open>rc/src/our_engine.c\<close> and \<open>manage.c\<close>: the callbacks memcached invokes, on the
  partition table of \<open>Vector\<close>. An item is the index of its slot. What memcached does between the
  callbacks, copying the value into the buffer of the item, is the step \<open>write_value\<close>. The current time,
  the addresses \<open>malloc\<close> returns and the floating-point test \<open>esPotenciaDe\<close> are arguments. The
  configuration file is read once into \<open>engine_conf\<close> (a null pointer is \<open>None\<close>).
\<close>

datatype engine_error = ENGINE_SUCCESS | ENGINE_KEY_ENOENT | ENGINE_ENOMEM | ENGINE_FAILED | ENGINE_ENOTSUP

record engine_conf =
  base :: rc_config
  ESQUEMA :: "cstr option"
  PARTICION :: "cstr option"

definition BUDDY :: cstr where "BUDDY = str ''BUDDY''"
definition NEXT :: cstr where "NEXT = str ''NEXT''"

text \<open>The local \<open>strkey\<close>: \<open>nkey\<close> bytes and a NUL.\<close>

definition strkey :: "buffer \<Rightarrow> cstr" where
  "strkey k = takeWhile (\<lambda>c. c \<noteq> 0) k"

section \<open>Start\<close>

definition zero_element :: key_element where
  "zero_element = \<lparr>key = 0, nkey = 0, stored = False, data_size = 0, data_unuse = 0, data = 0, actual = 0,
     padre = 0, libre = False, exptime = 0, tp = \<lparr>tv_sec = 0, tv_nsec = 0\<rparr>\<rparr>"

text \<open>The number of slots and the zeroed table, followed by the memory past the block.\<close>

definition cant_registros :: "u32 \<Rightarrow> u32 \<Rightarrow> nat" where
  "cant_registros csize minima = (if csize mod minima \<noteq> 0 then unat (csize div minima + 1) else unat (csize div minima))"

definition alocate_vector :: "u32 \<Rightarrow> u32 \<Rightarrow> key_element \<Rightarrow> nat \<times> key_element list" where
  "alocate_vector csize minima past =
     (let n = cant_registros csize minima in (n, replicate n zero_element @ [past]))"

record engine_args =
  cache_max_size :: u32
  chunk_size :: u32
  block_size_max :: u32

record rc_file =
  f_ESQUEMA :: "cstr option"
  f_PARTICION :: "cstr option"
  f_FREQ :: int
  f_MAX_KEY :: int
  f_VICTIM :: cstr

definition dummy_ng_initialize ::
    "(u32 \<Rightarrow> bool) \<Rightarrow> u32 \<Rightarrow> u32 \<Rightarrow> key_element \<Rightarrow> mem \<Rightarrow> mem \<Rightarrow> rc_file \<Rightarrow> engine_args
      \<Rightarrow> (engine_error \<times> (engine_conf \<times> rc) option) option" where
  "dummy_ng_initialize esPotenciaDe addr_keys addr_cache past kmem cmem f args = do {
     let bmax = (if block_size_max args > 0 then block_size_max args else cache_max_size args);
     let csize = (if block_size_max args > 0 then block_size_max args else cache_max_size args);
     let minima = chunk_size args;
     (case f_ESQUEMA f of
        None \<Rightarrow> Some (ENGINE_SUCCESS, None)
      | Some esquema \<Rightarrow>
          (if esquema = BUDDY \<and> (\<not> esPotenciaDe csize \<or> \<not> esPotenciaDe minima)
           then Some (ENGINE_FAILED, None)
           else do {
             ensure (minima \<noteq> 0);
             let (n, kv) = alocate_vector csize minima past;
             let cf = \<lparr>cache_size = csize, part_minima = minima, part_maxima = bmax, FREQ = f_FREQ f,
                   MAX_KEY = f_MAX_KEY f, VICTIM_LRU = (f_VICTIM f = str ''LRU''), cantRegistros = n,
                   keys_space = addr_keys, cache = addr_cache\<rparr>;
             s \<leftarrow> vector_inicializar cf \<lparr>key_vector = kv, keys_mem = kmem, cache_mem = cmem, ultima_posicion = 0\<rparr>;
             Some (ENGINE_SUCCESS, Some (\<lparr>base = cf, ESQUEMA = Some esquema, PARTICION = f_PARTICION f\<rparr>, s)) })) }"

definition create_instance :: "nat \<Rightarrow> bool \<Rightarrow> engine_error" where
  "create_instance interface calloc_ok =
     (if interface = 0 then ENGINE_ENOTSUP else if \<not> calloc_ok then ENGINE_ENOMEM else ENGINE_SUCCESS)"

section \<open>Callbacks\<close>

definition vector_search :: "engine_conf \<Rightarrow> (rc \<Rightarrow> u32 \<Rightarrow> (nat option \<times> rc) option) option" where
  "vector_search ec = do {
     string \<leftarrow> ESQUEMA ec;
     (if string = BUDDY then Some (buscarLibreBuddy (base ec))
      else do {
        string2 \<leftarrow> PARTICION ec;
        Some (if string2 = NEXT then buscarLibreNext (base ec) else buscarLibreWorst (base ec)) }) }"

text \<open>The slot for the item: the old slot of the key when its index is positive and it is large enough.\<close>

definition find_slot :: "engine_conf \<Rightarrow> rc \<Rightarrow> buffer \<Rightarrow> u32 \<Rightarrow> (nat option \<times> rc) option" where
  "find_slot ec s k nbytes = do {
     search \<leftarrow> vector_search ec;
     almacenada \<leftarrow> vector_get (base ec) s (strkey k);
     (if almacenada > 0
      then do {
        s1 \<leftarrow> set_cell s (nat almacenada) (\<lambda>e. e\<lparr>libre := True, stored := False\<rparr>);
        e \<leftarrow> cell s1 (nat almacenada);
        (if data_size e \<ge> nbytes then Some (Some (nat almacenada), s1) else search s1 nbytes) }
      else search s nbytes) }"

text \<open>The item in the slot: the key is copied into the slot's key space.\<close>

definition load_item :: "timespec \<Rightarrow> rc \<Rightarrow> nat \<Rightarrow> buffer \<Rightarrow> u32 \<Rightarrow> rc option" where
  "load_item now s it k nbytes = do {
     e \<leftarrow> cell s it;
     s1 \<leftarrow> set_cell s it (\<lambda>e. e\<lparr>exptime := 0, nkey := of_nat (length k), data_size := nbytes, stored := False,
             libre := False, tp := now\<rparr>);
     Some (s1\<lparr>keys_mem := mem_write (keys_mem s1) (unat (key e)) k\<rparr>) }"

definition dummy_ng_allocate ::
    "engine_conf \<Rightarrow> timespec \<Rightarrow> rc \<Rightarrow> buffer \<Rightarrow> u32 \<Rightarrow> (engine_error \<times> nat option \<times> rc) option" where
  "dummy_ng_allocate ec now s k nbytes =
     (if nbytes > part_maxima (base ec) then Some (ENGINE_SUCCESS, None, s)
      else do {
        (r, s1) \<leftarrow> find_slot ec s k nbytes;
        (case r of
           None \<Rightarrow> Some (ENGINE_ENOMEM, None, s1)
         | Some it \<Rightarrow> do {
             e \<leftarrow> cell s1 it;
             (if key e = 0 then Some (ENGINE_ENOMEM, None, s1)
              else do {
                s2 \<leftarrow> load_item now s1 it k nbytes;
                Some (ENGINE_SUCCESS, Some it, s2) }) }) })"

definition dummy_ng_item_release :: "rc \<Rightarrow> nat \<Rightarrow> rc option" where
  "dummy_ng_item_release s it = do {
     e \<leftarrow> cell s it;
     (if \<not> stored e then set_cell s it (\<lambda>e. e\<lparr>libre := True\<rparr>) else Some s) }"

record item_info =
  ii_nbytes :: u32
  ii_key :: u32
  ii_nkey :: u32
  ii_base :: u32
  ii_len :: u32

definition dummy_ng_get_item_info :: "rc \<Rightarrow> nat \<Rightarrow> nat \<Rightarrow> item_info option option" where
  "dummy_ng_get_item_info s it nvalue = do {
     e \<leftarrow> cell s it;
     Some (if nvalue < 1 then None
       else Some \<lparr>ii_nbytes = data_size e, ii_key = key e, ii_nkey = nkey e, ii_base = data e, ii_len = data_size e\<rparr>) }"

definition dummy_ng_get :: "engine_conf \<Rightarrow> timespec \<Rightarrow> rc \<Rightarrow> buffer \<Rightarrow> (engine_error \<times> nat option \<times> rc) option" where
  "dummy_ng_get ec now s k = do {
     res \<leftarrow> vector_get (base ec) s (strkey k);
     (if res < 0 then Some (ENGINE_KEY_ENOENT, None, s)
      else do {
        s1 \<leftarrow> actualizar_key (base ec) now s (nat res);
        Some (ENGINE_SUCCESS, Some (nat res), s1) }) }"

definition dummy_ng_store :: "rc \<Rightarrow> nat \<Rightarrow> (engine_error \<times> rc) option" where
  "dummy_ng_store s it = do {
     s1 \<leftarrow> set_cell s it (\<lambda>e. e\<lparr>stored := True\<rparr>);
     Some (ENGINE_SUCCESS, s1) }"

definition dummy_ng_flush :: "engine_conf \<Rightarrow> rc \<Rightarrow> (engine_error \<times> rc) option" where
  "dummy_ng_flush ec s = do { s1 \<leftarrow> vector_inicializar (base ec) s; Some (ENGINE_SUCCESS, s1) }"

definition dummy_ng_item_delete :: "engine_conf \<Rightarrow> rc \<Rightarrow> buffer \<Rightarrow> (engine_error \<times> rc) option" where
  "dummy_ng_item_delete ec s k = do {
     res \<leftarrow> vector_get (base ec) s (strkey k);
     (if res < 0 then Some (ENGINE_KEY_ENOENT, s)
      else do {
        (valor, s1) \<leftarrow> eliminar_particion (base ec) s res;
        string \<leftarrow> ESQUEMA ec;
        (it, s2) \<leftarrow> (if string = BUDDY then elimina_buddy (base ec) s1 valor else Some (valor, s1));
        s3 \<leftarrow> dummy_ng_item_release s2 it;
        Some (ENGINE_SUCCESS, s3) }) }"

text \<open>The dump of SIGUSR1 sorts the table and lists the partitions.\<close>

fun dump_lines :: "mem \<Rightarrow> nat \<Rightarrow> key_element list \<Rightarrow> (nat \<times> u32 \<times> u32 \<times> u32 \<times> (timespec \<times> buffer) option) list" where
  "dump_lines m particion [] = []"
| "dump_lines m particion (e # es) =
     (if data_size e > 0
      then (particion + 1, data e, data e + data_size e, data_size e,
             if libre e then None else Some (tp e, mem_read m (unat (key e)) (unat (nkey e))))
           # dump_lines m (particion + 1) es
      else dump_lines m particion es)"

definition dummy_ng_dummp ::
    "engine_conf \<Rightarrow> rc \<Rightarrow> ((nat \<times> u32 \<times> u32 \<times> u32 \<times> (timespec \<times> buffer) option) list \<times> rc) option" where
  "dummy_ng_dummp ec s = do {
     (_, s1) \<leftarrow> ordenar_vector (base ec) s (-1);
     Some (dump_lines (keys_mem s1) 0 (take (cantRegistros (base ec)) (key_vector s1)), s1) }"

definition dummy_ng_get_stats :: engine_error where "dummy_ng_get_stats = ENGINE_SUCCESS"
definition dummy_ng_unknown_command :: engine_error where "dummy_ng_unknown_command = ENGINE_ENOTSUP"

text \<open>Memcached copies the value into the buffer that \<open>get_item_info\<close> names, and reads it from there.\<close>

definition write_value :: "rc \<Rightarrow> nat \<Rightarrow> buffer \<Rightarrow> rc" where
  "write_value s it v = s\<lparr>cache_mem := mem_write (cache_mem s) (unat (data (key_vector s ! it))) v\<rparr>"

definition read_value :: "rc \<Rightarrow> nat \<Rightarrow> buffer" where
  "read_value s it = mem_read (cache_mem s) (unat (data (key_vector s ! it))) (unat (data_size (key_vector s ! it)))"

section \<open>Set and get\<close>

lemma load_item_spec:
  assumes "load_item now s it k n = Some s'"
  shows "it < length (key_vector s)" "length (key_vector s') = length (key_vector s)"
    "libre (key_vector s' ! it) = False" "nkey (key_vector s' ! it) = of_nat (length k)"
    "data_size (key_vector s' ! it) = n" "key_matches s' k (key_vector s' ! it)"
  using assms by (auto simp: load_item_def cell_eq_Some set_cell_eq_Some key_matches_def split: bind_splits)

lemma allocate_item:
  assumes "dummy_ng_allocate ec now s k n = Some (ENGINE_SUCCESS, Some it, s')"
  shows "it < length (key_vector s')" "holds_key s' k it" "data_size (key_vector s' ! it) = n"
proof -
  obtain s1 where l: "load_item now s1 it k n = Some s'"
    using assms by (auto simp: dummy_ng_allocate_def split: if_splits bind_splits option.splits)
  note L = load_item_spec [OF l]
  show "it < length (key_vector s')" "holds_key s' k it" "data_size (key_vector s' ! it) = n"
    using L by (simp_all add: holds_key_def)
qed

lemma strkey_cstr: "is_cstr k \<Longrightarrow> strkey k = k"
  by (auto simp: strkey_def is_cstr_def takeWhile_eq_all_conv)

lemma strkey_nul: "is_cstr k \<Longrightarrow> strkey (k @ [0]) = k"
  by (auto simp: strkey_def is_cstr_def takeWhile_append)

text \<open>The value written and the flag of a stored item do not matter for the lookup.\<close>

lemma store_value_holds:
  assumes "i < length (key_vector s)"
  shows "\<exists>s'. dummy_ng_store (write_value s i v) i = Some (ENGINE_SUCCESS, s') \<and>
    length (key_vector s') = length (key_vector s) \<and>
    (\<forall>m. data_size (key_vector s' ! m) = data_size (key_vector s ! m) \<and> data (key_vector s' ! m) = data (key_vector s ! m)) \<and>
    (\<forall>m k. holds_key s' k m = holds_key s k m) \<and>
    cache_mem s' = mem_write (cache_mem s) (unat (data (key_vector s ! i))) v"
proof -
  let ?kv = "(key_vector s)[i := (key_vector s ! i)\<lparr>stored := True\<rparr>]"
  have "data_size (?kv ! m) = data_size (key_vector s ! m)" "data (?kv ! m) = data (key_vector s ! m)"
    "key (?kv ! m) = key (key_vector s ! m)" "nkey (?kv ! m) = nkey (key_vector s ! m)" "libre (?kv ! m) = libre (key_vector s ! m)" for m
    using assms by (cases "m = i"; simp)+
  then show ?thesis using assms
    by (simp add: dummy_ng_store_def write_value_def set_cell_Some holds_key_def key_matches_def)
qed

lemma vector_get_unique:
  assumes "rc_ok cf s" and "i < cantRegistros cf" and "holds_key s k i" and "data_size (key_vector s ! i) \<noteq> 0"
    and "\<forall>m < i. data_size (key_vector s ! m) \<noteq> 0 \<and> \<not> holds_key s k m"
  shows "vector_get cf s k = Some (int i)"
proof -
  have r: "reachable_key cf s k i" using assms by (auto simp: reachable_key_def le_less)
  moreover have "i \<le> j" if "reachable_key cf s k j" for j
    using that assms(5) by (auto simp: reachable_key_def not_less [symmetric])
  ultimately have "(LEAST j. reachable_key cf s k j) = i" by (auto intro: Least_equality)
  then show ?thesis using vector_get_loop_spec [OF assms(1), of 0 k] r by (auto simp: vector_get_def)
qed

lemma get_result:
  assumes "vector_get (base ec) s (strkey k) = Some (int i)" and "i < length (key_vector s)"
  shows "\<exists>s'. dummy_ng_get ec now s k = Some (ENGINE_SUCCESS, Some i, s') \<and> read_value s' i = read_value s i"
  using assms
  by (cases "VICTIM_LRU (base ec)")
    (auto simp: dummy_ng_get_def actualizar_key_def set_cell_Some read_value_def)

text \<open>
  C33. A value that was set is found, in a table without gaps before its slot: when \<open>allocate\<close> gives an item for a key and every slot before it
  is in use and holds another key, memcached fills the item with a value of the requested size and stores it, then \<open>get\<close> succeeds with the
  same item and the value, also when the length of the key asked for counts its NUL, as the queries of the client do. (An unused
  slot ends the search of \<open>get\<close>, and an earlier slot with the key is found first, see \<open>overwrite_slot0_returns_old\<close>.)
\<close>

theorem cache_set_get:
  assumes "dummy_ng_allocate ec now s k n = Some (ENGINE_SUCCESS, Some it, s1)"
    and "rc_ok (base ec) s1" and "it < cantRegistros (base ec)" and "is_cstr k"
    and "n \<noteq> 0" and "length v = unat n"
    and "\<forall>m < it. data_size (key_vector s1 ! m) \<noteq> 0 \<and> \<not> holds_key s1 k m" and "k' = k \<or> k' = k @ [0]"
  shows "\<exists>s2 s3. dummy_ng_store (write_value s1 it v) it = Some (ENGINE_SUCCESS, s2) \<and>
    dummy_ng_get ec now' s2 k' = Some (ENGINE_SUCCESS, Some it, s3) \<and> read_value s3 it = v"
proof -
  note A = allocate_item [OF assms(1)]
  from store_value_holds [OF A(1), of v] obtain s2 where s2: "dummy_ng_store (write_value s1 it v) it = Some (ENGINE_SUCCESS, s2)"
    "length (key_vector s2) = length (key_vector s1)"
    "\<And>m. data_size (key_vector s2 ! m) = data_size (key_vector s1 ! m) \<and> data (key_vector s2 ! m) = data (key_vector s1 ! m)"
    "\<And>m k. holds_key s2 k m = holds_key s1 k m"
    "cache_mem s2 = mem_write (cache_mem s1) (unat (data (key_vector s1 ! it))) v" by blast
  have "vector_get (base ec) s2 k = Some (int it)"
    using assms A s2 by (intro vector_get_unique) (simp_all add: rc_ok_def)
  moreover have "strkey k' = k" using assms(4,8) strkey_cstr strkey_nul by auto
  ultimately have "\<exists>s3. dummy_ng_get ec now' s2 k' = Some (ENGINE_SUCCESS, Some it, s3) \<and> read_value s3 it = read_value s2 it"
    using get_result [of ec s2 k' it now'] A(1) s2(2) by simp
  moreover have "read_value s2 it = v" using s2(3,5) A(3) assms(6) by (simp add: read_value_def)
  ultimately show ?thesis using s2(1) by auto
qed

definition demo_conf :: engine_conf where
  "demo_conf = \<lparr>base = (conf 3)\<lparr>keys_space := 100, cache := 200\<rparr>, ESQUEMA = Some (str ''DINAMICA''), PARTICION = Some NEXT\<rparr>"

definition demo_start :: "rc option" where
  "demo_start = vector_inicializar (base demo_conf) (table (replicate 4 zero_element))"

definition demo_now :: timespec where
  "demo_now = \<lparr>tv_sec = 1, tv_nsec = 0\<rparr>"

theorem cache_set_get_witness:
  "\<exists>s s1 s2 s3. demo_start = Some s \<and>
     dummy_ng_allocate demo_conf demo_now s (str ''ab'') 3 = Some (ENGINE_SUCCESS, Some 0, s1) \<and>
     dummy_ng_store (write_value s1 0 [7, 8, 9]) 0 = Some (ENGINE_SUCCESS, s2) \<and>
     dummy_ng_get demo_conf demo_now s2 (str ''ab'' @ [0]) = Some (ENGINE_SUCCESS, Some 0, s3) \<and> read_value s3 0 = [7, 8, 9]"
proof -
  have "map_option (\<lambda>(e, i, s). (e, i, length (key_vector s)))
      (Option.bind demo_start (\<lambda>s. dummy_ng_allocate demo_conf demo_now s (str ''ab'') 3)) = Some (ENGINE_SUCCESS, Some 0, 4)"
    by code_simp
  then obtain s s1 where s: "demo_start = Some s"
    "dummy_ng_allocate demo_conf demo_now s (str ''ab'') 3 = Some (ENGINE_SUCCESS, Some 0, s1)" "length (key_vector s1) = 4"
    by (auto split: bind_splits)
  have "is_cstr (str ''ab'')" by code_simp
  moreover have "rc_ok (base demo_conf) s1" "0 < cantRegistros (base demo_conf)"
    using s(3) by (simp_all add: rc_ok_def demo_conf_def conf_def)
  ultimately show ?thesis using cache_set_get [OF s(2), of "[7, 8, 9]" "str ''ab'' @ [0]" demo_now] s(1,2) by auto
qed

text \<open>
  A key stored in slot 0 is never replaced: \<open>allocate\<close> tests \<open>almacenada > 0\<close>, so that a second set of the key takes a
  new slot and \<open>get\<close> still returns the old value.
\<close>

theorem overwrite_slot0_returns_old:
  "(do { s \<leftarrow> demo_start;
        (_, _, s1) \<leftarrow> dummy_ng_allocate demo_conf demo_now s (str ''ab'') 3;
        (_, s2) \<leftarrow> dummy_ng_store (write_value s1 0 [7, 8, 9]) 0;
        (_, it, s3) \<leftarrow> dummy_ng_allocate demo_conf demo_now s2 (str ''ab'') 3;
        i \<leftarrow> it;
        (_, s4) \<leftarrow> dummy_ng_store (write_value s3 i [1, 2, 3]) i;
        (_, got, s5) \<leftarrow> dummy_ng_get demo_conf demo_now s4 (str ''ab'');
        g \<leftarrow> got;
        Some (i, g, read_value s5 g) }) = Some (1, 0, [7, 8, 9])"
  by code_simp

section \<open>Delete\<close>

lemma eliminar_frees:
  assumes "rc_ok cf s" and "i < cantRegistros cf"
  shows "\<exists>s'. eliminar_particion cf s (int i) = Some (i, s') \<and> rc_ok cf s' \<and>
    (\<forall>m. m \<noteq> i \<longrightarrow> key_vector s' ! m = key_vector s ! m) \<and> libre (key_vector s' ! i) \<and> keys_mem s' = keys_mem s"
  using assms by (auto simp: eliminar_particion_def set_cell_Some rc_ok_def)

text \<open>
  After \<open>delete\<close> the key is gone: under the dynamic schemes, when only one slot holds the key,
  \<open>delete\<close> of a key that \<open>get\<close> finds succeeds and the next \<open>get\<close> answers \<open>ENGINE_KEY_ENOENT\<close>.
\<close>

theorem cache_delete_get:
  assumes "rc_ok (base ec) s" and "is_cstr k" and "ESQUEMA ec = Some e" and "e \<noteq> BUDDY"
    and "reachable_key (base ec) s k i" and "\<forall>m < cantRegistros (base ec). holds_key s k m \<longrightarrow> m = i"
  shows "\<exists>s1. dummy_ng_item_delete ec s k = Some (ENGINE_SUCCESS, s1) \<and>
    dummy_ng_get ec now s1 k = Some (ENGINE_KEY_ENOENT, None, s1)"
proof -
  let ?cf = "base ec"
  have i: "i < cantRegistros ?cf" "holds_key s k i" "\<forall>m \<le> i. data_size (key_vector s ! m) \<noteq> 0"
    using assms(5) by (auto simp: reachable_key_def)
  have "\<forall>m < i. data_size (key_vector s ! m) \<noteq> 0 \<and> \<not> holds_key s k m"
    using i(1,3) assms(6) by (metis less_imp_le less_irrefl less_trans)
  then have g: "vector_get ?cf s k = Some (int i)"
    using vector_get_unique [OF assms(1) i(1,2)] i(3) by simp
  obtain s1 where s1: "eliminar_particion ?cf s (int i) = Some (i, s1)" "rc_ok ?cf s1"
    "\<And>m. m \<noteq> i \<Longrightarrow> key_vector s1 ! m = key_vector s ! m" "libre (key_vector s1 ! i)" "keys_mem s1 = keys_mem s"
    using eliminar_frees [OF assms(1) i(1)] by auto
  have len: "i < length (key_vector s1)" using s1(2) i(1) by (simp add: rc_ok_def)
  define s2 where "s2 = (if stored (key_vector s1 ! i) then s1
      else s1\<lparr>key_vector := (key_vector s1)[i := (key_vector s1 ! i)\<lparr>libre := True\<rparr>]\<rparr>)"
  have d: "dummy_ng_item_delete ec s k = Some (ENGINE_SUCCESS, s2)"
    using g s1(1) len assms(3,4) strkey_cstr [OF assms(2)]
    by (simp add: dummy_ng_item_delete_def dummy_ng_item_release_def set_cell_Some s2_def)
  have "libre (key_vector s2 ! i)" using s1(4) len by (simp add: s2_def)
  moreover have "holds_key s2 k m = holds_key s k m" if "m \<noteq> i" for m
    using that s1(3,5) by (simp add: holds_key_def key_matches_def s2_def)
  ultimately have "\<not> holds_key s2 k m" if "m < cantRegistros ?cf" for m
    using that assms(6) by (cases "m = i") (auto simp: holds_key_def [of s2 k i])
  then have "\<not> reachable_key ?cf s2 k m" for m by (auto simp: reachable_key_def)
  moreover have "rc_ok ?cf s2" using s1(2) by (simp add: rc_ok_def s2_def)
  ultimately have "vector_get ?cf s2 k = Some (-1)"
    using vector_get_loop_spec [of ?cf s2 0 k] by (simp add: vector_get_def)
  then show ?thesis using d strkey_cstr [OF assms(2)] by (simp add: dummy_ng_get_def)
qed

definition demo_full :: rc where
  "demo_full = table [(part 200 3 False 1)\<lparr>key := 100, nkey := 0\<rparr>, part 208 56 True 0, part 0 0 True 0, part 0 0 True 0]"

theorem cache_delete_get_witness:
  "\<exists>s1. dummy_ng_item_delete demo_conf demo_full [] = Some (ENGINE_SUCCESS, s1) \<and>
     dummy_ng_get demo_conf demo_now s1 [] = Some (ENGINE_KEY_ENOENT, None, s1)"
proof (rule cache_delete_get [where i = 0 and e = "str ''DINAMICA''"])
  show "\<forall>m<cantRegistros (base demo_conf). holds_key demo_full [] m \<longrightarrow> m = 0"
    by (auto simp: demo_conf_def conf_def demo_full_def table_def part_def holds_key_def numeral_3_eq_3 less_Suc_eq)
  show "str ''DINAMICA'' \<noteq> BUDDY" by code_simp
qed (simp_all add: rc_ok_def demo_conf_def conf_def demo_full_def table_def part_def reachable_key_def holds_key_def
    key_matches_def mem_read_def)

section \<open>Start\<close>

lemma inicializar_loop_spec:
  "inicializar_loop cf k i s = Some s' \<Longrightarrow> 0 < i \<Longrightarrow> length (key_vector s') = length (key_vector s) \<and>
     (\<forall>m. (i \<le> m \<and> m < i + k \<longrightarrow> data_size (key_vector s' ! m) = 0 \<and> data_unuse (key_vector s' ! m) = 0 \<and> libre (key_vector s' ! m)) \<and>
       (m < i \<or> i + k \<le> m \<longrightarrow> key_vector s' ! m = key_vector s ! m))"
proof (induction k arbitrary: i s)
  case (Suc k)
  then obtain e where s1: "inicializar_loop cf k (i + 1) (s\<lparr>key_vector := (key_vector s)[i := e]\<rparr>) = Some s'"
    "i < length (key_vector s)" "data_size e = 0" "data_unuse e = 0" "libre e"
    by (auto simp: cell_eq_Some set_cell_eq_Some split: bind_splits)
  from Suc.IH [OF s1(1)] have IH: "length (key_vector s') = length (key_vector s)"
    "\<And>m. i + 1 \<le> m \<and> m < i + 1 + k \<Longrightarrow> data_size (key_vector s' ! m) = 0 \<and> data_unuse (key_vector s' ! m) = 0 \<and> libre (key_vector s' ! m)"
    "\<And>m. m < i + 1 \<or> i + 1 + k \<le> m \<Longrightarrow> key_vector s' ! m = (key_vector s)[i := e] ! m"
    by auto
  show ?case
  proof (intro conjI allI impI)
    show "length (key_vector s') = length (key_vector s)" by (rule IH(1))
    fix m
    assume m: "i \<le> m \<and> m < i + Suc k"
    then show "data_size (key_vector s' ! m) = 0" "data_unuse (key_vector s' ! m) = 0" "libre (key_vector s' ! m)"
      using IH(2) [of m] IH(3) [of m] s1 by (cases "m = i"; simp)+
  next
    fix m
    assume "m < i \<or> i + Suc k \<le> m"
    then show "key_vector s' ! m = key_vector s ! m" using IH(3) [of m] by (cases "m = i") auto
  qed
qed auto

lemma inicializar_loop_total:
  "i + k \<le> length (key_vector s) \<Longrightarrow> \<exists>s'. inicializar_loop cf k i s = Some s'"
  by (induction k arbitrary: i s) (auto simp: set_cell_Some)

text \<open>
  C34. \<open>flush\<close> (and the start of the engine) makes the whole cache one free partition in slot 0 and every other slot of the
  vector unused; nothing is left to be found.
\<close>

theorem flush_empties:
  assumes "rc_ok (base ec) s" and "0 < cantRegistros (base ec)"
  shows "\<exists>s'. dummy_ng_flush ec s = Some (ENGINE_SUCCESS, s') \<and> rc_ok (base ec) s' \<and>
    libre (key_vector s' ! 0) \<and> data_size (key_vector s' ! 0) = cache_size (base ec) \<and> data (key_vector s' ! 0) = cache (base ec) \<and>
    (\<forall>m. 0 < m \<and> m < cantRegistros (base ec) \<longrightarrow> libre (key_vector s' ! m) \<and> data_size (key_vector s' ! m) = 0) \<and>
    dummy_ng_get ec now s' k = Some (ENGINE_KEY_ENOENT, None, s')"
proof -
  let ?cf = "base ec"
  let ?n = "cantRegistros ?cf"
  let ?e = "(key_vector s ! 0)\<lparr>key := keys_space ?cf, data := cache ?cf, libre := True, data_size := cache_size ?cf, actual := 0, padre := 0\<rparr>"
  let ?s = "s\<lparr>ultima_posicion := 0, key_vector := (key_vector s)[0 := ?e]\<rparr>"
  have len: "0 < length (key_vector s)" "length (key_vector s) = ?n + 1" using assms by (auto simp: rc_ok_def)
  obtain s' where l: "inicializar_loop ?cf (?n - 1) 1 ?s = Some s'"
    using inicializar_loop_total [of 1 "?n - 1" ?s ?cf] len assms(2) by auto
  have f: "dummy_ng_flush ec s = Some (ENGINE_SUCCESS, s')"
    using len l by (simp add: dummy_ng_flush_def vector_inicializar_def cargarEnVector_def set_cell_Some)
  from inicializar_loop_spec [OF l] have I: "length (key_vector s') = ?n + 1" "key_vector s' ! 0 = ?e"
    "\<And>m. 1 \<le> m \<and> m < ?n \<Longrightarrow> data_size (key_vector s' ! m) = 0 \<and> libre (key_vector s' ! m)"
    using len assms(2) by auto
  have "libre (key_vector s' ! m)" if "m < ?n" for m using I that by (cases m) auto
  then have "\<not> reachable_key ?cf s' (strkey k) m" for m by (auto simp: reachable_key_def holds_key_def)
  then have "vector_get ?cf s' (strkey k) = Some (-1)"
    using vector_get_loop_spec [of ?cf s' 0 "strkey k"] I(1) by (simp add: vector_get_def rc_ok_def)
  then show ?thesis using f I by (auto simp: rc_ok_def dummy_ng_get_def)
qed

theorem flush_empties_witness:
  "\<exists>s'. dummy_ng_flush demo_conf demo_full = Some (ENGINE_SUCCESS, s') \<and> data_size (key_vector s' ! 0) = 64"
  using flush_empties [of demo_conf demo_full demo_now "[]"]
  by (auto simp: rc_ok_def demo_conf_def conf_def demo_full_def table_def)

end
