(* ===== verification/Nipc.thy ===== *)
theory Nipc
  imports Base
begin

unbundle bit_operations_syntax

text \<open>
  The wire protocol between the FUSE client and the remote file system
  (\<open>commons/src/nipc/nipc.c\<close>, \<open>nipc.h\<close>): the packet, one record per message struct, its
  \<open>new_nipc_*\<close> constructor, its \<open>serialize_*\<close> and its \<open>deserialize_*\<close> function, and the
  framing of a packet (\<open>nipc_serialize\<close>, \<open>nipc_deserialize\<close>).
  A heap block is its contents; a C string is its bytes without the NUL. The function pointer
  \<open>serialize\<close> of each struct is always the one function of that struct and is left out.
  A field that an \<open>empty_nipc_*\<close> function leaves uninitialised is 0 (or empty) where every
  caller assigns it at once, and a parameter of the definition where it stays so.
\<close>

section \<open>Packets\<close>

datatype tipo_nipc =
    nipc_create | nipc_open | nipc_read | nipc_write | nipc_unlink | nipc_release
  | nipc_mkdir | nipc_rmdir | nipc_readdir | nipc_getattr | nipc_truncate | nipc_error
  | nipc_ok | nipc_read_response | nipc_readdir_response | nipc_getattr_response
  | nipc_handshake

primrec tipo_code :: "tipo_nipc \<Rightarrow> u32" where
  "tipo_code nipc_create = 0"
| "tipo_code nipc_open = 1"
| "tipo_code nipc_read = 2"
| "tipo_code nipc_write = 3"
| "tipo_code nipc_unlink = 4"
| "tipo_code nipc_release = 5"
| "tipo_code nipc_mkdir = 6"
| "tipo_code nipc_rmdir = 7"
| "tipo_code nipc_readdir = 8"
| "tipo_code nipc_getattr = 9"
| "tipo_code nipc_truncate = 10"
| "tipo_code nipc_error = 11"
| "tipo_code nipc_ok = 12"
| "tipo_code nipc_read_response = 13"
| "tipo_code nipc_readdir_response = 14"
| "tipo_code nipc_getattr_response = 15"
| "tipo_code nipc_handshake = 16"

text \<open>
  The names table has 19 slots, of which 17 are initialised (the rest are null); the guard
  \<open>tipo > 19\<close> lets the value 19 index one slot past its end.
\<close>

definition enum_nipc_names :: "string option list" where
  "enum_nipc_names =
     map Some [''CREATE'', ''OPEN'', ''READ'', ''WRITE'', ''UNLINK'', ''RELEASE'', ''MKDIR'',
       ''RMDIR'', ''READDIR'', ''GETATTR'', ''TRUNCATE'', ''ERROR'', ''OK'', ''READ_RESPONSE'',
       ''READDIR_RESPONSE'', ''GETATTR_RESPONSE'', ''HANDSHAKE''] @ [None, None]"

definition nombre_del_enum_nipc :: "u32 \<Rightarrow> string option option" where
  "nombre_del_enum_nipc tipo =
     (if tipo > 19 then Some (Some ''TIPO_INVALIDO'')
      else if unat tipo < length enum_nipc_names then Some (enum_nipc_names ! unat tipo)
      else None)"

record nipc_packet =
  pkt_type :: u32
  pkt_data_length :: u32
  pkt_client_id :: u32
  pkt_data :: "buffer option"

text \<open>
  A block of \<open>data_length\<close> bytes that the following \<open>memcpy\<close>s fill from its start to its
  end with \<open>bs\<close>; undefined when \<open>bs\<close> does not fit, which happens when the 32-bit
  computation of the length wraps around.
\<close>

definition fill_packet :: "u32 \<Rightarrow> u32 \<Rightarrow> u32 \<Rightarrow> buffer \<Rightarrow> nipc_packet option" where
  "fill_packet t c n bs = do {
     ensure (length bs = unat n);
     Some \<lparr>pkt_type = t, pkt_data_length = n, pkt_client_id = c, pkt_data = Some bs\<rparr> }"

section \<open>Requests\<close>

subsection \<open>create\<close>

record nipc_create_t =
  cr_nipcType :: u32
  cr_client_id :: u32
  cr_path :: cstr
  cr_fileMode :: u32

definition serialize_create :: "nipc_create_t \<Rightarrow> nipc_packet option" where
  "serialize_create payload = (let path_lenght = length (cr_path payload) + 1 in
     fill_packet (cr_nipcType payload) (cr_client_id payload) (of_nat path_lenght + 4)
       (cr_path payload @ [0] @ le32 (cr_fileMode payload)))"

definition empty_nipc_create :: nipc_create_t where
  "empty_nipc_create =
     \<lparr>cr_nipcType = tipo_code nipc_create, cr_client_id = 0, cr_path = [], cr_fileMode = 0\<rparr>"

definition deserialize_create :: "nipc_packet \<Rightarrow> nipc_create_t option" where
  "deserialize_create packet = do {
     d \<leftarrow> pkt_data packet;
     n \<leftarrow> c_strlen d;
     path \<leftarrow> c_str d;
     mode \<leftarrow> read_u32 d (n + 1);
     Some (empty_nipc_create\<lparr>cr_client_id := pkt_client_id packet, cr_path := path,
       cr_fileMode := mode\<rparr>) }"

definition new_nipc_create :: "u32 \<Rightarrow> cstr \<Rightarrow> u32 \<Rightarrow> nipc_create_t" where
  "new_nipc_create client_id path mode =
     empty_nipc_create\<lparr>cr_client_id := client_id, cr_path := path, cr_fileMode := mode\<rparr>"

subsection \<open>open\<close>

record nipc_open_t =
  op_nipcType :: u32
  op_client_id :: u32
  op_path :: cstr
  op_flags :: u32

definition serialize_open :: "nipc_open_t \<Rightarrow> nipc_packet option" where
  "serialize_open payload = (let path_lenght = length (op_path payload) + 1 in
     fill_packet (op_nipcType payload) (op_client_id payload) (of_nat path_lenght + 4)
       (op_path payload @ [0] @ le32 (op_flags payload)))"

definition empty_nipc_open :: nipc_open_t where
  "empty_nipc_open =
     \<lparr>op_nipcType = tipo_code nipc_open, op_client_id = 0, op_path = [], op_flags = 0\<rparr>"

definition deserialize_open :: "nipc_packet \<Rightarrow> nipc_open_t option" where
  "deserialize_open packet = do {
     d \<leftarrow> pkt_data packet;
     n \<leftarrow> c_strlen d;
     path \<leftarrow> c_str d;
     flags \<leftarrow> read_u32 d (n + 1);
     Some (empty_nipc_open\<lparr>op_client_id := pkt_client_id packet, op_path := path,
       op_flags := flags\<rparr>) }"

definition new_nipc_open :: "u32 \<Rightarrow> cstr \<Rightarrow> u32 \<Rightarrow> nipc_open_t" where
  "new_nipc_open client_id path flags =
     empty_nipc_open\<lparr>op_client_id := client_id, op_path := path, op_flags := flags\<rparr>"

subsection \<open>read\<close>

record nipc_read_t =
  rd_nipcType :: u32
  rd_client_id :: u32
  rd_path :: cstr
  rd_size :: u32
  rd_offset :: u32

definition serialize_read :: "nipc_read_t \<Rightarrow> nipc_packet option" where
  "serialize_read payload = (let path_lenght = length (rd_path payload) + 1 in
     fill_packet (rd_nipcType payload) (rd_client_id payload) (of_nat path_lenght + 4 + 4)
       (rd_path payload @ [0] @ le32 (rd_size payload) @ le32 (rd_offset payload)))"

definition empty_nipc_read :: nipc_read_t where
  "empty_nipc_read = \<lparr>rd_nipcType = tipo_code nipc_read, rd_client_id = 0, rd_path = [],
     rd_size = 0, rd_offset = 0\<rparr>"

definition deserialize_read :: "nipc_packet \<Rightarrow> nipc_read_t option" where
  "deserialize_read packet = do {
     d \<leftarrow> pkt_data packet;
     n \<leftarrow> c_strlen d;
     path \<leftarrow> c_str d;
     size \<leftarrow> read_u32 d (n + 1);
     offset \<leftarrow> read_u32 d (n + 1 + 4);
     Some (empty_nipc_read\<lparr>rd_client_id := pkt_client_id packet, rd_path := path,
       rd_size := size, rd_offset := offset\<rparr>) }"

definition new_nipc_read :: "u32 \<Rightarrow> cstr \<Rightarrow> u32 \<Rightarrow> u32 \<Rightarrow> nipc_read_t" where
  "new_nipc_read client_id path sz offset =
     empty_nipc_read\<lparr>rd_client_id := client_id, rd_path := path, rd_size := sz,
       rd_offset := offset\<rparr>"

subsection \<open>write\<close>

record nipc_write_t =
  wt_nipcType :: u32
  wt_client_id :: u32
  wt_path :: cstr
  wt_data :: buffer
  wt_size :: u32
  wt_offset :: u32

definition serialize_write :: "nipc_write_t \<Rightarrow> nipc_packet option" where
  "serialize_write payload = (let path_lenght = length (wt_path payload) + 1 in do {
     dat \<leftarrow> read_buf (wt_data payload) 0 (unat (wt_size payload));
     fill_packet (wt_nipcType payload) (wt_client_id payload)
       (of_nat path_lenght + wt_size payload + 4 + 4)
       (wt_path payload @ [0] @ le32 (wt_size payload) @ dat @ le32 (wt_offset payload)) })"

definition empty_nipc_write :: nipc_write_t where
  "empty_nipc_write = \<lparr>wt_nipcType = tipo_code nipc_write, wt_client_id = 0, wt_path = [],
     wt_data = [], wt_size = 0, wt_offset = 0\<rparr>"

definition deserialize_write :: "nipc_packet \<Rightarrow> nipc_write_t option" where
  "deserialize_write packet = do {
     d \<leftarrow> pkt_data packet;
     n \<leftarrow> c_strlen d;
     path \<leftarrow> c_str d;
     size \<leftarrow> read_u32 d (n + 1);
     dat \<leftarrow> read_buf d (n + 1 + 4) (unat size);
     offset \<leftarrow> read_u32 d (n + 1 + 4 + unat size);
     Some (empty_nipc_write\<lparr>wt_client_id := pkt_client_id packet, wt_path := path,
       wt_data := dat, wt_size := size, wt_offset := offset\<rparr>) }"

definition new_nipc_write :: "u32 \<Rightarrow> cstr \<Rightarrow> buffer \<Rightarrow> u32 \<Rightarrow> u32 \<Rightarrow> nipc_write_t option" where
  "new_nipc_write client_id path dat sz offset = do {
     copy \<leftarrow> read_buf dat 0 (unat sz);
     Some (empty_nipc_write\<lparr>wt_client_id := client_id, wt_path := path, wt_data := copy,
       wt_size := sz, wt_offset := offset\<rparr>) }"

subsection \<open>unlink\<close>

record nipc_unlink_t =
  ul_nipcType :: u32
  ul_client_id :: u32
  ul_path :: cstr

definition serialize_unlink :: "nipc_unlink_t \<Rightarrow> nipc_packet option" where
  "serialize_unlink payload =
     fill_packet (ul_nipcType payload) (ul_client_id payload)
       (of_nat (length (ul_path payload) + 1)) (ul_path payload @ [0])"

definition empty_nipc_unlink :: nipc_unlink_t where
  "empty_nipc_unlink = \<lparr>ul_nipcType = tipo_code nipc_unlink, ul_client_id = 0, ul_path = []\<rparr>"

text \<open>
  \<open>unlink\<close>, \<open>rmdir\<close> and \<open>getattr\<close> copy the path with \<open>strcpy\<close> into a block of
  \<open>data_length\<close> bytes, which must hold it and its NUL.
\<close>

definition strcpy_data :: "nipc_packet \<Rightarrow> cstr option" where
  "strcpy_data packet = do {
     d \<leftarrow> pkt_data packet;
     path \<leftarrow> c_str d;
     ensure (length path + 1 \<le> unat (pkt_data_length packet));
     Some path }"

definition deserialize_unlink :: "nipc_packet \<Rightarrow> nipc_unlink_t option" where
  "deserialize_unlink packet = do {
     path \<leftarrow> strcpy_data packet;
     Some (empty_nipc_unlink\<lparr>ul_client_id := pkt_client_id packet, ul_path := path\<rparr>) }"

definition new_nipc_unlink :: "u32 \<Rightarrow> cstr \<Rightarrow> nipc_unlink_t" where
  "new_nipc_unlink client_id path =
     empty_nipc_unlink\<lparr>ul_client_id := client_id, ul_path := path\<rparr>"

subsection \<open>release\<close>

record nipc_release_t =
  rl_nipcType :: u32
  rl_client_id :: u32
  rl_path :: cstr
  rl_flags :: u32

definition serialize_release :: "nipc_release_t \<Rightarrow> nipc_packet option" where
  "serialize_release payload = (let path_lenght = length (rl_path payload) + 1 in
     fill_packet (rl_nipcType payload) (rl_client_id payload) (of_nat path_lenght + 4)
       (rl_path payload @ [0] @ le32 (rl_flags payload)))"

definition empty_nipc_release :: nipc_release_t where
  "empty_nipc_release =
     \<lparr>rl_nipcType = tipo_code nipc_release, rl_client_id = 0, rl_path = [], rl_flags = 0\<rparr>"

definition deserialize_release :: "nipc_packet \<Rightarrow> nipc_release_t option" where
  "deserialize_release packet = do {
     d \<leftarrow> pkt_data packet;
     n \<leftarrow> c_strlen d;
     path \<leftarrow> c_str d;
     flags \<leftarrow> read_u32 d (n + 1);
     Some (empty_nipc_release\<lparr>rl_client_id := pkt_client_id packet, rl_path := path,
       rl_flags := flags\<rparr>) }"

definition new_nipc_release :: "u32 \<Rightarrow> cstr \<Rightarrow> u32 \<Rightarrow> nipc_release_t" where
  "new_nipc_release client_id path flags =
     empty_nipc_release\<lparr>rl_client_id := client_id, rl_path := path, rl_flags := flags\<rparr>"

subsection \<open>mkdir\<close>

record nipc_mkdir_t =
  mk_nipcType :: u32
  mk_client_id :: u32
  mk_path :: cstr
  mk_fileMode :: u32

definition serialize_mkdir :: "nipc_mkdir_t \<Rightarrow> nipc_packet option" where
  "serialize_mkdir payload = (let path_lenght = length (mk_path payload) + 1 in
     fill_packet (mk_nipcType payload) (mk_client_id payload) (of_nat path_lenght + 4)
       (mk_path payload @ [0] @ le32 (mk_fileMode payload)))"

definition empty_nipc_mkdir :: nipc_mkdir_t where
  "empty_nipc_mkdir =
     \<lparr>mk_nipcType = tipo_code nipc_mkdir, mk_client_id = 0, mk_path = [], mk_fileMode = 0\<rparr>"

definition deserialize_mkdir :: "nipc_packet \<Rightarrow> nipc_mkdir_t option" where
  "deserialize_mkdir packet = do {
     d \<leftarrow> pkt_data packet;
     n \<leftarrow> c_strlen d;
     path \<leftarrow> c_str d;
     mode \<leftarrow> read_u32 d (n + 1);
     Some (empty_nipc_mkdir\<lparr>mk_client_id := pkt_client_id packet, mk_path := path,
       mk_fileMode := mode\<rparr>) }"

definition new_nipc_mkdir :: "u32 \<Rightarrow> cstr \<Rightarrow> u32 \<Rightarrow> nipc_mkdir_t" where
  "new_nipc_mkdir client_id path mode =
     empty_nipc_mkdir\<lparr>mk_client_id := client_id, mk_path := path, mk_fileMode := mode\<rparr>"

subsection \<open>rmdir\<close>

record nipc_rmdir_t =
  rm_nipcType :: u32
  rm_client_id :: u32
  rm_path :: cstr

definition serialize_rmdir :: "nipc_rmdir_t \<Rightarrow> nipc_packet option" where
  "serialize_rmdir payload =
     fill_packet (rm_nipcType payload) (rm_client_id payload)
       (of_nat (length (rm_path payload) + 1)) (rm_path payload @ [0])"

definition empty_nipc_rmdir :: nipc_rmdir_t where
  "empty_nipc_rmdir = \<lparr>rm_nipcType = tipo_code nipc_rmdir, rm_client_id = 0, rm_path = []\<rparr>"

definition deserialize_rmdir :: "nipc_packet \<Rightarrow> nipc_rmdir_t option" where
  "deserialize_rmdir packet = do {
     path \<leftarrow> strcpy_data packet;
     Some (empty_nipc_rmdir\<lparr>rm_client_id := pkt_client_id packet, rm_path := path\<rparr>) }"

definition new_nipc_rmdir :: "u32 \<Rightarrow> cstr \<Rightarrow> nipc_rmdir_t" where
  "new_nipc_rmdir client_id path = empty_nipc_rmdir\<lparr>rm_client_id := client_id, rm_path := path\<rparr>"

subsection \<open>readdir\<close>

record nipc_readdir_t =
  dr_nipcType :: u32
  dr_client_id :: u32
  dr_path :: cstr
  dr_offset :: u32

definition serialize_readdir :: "nipc_readdir_t \<Rightarrow> nipc_packet option" where
  "serialize_readdir payload = (let path_lenght = length (dr_path payload) + 1 in
     fill_packet (dr_nipcType payload) (dr_client_id payload) (of_nat path_lenght + 4)
       (dr_path payload @ [0] @ le32 (dr_offset payload)))"

definition empty_nipc_readdir :: nipc_readdir_t where
  "empty_nipc_readdir =
     \<lparr>dr_nipcType = tipo_code nipc_readdir, dr_client_id = 0, dr_path = [], dr_offset = 0\<rparr>"

definition deserialize_readdir :: "nipc_packet \<Rightarrow> nipc_readdir_t option" where
  "deserialize_readdir packet = do {
     d \<leftarrow> pkt_data packet;
     n \<leftarrow> c_strlen d;
     path \<leftarrow> c_str d;
     offset \<leftarrow> read_u32 d (n + 1);
     Some (empty_nipc_readdir\<lparr>dr_client_id := pkt_client_id packet, dr_path := path,
       dr_offset := offset\<rparr>) }"

definition new_nipc_readdir :: "u32 \<Rightarrow> cstr \<Rightarrow> u32 \<Rightarrow> nipc_readdir_t" where
  "new_nipc_readdir client_id path offset =
     empty_nipc_readdir\<lparr>dr_client_id := client_id, dr_path := path, dr_offset := offset\<rparr>"

subsection \<open>getattr\<close>

record nipc_getattr_t =
  ga_nipcType :: u32
  ga_client_id :: u32
  ga_path :: cstr

definition serialize_getattr :: "nipc_getattr_t \<Rightarrow> nipc_packet option" where
  "serialize_getattr payload =
     fill_packet (ga_nipcType payload) (ga_client_id payload)
       (of_nat (length (ga_path payload) + 1)) (ga_path payload @ [0])"

definition empty_nipc_getattr :: nipc_getattr_t where
  "empty_nipc_getattr = \<lparr>ga_nipcType = tipo_code nipc_getattr, ga_client_id = 0, ga_path = []\<rparr>"

definition deserialize_getattr :: "nipc_packet \<Rightarrow> nipc_getattr_t option" where
  "deserialize_getattr packet = do {
     path \<leftarrow> strcpy_data packet;
     Some (empty_nipc_getattr\<lparr>ga_client_id := pkt_client_id packet, ga_path := path\<rparr>) }"

definition new_nipc_getattr :: "u32 \<Rightarrow> cstr \<Rightarrow> nipc_getattr_t" where
  "new_nipc_getattr client_id path =
     empty_nipc_getattr\<lparr>ga_client_id := client_id, ga_path := path\<rparr>"

subsection \<open>truncate\<close>

record nipc_truncate_t =
  tr_nipcType :: u32
  tr_client_id :: u32
  tr_path :: cstr
  tr_offset :: u32

definition serialize_truncate :: "nipc_truncate_t \<Rightarrow> nipc_packet option" where
  "serialize_truncate payload = (let path_lenght = length (tr_path payload) + 1 in
     fill_packet (tr_nipcType payload) (tr_client_id payload) (of_nat path_lenght + 4)
       (tr_path payload @ [0] @ le32 (tr_offset payload)))"

definition empty_nipc_truncate :: nipc_truncate_t where
  "empty_nipc_truncate =
     \<lparr>tr_nipcType = tipo_code nipc_truncate, tr_client_id = 0, tr_path = [], tr_offset = 0\<rparr>"

definition deserialize_truncate :: "nipc_packet \<Rightarrow> nipc_truncate_t option" where
  "deserialize_truncate packet = do {
     d \<leftarrow> pkt_data packet;
     n \<leftarrow> c_strlen d;
     path \<leftarrow> c_str d;
     offset \<leftarrow> read_u32 d (n + 1);
     Some (empty_nipc_truncate\<lparr>tr_client_id := pkt_client_id packet, tr_path := path,
       tr_offset := offset\<rparr>) }"

definition new_nipc_truncate :: "u32 \<Rightarrow> cstr \<Rightarrow> u32 \<Rightarrow> nipc_truncate_t" where
  "new_nipc_truncate client_id path offset =
     empty_nipc_truncate\<lparr>tr_client_id := client_id, tr_path := path, tr_offset := offset\<rparr>"

section \<open>Framing\<close>

text \<open>
  \<open>packetSize\<close> is a 32-bit sum: for a \<open>data_length\<close> within 12 of \<open>2 ^ 32\<close> the block is
  too small for what is copied into it.
\<close>

definition nipc_serialize :: "nipc_packet \<Rightarrow> buffer option" where
  "nipc_serialize packet = (let packetSize = 4 + 4 + 4 + pkt_data_length packet in do {
     body \<leftarrow> (if pkt_data_length packet \<noteq> 0
              then do { d \<leftarrow> pkt_data packet; read_buf d 0 (unat (pkt_data_length packet)) }
              else Some []);
     ensure (unat packetSize = 12 + length body);
     Some (le32 (pkt_type packet) @ le32 (pkt_client_id packet)
       @ le32 (pkt_data_length packet) @ body) })"

definition nipc_deserialize :: "buffer \<Rightarrow> nipc_packet option" where
  "nipc_deserialize rawPacket = do {
     t \<leftarrow> read_u32 rawPacket 0;
     c \<leftarrow> read_u32 rawPacket 4;
     n \<leftarrow> read_u32 rawPacket 8;
     d \<leftarrow> (if n \<noteq> 0 then map_option Some (read_buf rawPacket 12 (unat n)) else Some None);
     Some \<lparr>pkt_type = t, pkt_data_length = n, pkt_client_id = c, pkt_data = d\<rparr> }"

section \<open>Responses\<close>

definition new_nipc_read_response :: "buffer option \<Rightarrow> u32 \<Rightarrow> u32 \<Rightarrow> nipc_packet" where
  "new_nipc_read_response dat dataLength client_id =
     \<lparr>pkt_type = tipo_code nipc_read_response, pkt_data_length = dataLength,
      pkt_client_id = client_id, pkt_data = dat\<rparr>"

definition new_nipc_ok :: "u32 \<Rightarrow> nipc_packet" where
  "new_nipc_ok client_id = \<lparr>pkt_type = tipo_code nipc_ok, pkt_data_length = 0,
     pkt_client_id = client_id, pkt_data = None\<rparr>"

subsection \<open>readdir response\<close>

record readdir_entry =
  re_path :: "cstr option"
  re_mode :: u32
  re_size :: u32
  re_n_link :: u32
  re_blocks :: u32

record nipc_readdir_response_t =
  rr_nipcType :: u32
  rr_client_id :: u32
  rr_entriesLength :: u32
  rr_entries :: "readdir_entry list"

text \<open>The body of the first loop: one entry, preceded by its size.\<close>

definition serialize_entry :: "readdir_entry \<Rightarrow> buffer option" where
  "serialize_entry entry = do {
     path \<leftarrow> re_path entry;
     let entrySize = (4 + 4 + 4 + 4 + 4 + of_nat (length path) + 1 :: u32);
     ensure (unat entrySize = 20 + length path + 1);
     Some (le32 entrySize @ le32 (re_mode entry) @ le32 (re_n_link entry)
       @ le32 (re_size entry) @ le32 (re_blocks entry) @ path @ [0]) }"

primrec serialize_entries :: "readdir_entry list \<Rightarrow> buffer list option" where
  "serialize_entries [] = Some []"
| "serialize_entries (e # es) = do {
     b \<leftarrow> serialize_entry e;
     bs \<leftarrow> serialize_entries es;
     Some (b # bs) }"

definition serialize_readdir_response :: "nipc_readdir_response_t \<Rightarrow> nipc_packet option" where
  "serialize_readdir_response payload = do {
     ensure (unat (rr_entriesLength payload) \<le> length (rr_entries payload));
     serializedEntries \<leftarrow>
       serialize_entries (take (unat (rr_entriesLength payload)) (rr_entries payload));
     let entriesSize = (of_nat (length (concat serializedEntries)) :: u32);
     fill_packet (rr_nipcType payload) (rr_client_id payload) (entriesSize + 4)
       (le32 (rr_entriesLength payload) @ concat serializedEntries) }"

definition empty_nipc_readdir_response :: "u32 \<Rightarrow> nipc_readdir_response_t" where
  "empty_nipc_readdir_response garbage =
     \<lparr>rr_nipcType = tipo_code nipc_readdir_response, rr_client_id = garbage,
      rr_entriesLength = 0, rr_entries = []\<rparr>"

text \<open>
  One round of the decoding loop at offset \<open>stream\<close>: the entry and the next offset.
  \<open>pathLength\<close> is computed at 32 bits; the copied path is read as the C string it holds.
\<close>

definition deserialize_entry :: "buffer \<Rightarrow> nat \<Rightarrow> (readdir_entry \<times> nat) option" where
  "deserialize_entry d stream = do {
     entrySize \<leftarrow> read_u32 d stream;
     mode \<leftarrow> read_u32 d (stream + 4);
     n_link \<leftarrow> read_u32 d (stream + 8);
     size \<leftarrow> read_u32 d (stream + 12);
     blocks \<leftarrow> read_u32 d (stream + 16);
     let pathLength = unat (entrySize - 20);
     block \<leftarrow> read_buf d (stream + 20) pathLength;
     path \<leftarrow> c_str block;
     Some (\<lparr>re_path = Some path, re_mode = mode, re_size = size, re_n_link = n_link,
            re_blocks = blocks\<rparr>, stream + 20 + pathLength) }"

primrec deserialize_entries :: "nat \<Rightarrow> buffer \<Rightarrow> nat \<Rightarrow> readdir_entry list option" where
  "deserialize_entries 0 d stream = Some []"
| "deserialize_entries (Suc n) d stream = do {
     (e, stream') \<leftarrow> deserialize_entry d stream;
     es \<leftarrow> deserialize_entries n d stream';
     Some (e # es) }"

definition deserialize_readdir_response ::
    "u32 \<Rightarrow> nipc_packet \<Rightarrow> nipc_readdir_response_t option" where
  "deserialize_readdir_response garbage packet = do {
     d \<leftarrow> pkt_data packet;
     n \<leftarrow> read_u32 d 0;
     es \<leftarrow> deserialize_entries (unat n) d 4;
     Some ((empty_nipc_readdir_response garbage)\<lparr>rr_entriesLength := n, rr_entries := es\<rparr>) }"

definition new_nipc_readdir_response ::
    "u32 \<Rightarrow> readdir_entry list \<Rightarrow> u32 \<Rightarrow> nipc_readdir_response_t" where
  "new_nipc_readdir_response entriesLength entries client_id =
     (empty_nipc_readdir_response 0)\<lparr>rr_entriesLength := entriesLength, rr_entries := entries,
       rr_client_id := client_id\<rparr>"

subsection \<open>getattr response\<close>

record nipc_getattr_response_t =
  gr_nipcType :: u32
  gr_client_id :: u32
  gr_entry :: readdir_entry

definition serialize_getattr_response :: "nipc_getattr_response_t \<Rightarrow> nipc_packet option" where
  "serialize_getattr_response payload = (let entry = gr_entry payload in
     fill_packet (gr_nipcType payload) 0 (4 + 4 + 4 + 4)
       (le32 (re_mode entry) @ le32 (re_n_link entry) @ le32 (re_size entry)
         @ le32 (re_blocks entry)))"

definition empty_nipc_getattr_response :: "u32 \<Rightarrow> readdir_entry \<Rightarrow> nipc_getattr_response_t" where
  "empty_nipc_getattr_response garbage entry =
     \<lparr>gr_nipcType = tipo_code nipc_getattr_response, gr_client_id = garbage, gr_entry = entry\<rparr>"

definition deserialize_getattr_response ::
    "u32 \<Rightarrow> nipc_packet \<Rightarrow> nipc_getattr_response_t option" where
  "deserialize_getattr_response garbage packet = do {
     d \<leftarrow> pkt_data packet;
     mode \<leftarrow> read_u32 d 0;
     n_link \<leftarrow> read_u32 d 4;
     size \<leftarrow> read_u32 d 8;
     blocks \<leftarrow> read_u32 d 12;
     Some (empty_nipc_getattr_response garbage
       \<lparr>re_path = None, re_mode = mode, re_size = size, re_n_link = n_link,
        re_blocks = blocks\<rparr>) }"

definition new_nipc_getattr_response :: "readdir_entry \<Rightarrow> u32 \<Rightarrow> nipc_getattr_response_t" where
  "new_nipc_getattr_response entry client_id = empty_nipc_getattr_response client_id entry"

subsection \<open>Handshake\<close>

definition HANDSHAKE_HELLO :: cstr where
  "HANDSHAKE_HELLO = str ''Estan listos, chicos?''"

definition HANDSHAKE_OK :: cstr where
  "HANDSHAKE_OK = str ''Si, mi capitan, estamos listos!''"

definition new_nipc_handshake :: "cstr \<Rightarrow> u32 \<Rightarrow> nipc_packet" where
  "new_nipc_handshake message client_id =
     \<lparr>pkt_type = tipo_code nipc_handshake, pkt_data_length = of_nat (length message + 1),
      pkt_client_id = client_id, pkt_data = Some (message @ [0])\<rparr>"

definition new_nipc_handshake_hello :: nipc_packet where
  "new_nipc_handshake_hello = new_nipc_handshake HANDSHAKE_HELLO 0"

definition new_nipc_handshake_ok :: "u32 \<Rightarrow> nipc_packet" where
  "new_nipc_handshake_ok new_client_id = new_nipc_handshake HANDSHAKE_OK new_client_id"

subsection \<open>Errors\<close>

record nipc_error_t =
  er_nipcType :: u32
  er_client_id :: u32
  er_errorCode :: u32
  er_errorMessage :: cstr

definition serialize_error :: "nipc_error_t \<Rightarrow> nipc_packet option" where
  "serialize_error payload =
     (let message_length = (of_nat (length (er_errorMessage payload)) :: u32) in
      fill_packet (er_nipcType payload) (er_client_id payload) (4 + 4 + message_length)
        (le32 (er_errorCode payload) @ le32 message_length @ er_errorMessage payload))"

definition empty_nipc_error :: nipc_error_t where
  "empty_nipc_error = \<lparr>er_nipcType = tipo_code nipc_error, er_client_id = 0,
     er_errorCode = 0, er_errorMessage = []\<rparr>"

text \<open>
  The message is copied into a zeroed block of \<open>message_length + 1\<close> bytes, so that it is a
  C string whatever the packet holds.
\<close>

definition deserialize_error :: "nipc_packet \<Rightarrow> nipc_error_t option" where
  "deserialize_error packet = do {
     d \<leftarrow> pkt_data packet;
     code \<leftarrow> read_u32 d 0;
     message_length \<leftarrow> read_u32 d 4;
     msg \<leftarrow> (if message_length > 0
       then do {
         ensure (unat (message_length + 1) = unat message_length + 1);
         bytes \<leftarrow> read_buf d 8 (unat message_length);
         c_str (bytes @ [0]) }
       else Some (er_errorMessage empty_nipc_error));
     Some (empty_nipc_error\<lparr>er_errorCode := code, er_errorMessage := msg\<rparr>) }"

definition new_nipc_error_message :: "cstr \<Rightarrow> nipc_error_t" where
  "new_nipc_error_message errorMessage = empty_nipc_error\<lparr>er_errorMessage := errorMessage\<rparr>"

definition new_nipc_error_code :: "u32 \<Rightarrow> u32 \<Rightarrow> nipc_error_t" where
  "new_nipc_error_code client_id errorNumber =
     empty_nipc_error\<lparr>er_client_id := client_id, er_errorCode := errorNumber\<rparr>"

definition new_nipc_error :: "u32 \<Rightarrow> cstr \<Rightarrow> nipc_error_t" where
  "new_nipc_error error_code error_message =
     empty_nipc_error\<lparr>er_errorCode := error_code, er_errorMessage := error_message\<rparr>"

end
