(* ===== verification/Protocol.thy ===== *)
theory Protocol
  imports Nipc
begin

unbundle bit_operations_syntax

text \<open>
  What the wire protocol promises: a well-formed packet survives the framing, and each message
  survives its own encoding. The contract of one kind of message is the locale
  \<open>message_codec\<close>; every request struct of \<open>nipc.h\<close> is an instance of it, and the switch of
  \<open>serveRequest\<close> (\<open>rfs/src/main_rfs.c\<close>) gives the server the request the client built.
\<close>

section \<open>Well-formed packets\<close>

definition packet_ok :: "nipc_packet \<Rightarrow> bool" where
  "packet_ok p \<longleftrightarrow> unat (pkt_data_length p) + 12 < 2 ^ 32 \<and>
     (case pkt_data p of None \<Rightarrow> pkt_data_length p = 0
      | Some d \<Rightarrow> pkt_data_length p \<noteq> 0 \<and> length d = unat (pkt_data_length p))"

lemma unat_add_12:
  fixes n :: u32
  assumes "unat n + 12 < 2 ^ 32"
  shows "unat (12 + n) = 12 + unat n"
proof -
  have "unat (12 + n) = (unat (12 :: u32) + unat n) mod 2 ^ 32"
    by (simp only: unat_word_ariths) simp
  also have "\<dots> = 12 + unat n" using assms by simp
  finally show ?thesis .
qed

lemma nipc_serialize_ok:
  assumes "packet_ok p"
  shows "nipc_serialize p = Some (le32 (pkt_type p) @ le32 (pkt_client_id p)
           @ le32 (pkt_data_length p) @ (case pkt_data p of None \<Rightarrow> [] | Some d \<Rightarrow> d))"
proof -
  have n: "unat (12 + pkt_data_length p) = 12 + unat (pkt_data_length p)"
    using assms unat_add_12 [of "pkt_data_length p"] by (simp add: packet_ok_def)
  show ?thesis
  proof (cases "pkt_data p")
    case None
    then show ?thesis using assms n by (simp add: nipc_serialize_def packet_ok_def)
  next
    case (Some d)
    then show ?thesis using assms n by (simp add: nipc_serialize_def packet_ok_def read_buf_def)
  qed
qed

lemma read_header [simp]:
  "read_u32 (le32 t @ le32 c @ le32 n @ rest) 4 = Some c"
  "read_u32 (le32 t @ le32 c @ le32 n @ rest) 8 = Some n"
  "read_buf (le32 t @ le32 c @ le32 n @ rest) 12 k = read_buf rest 0 k"
  using read_u32_mid [of 4 "le32 t" c "le32 n @ rest"]
    read_u32_mid [of 8 "le32 t @ le32 c" n rest]
  by (simp_all add: read_buf_def)

lemma nipc_deserialize_ok:
  assumes "packet_ok p"
  shows "nipc_deserialize (le32 (pkt_type p) @ le32 (pkt_client_id p)
           @ le32 (pkt_data_length p) @ (case pkt_data p of None \<Rightarrow> [] | Some d \<Rightarrow> d) @ junk)
         = Some p"
proof (cases "pkt_data p")
  case None
  then show ?thesis using assms by (simp add: nipc_deserialize_def packet_ok_def)
next
  case (Some d)
  then show ?thesis
    using assms by (simp add: nipc_deserialize_def packet_ok_def)
qed

lemma frame_round_trip:
  assumes "packet_ok p"
  shows "Option.bind (nipc_serialize p) nipc_deserialize = Some p"
  using nipc_deserialize_ok [OF assms, of "[]"] by (simp add: nipc_serialize_ok [OF assms])

section \<open>The contract of a message\<close>

locale message_codec =
  fixes ser :: "'m \<Rightarrow> nipc_packet option"
    and des :: "nipc_packet \<Rightarrow> 'm option"
    and ok :: "'m \<Rightarrow> bool"
    and tipo :: tipo_nipc
  assumes ser_des: "ok m \<Longrightarrow>
    \<exists>p. ser m = Some p \<and> packet_ok p \<and> pkt_type p = tipo_code tipo \<and> des p = Some m"
begin

lemma over_the_wire:
  assumes "ok m"
  shows "\<exists>p. ser m = Some p \<and> pkt_type p = tipo_code tipo \<and>
    Option.bind (nipc_serialize p) nipc_deserialize = Some p \<and> des p = Some m"
proof -
  obtain p where "ser m = Some p" "packet_ok p" "pkt_type p = tipo_code tipo" "des p = Some m"
    using ser_des [OF assms] by blast
  then show ?thesis using frame_round_trip by blast
qed

lemma injective: "ok m \<Longrightarrow> ok m' \<Longrightarrow> ser m = ser m' \<Longrightarrow> m = m'"
  by (metis option.inject ser_des)

end

section \<open>Lengths of the encoded payloads\<close>

text \<open>A path that fits its packet: a C string, 64 bytes away from the 32-bit limit.\<close>

definition path_ok :: "cstr \<Rightarrow> bool" where
  "path_ok path \<longleftrightarrow> is_cstr path \<and> length path + 64 < 2 ^ 32"

definition packet_of :: "u32 \<Rightarrow> u32 \<Rightarrow> buffer \<Rightarrow> nipc_packet" where
  "packet_of t c bs = \<lparr>pkt_type = t, pkt_data_length = of_nat (length bs), pkt_client_id = c,
     pkt_data = Some bs\<rparr>"

lemma packet_of_simps [simp]:
  "pkt_type (packet_of t c bs) = t" "pkt_client_id (packet_of t c bs) = c"
  "pkt_data (packet_of t c bs) = Some bs"
  "pkt_data_length (packet_of t c bs) = of_nat (length bs)"
  by (simp_all add: packet_of_def)

lemma fill_packet_of [simp]:
  "n = of_nat (length bs) \<Longrightarrow> length bs < 2 ^ 32 \<Longrightarrow> fill_packet t c n bs = Some (packet_of t c bs)"
  by (simp add: fill_packet_def packet_of_def)

lemma packet_ok_of [simp]:
  assumes "bs \<noteq> []" and "length bs + 12 < 2 ^ 32"
  shows "packet_ok (packet_of t c bs)"
proof -
  have n: "unat (of_nat (length bs) :: u32) = length bs" using assms(2) by simp
  moreover have "(of_nat (length bs) :: u32) \<noteq> 0"
  proof
    assume "(of_nat (length bs) :: u32) = 0"
    then have "unat (of_nat (length bs) :: u32) = 0" by simp
    with n assms(1) show False by simp
  qed
  ultimately show ?thesis using assms by (simp add: packet_ok_def)
qed

section \<open>Every request is an instance\<close>

definition create_ok :: "nipc_create_t \<Rightarrow> bool" where
  "create_ok m \<longleftrightarrow> cr_nipcType m = tipo_code nipc_create \<and> path_ok (cr_path m)"
definition open_ok :: "nipc_open_t \<Rightarrow> bool" where
  "open_ok m \<longleftrightarrow> op_nipcType m = tipo_code nipc_open \<and> path_ok (op_path m)"
definition read_ok :: "nipc_read_t \<Rightarrow> bool" where
  "read_ok m \<longleftrightarrow> rd_nipcType m = tipo_code nipc_read \<and> path_ok (rd_path m)"
definition write_ok :: "nipc_write_t \<Rightarrow> bool" where
  "write_ok m \<longleftrightarrow> wt_nipcType m = tipo_code nipc_write \<and> path_ok (wt_path m) \<and>
     length (wt_data m) = unat (wt_size m) \<and>
     length (wt_path m) + length (wt_data m) + 64 < 2 ^ 32"
definition unlink_ok :: "nipc_unlink_t \<Rightarrow> bool" where
  "unlink_ok m \<longleftrightarrow> ul_nipcType m = tipo_code nipc_unlink \<and> path_ok (ul_path m)"
definition release_ok :: "nipc_release_t \<Rightarrow> bool" where
  "release_ok m \<longleftrightarrow> rl_nipcType m = tipo_code nipc_release \<and> path_ok (rl_path m)"
definition mkdir_ok :: "nipc_mkdir_t \<Rightarrow> bool" where
  "mkdir_ok m \<longleftrightarrow> mk_nipcType m = tipo_code nipc_mkdir \<and> path_ok (mk_path m)"
definition rmdir_ok :: "nipc_rmdir_t \<Rightarrow> bool" where
  "rmdir_ok m \<longleftrightarrow> rm_nipcType m = tipo_code nipc_rmdir \<and> path_ok (rm_path m)"
definition readdir_ok :: "nipc_readdir_t \<Rightarrow> bool" where
  "readdir_ok m \<longleftrightarrow> dr_nipcType m = tipo_code nipc_readdir \<and> path_ok (dr_path m)"
definition getattr_ok :: "nipc_getattr_t \<Rightarrow> bool" where
  "getattr_ok m \<longleftrightarrow> ga_nipcType m = tipo_code nipc_getattr \<and> path_ok (ga_path m)"
definition truncate_ok :: "nipc_truncate_t \<Rightarrow> bool" where
  "truncate_ok m \<longleftrightarrow> tr_nipcType m = tipo_code nipc_truncate \<and> path_ok (tr_path m)"

text \<open>The decoders' reads of a payload \<open>path NUL w\<^sub>1 w\<^sub>2\<close>.\<close>

lemma read_after_path [simp]:
  "read_u32 (path @ 0 # le32 v @ rest) (Suc (length path)) = Some v"
  "read_u32 (path @ 0 # le32 v) (Suc (length path)) = Some v"
  using read_u32_mid [of "Suc (length path)" "path @ [0]" v rest]
    read_u32_suffix [of "Suc (length path)" "path @ [0]" v] by simp_all

lemma read_after_path2 [simp]:
  "off = length path + 5 \<Longrightarrow> read_u32 (path @ 0 # le32 v @ le32 w) off = Some w"
  using read_u32_suffix [of off "path @ [0] @ le32 v" w] by simp

lemma read_write_payload [simp]:
  "off = length path + 5 \<Longrightarrow> k = length dat \<Longrightarrow>
     read_buf (path @ 0 # le32 v @ dat @ le32 w) off k = Some dat"
  "off = length path + 5 + length dat \<Longrightarrow>
     read_u32 (path @ 0 # le32 v @ dat @ le32 w) off = Some w"
  using read_buf_mid [of off "path @ [0] @ le32 v" k dat "le32 w"]
    read_u32_suffix [of off "path @ [0] @ le32 v @ dat" w] by simp_all

interpretation create: message_codec serialize_create deserialize_create create_ok nipc_create
  by unfold_locales
    (simp add: create_ok_def path_ok_def serialize_create_def deserialize_create_def
      empty_nipc_create_def)

interpretation opn: message_codec serialize_open deserialize_open open_ok nipc_open
  by unfold_locales
    (simp add: open_ok_def path_ok_def serialize_open_def deserialize_open_def
      empty_nipc_open_def)

interpretation rd: message_codec serialize_read deserialize_read read_ok nipc_read
  by unfold_locales
    (simp add: read_ok_def path_ok_def serialize_read_def deserialize_read_def
      empty_nipc_read_def)

lemma strcpy_data_packet_of [simp]:
  "is_cstr path \<Longrightarrow> length path + 1 < 2 ^ 32 \<Longrightarrow> strcpy_data (packet_of t c (path @ [0])) = Some path"
  by (simp add: strcpy_data_def del: of_nat_Suc)

interpretation wrt: message_codec serialize_write deserialize_write write_ok nipc_write
proof
  fix m
  assume m: "write_ok m"
  let ?d = "wt_path m @ 0 # le32 (wt_size m) @ wt_data m @ le32 (wt_offset m)"
  have k: "unat (wt_size m) = length (wt_data m)" and z: "wt_size m = of_nat (length (wt_data m))"
    using m by (auto simp: write_ok_def)
  have "serialize_write m = Some (packet_of (tipo_code nipc_write) (wt_client_id m) ?d)"
    using m by (simp add: write_ok_def serialize_write_def k read_buf_def)
      (simp add: z fill_packet_of)
  moreover have "packet_ok (packet_of (tipo_code nipc_write) (wt_client_id m) ?d)"
    using m by (intro packet_ok_of) (simp_all add: write_ok_def)
  moreover have "deserialize_write (packet_of (tipo_code nipc_write) (wt_client_id m) ?d) = Some m"
    using m k by (simp add: write_ok_def path_ok_def deserialize_write_def empty_nipc_write_def)
  ultimately show "\<exists>p. serialize_write m = Some p \<and> packet_ok p \<and>
      pkt_type p = tipo_code nipc_write \<and> deserialize_write p = Some m"
    by simp
qed

interpretation unlnk: message_codec serialize_unlink deserialize_unlink unlink_ok nipc_unlink
  by unfold_locales
    (simp add: unlink_ok_def path_ok_def serialize_unlink_def deserialize_unlink_def
      empty_nipc_unlink_def)

interpretation release: message_codec serialize_release deserialize_release release_ok nipc_release
  by unfold_locales
    (simp add: release_ok_def path_ok_def serialize_release_def deserialize_release_def
      empty_nipc_release_def)

interpretation mkdr: message_codec serialize_mkdir deserialize_mkdir mkdir_ok nipc_mkdir
  by unfold_locales
    (simp add: mkdir_ok_def path_ok_def serialize_mkdir_def deserialize_mkdir_def
      empty_nipc_mkdir_def)

interpretation rmdr: message_codec serialize_rmdir deserialize_rmdir rmdir_ok nipc_rmdir
  by unfold_locales
    (simp add: rmdir_ok_def path_ok_def serialize_rmdir_def deserialize_rmdir_def
      empty_nipc_rmdir_def)

interpretation readdr: message_codec serialize_readdir deserialize_readdir readdir_ok nipc_readdir
  by unfold_locales
    (simp add: readdir_ok_def path_ok_def serialize_readdir_def deserialize_readdir_def
      empty_nipc_readdir_def)

interpretation getatt: message_codec serialize_getattr deserialize_getattr getattr_ok nipc_getattr
  by unfold_locales
    (simp add: getattr_ok_def path_ok_def serialize_getattr_def deserialize_getattr_def
      empty_nipc_getattr_def)

interpretation trunc: message_codec serialize_truncate deserialize_truncate truncate_ok nipc_truncate
  by unfold_locales
    (simp add: truncate_ok_def path_ok_def serialize_truncate_def deserialize_truncate_def
      empty_nipc_truncate_def)

section \<open>The request the server dispatches on\<close>

datatype request =
    Req_create nipc_create_t | Req_open nipc_open_t | Req_read nipc_read_t
  | Req_write nipc_write_t | Req_unlink nipc_unlink_t | Req_release nipc_release_t
  | Req_mkdir nipc_mkdir_t | Req_rmdir nipc_rmdir_t | Req_readdir nipc_readdir_t
  | Req_getattr nipc_getattr_t | Req_truncate nipc_truncate_t

text \<open>The client's call \<open>data->serialize(data)\<close>.\<close>

primrec serialize_request :: "request \<Rightarrow> nipc_packet option" where
  "serialize_request (Req_create m) = serialize_create m"
| "serialize_request (Req_open m) = serialize_open m"
| "serialize_request (Req_read m) = serialize_read m"
| "serialize_request (Req_write m) = serialize_write m"
| "serialize_request (Req_unlink m) = serialize_unlink m"
| "serialize_request (Req_release m) = serialize_release m"
| "serialize_request (Req_mkdir m) = serialize_mkdir m"
| "serialize_request (Req_rmdir m) = serialize_rmdir m"
| "serialize_request (Req_readdir m) = serialize_readdir m"
| "serialize_request (Req_getattr m) = serialize_getattr m"
| "serialize_request (Req_truncate m) = serialize_truncate m"

primrec request_ok :: "request \<Rightarrow> bool" where
  "request_ok (Req_create m) = create_ok m"
| "request_ok (Req_open m) = open_ok m"
| "request_ok (Req_read m) = read_ok m"
| "request_ok (Req_write m) = write_ok m"
| "request_ok (Req_unlink m) = unlink_ok m"
| "request_ok (Req_release m) = release_ok m"
| "request_ok (Req_mkdir m) = mkdir_ok m"
| "request_ok (Req_rmdir m) = rmdir_ok m"
| "request_ok (Req_readdir m) = readdir_ok m"
| "request_ok (Req_getattr m) = getattr_ok m"
| "request_ok (Req_truncate m) = truncate_ok m"

text \<open>
  The eleven file-system cases of the switch of \<open>serveRequest\<close>: which deserializer runs is
  decided by the packet's type. The inner option is \<open>None\<close> for a type that is not one of them
  (handshake, error, unknown), the outer one where the deserializer reads out of bounds.
\<close>

definition decode_request :: "nipc_packet \<Rightarrow> request option option" where
  "decode_request packet = (let t = pkt_type packet in
     if t = tipo_code nipc_open then map_option (Some \<circ> Req_open) (deserialize_open packet)
     else if t = tipo_code nipc_create then map_option (Some \<circ> Req_create) (deserialize_create packet)
     else if t = tipo_code nipc_read then map_option (Some \<circ> Req_read) (deserialize_read packet)
     else if t = tipo_code nipc_write then map_option (Some \<circ> Req_write) (deserialize_write packet)
     else if t = tipo_code nipc_release then map_option (Some \<circ> Req_release) (deserialize_release packet)
     else if t = tipo_code nipc_unlink then map_option (Some \<circ> Req_unlink) (deserialize_unlink packet)
     else if t = tipo_code nipc_mkdir then map_option (Some \<circ> Req_mkdir) (deserialize_mkdir packet)
     else if t = tipo_code nipc_readdir then map_option (Some \<circ> Req_readdir) (deserialize_readdir packet)
     else if t = tipo_code nipc_rmdir then map_option (Some \<circ> Req_rmdir) (deserialize_rmdir packet)
     else if t = tipo_code nipc_getattr then map_option (Some \<circ> Req_getattr) (deserialize_getattr packet)
     else if t = tipo_code nipc_truncate then map_option (Some \<circ> Req_truncate) (deserialize_truncate packet)
     else Some None)"

definition transmit :: "nipc_packet \<Rightarrow> nipc_packet option" where
  "transmit p = Option.bind (nipc_serialize p) nipc_deserialize"

lemma transmit_ok [simp]: "packet_ok p \<Longrightarrow> transmit p = Some p"
  by (simp add: transmit_def frame_round_trip)

lemma serialize_request_ok:
  "request_ok r \<Longrightarrow>
     \<exists>p. serialize_request r = Some p \<and> packet_ok p \<and> decode_request p = Some (Some r)"
  by (cases r)
    (auto dest!: create.ser_des opn.ser_des rd.ser_des wrt.ser_des unlnk.ser_des
      release.ser_des mkdr.ser_des rmdr.ser_des readdr.ser_des getatt.ser_des trunc.ser_des
      simp: decode_request_def)

text \<open>
  C12. Every well-formed request the client serializes and sends arrives unchanged: after
  \<open>serialize\<close>, \<open>nipc_serialize\<close> and \<open>nipc_deserialize\<close>, the server's switch decodes
  exactly the request that was built, with its type, client id, path, data and numbers.
\<close>

theorem request_over_the_wire:
  assumes "request_ok r"
  shows "do { p \<leftarrow> serialize_request r; q \<leftarrow> transmit p; decode_request q } = Some (Some r)"
proof -
  obtain p where "serialize_request r = Some p" "packet_ok p" "decode_request p = Some (Some r)"
    using serialize_request_ok [OF assms] by blast
  then show ?thesis by simp
qed

section \<open>Responses\<close>

subsection \<open>Directory listings\<close>

definition entry_ok :: "readdir_entry \<Rightarrow> bool" where
  "entry_ok e \<longleftrightarrow> (\<exists>path. re_path e = Some path \<and> path_ok path)"

definition entry_bytes :: "readdir_entry \<Rightarrow> buffer" where
  "entry_bytes e = (case re_path e of None \<Rightarrow> [] | Some path \<Rightarrow>
     le32 (of_nat (21 + length path)) @ le32 (re_mode e) @ le32 (re_n_link e)
       @ le32 (re_size e) @ le32 (re_blocks e) @ path @ [0])"

definition listing_ok :: "nipc_readdir_response_t \<Rightarrow> bool" where
  "listing_ok m \<longleftrightarrow> rr_nipcType m = tipo_code nipc_readdir_response \<and>
     unat (rr_entriesLength m) = length (rr_entries m) \<and> list_all entry_ok (rr_entries m) \<and>
     length (concat (map entry_bytes (rr_entries m))) + 64 < 2 ^ 32"

lemma serialize_entry_ok: "entry_ok e \<Longrightarrow> serialize_entry e = Some (entry_bytes e)"
proof -
  assume "entry_ok e"
  then obtain path where p: "re_path e = Some path" "length path + 64 < 2 ^ 32"
    by (auto simp: entry_ok_def path_ok_def)
  have w: "(4 + 4 + 4 + 4 + 4 + of_nat (length path) + 1 :: u32) = of_nat (21 + length path)"
    by simp
  have "unat (of_nat (21 + length path) :: u32) = 20 + length path + 1"
    using p(2) by (subst unat_of_nat_small) simp_all
  then show ?thesis using p(1) by (simp only: serialize_entry_def entry_bytes_def Let_def w)
      (simp add: bind_ensure)
qed

lemma serialize_entries_ok:
  "list_all entry_ok es \<Longrightarrow> serialize_entries es = Some (map entry_bytes es)"
  by (induction es) (auto simp: serialize_entry_ok)

lemma deserialize_entry_ok:
  assumes "entry_ok e"
  shows "deserialize_entry (pre @ entry_bytes e @ post) (length pre)
           = Some (e, length pre + length (entry_bytes e))"
proof -
  obtain path where p: "re_path e = Some path" "is_cstr path" "length path + 64 < 2 ^ 32"
    using assms by (auto simp: entry_ok_def path_ok_def)
  let ?n = "of_nat (21 + length path) :: u32"
  have n: "unat (?n - 20) = Suc (length path)"
  proof -
    have "?n - 20 = of_nat (Suc (length path))" by simp
    then show ?thesis using p(3) unat_of_nat_small [of "Suc (length path)"] by simp
  qed
  let ?w = "le32 (re_mode e)" and ?x = "le32 (re_n_link e)" and ?y = "le32 (re_size e)"
    and ?z = "le32 (re_blocks e)" and ?rest = "(path @ [0]) @ post"
  let ?buf = "pre @ le32 ?n @ ?w @ ?x @ ?y @ ?z @ ?rest"
  have r: "read_u32 ?buf (length pre) = Some ?n"
    "read_u32 ?buf (length pre + 4) = Some (re_mode e)"
    "read_u32 ?buf (length pre + 8) = Some (re_n_link e)"
    "read_u32 ?buf (length pre + 12) = Some (re_size e)"
    "read_u32 ?buf (length pre + 16) = Some (re_blocks e)"
    using read_u32_mid [of "length pre" pre ?n "?w @ ?x @ ?y @ ?z @ ?rest"]
      read_u32_mid [of "length pre + 4" "pre @ le32 ?n" "re_mode e" "?x @ ?y @ ?z @ ?rest"]
      read_u32_mid [of "length pre + 8" "pre @ le32 ?n @ ?w" "re_n_link e" "?y @ ?z @ ?rest"]
      read_u32_mid [of "length pre + 12" "pre @ le32 ?n @ ?w @ ?x" "re_size e" "?z @ ?rest"]
      read_u32_mid [of "length pre + 16" "pre @ le32 ?n @ ?w @ ?x @ ?y" "re_blocks e" ?rest]
    by simp_all
  have b: "read_buf ?buf (length pre + 20) (Suc (length path)) = Some (path @ [0])"
    using read_buf_mid [of "length pre + 20" "pre @ le32 ?n @ ?w @ ?x @ ?y @ ?z"
        "Suc (length path)" "path @ [0]" post] by simp
  have e: "pre @ entry_bytes e @ post = ?buf" using p(1) by (simp add: entry_bytes_def)
  have "e = \<lparr>re_path = Some path, re_mode = re_mode e, re_size = re_size e,
      re_n_link = re_n_link e, re_blocks = re_blocks e\<rparr>" using p(1) by simp
  then show ?thesis unfolding e deserialize_entry_def
    using p by (simp only: r b n Let_def Option.bind.simps)
      (simp add: entry_bytes_def)
qed

lemma deserialize_entries_ok:
  "list_all entry_ok es \<Longrightarrow>
     deserialize_entries (length es) (pre @ concat (map entry_bytes es) @ post) (length pre) = Some es"
proof (induction es arbitrary: pre)
  case Nil
  then show ?case by simp
next
  case (Cons e es)
  have "deserialize_entries (length es) ((pre @ entry_bytes e) @ concat (map entry_bytes es) @ post)
      (length (pre @ entry_bytes e)) = Some es"
    using Cons.prems by (intro Cons.IH) simp
  then show ?case
    using Cons.prems deserialize_entry_ok [of e pre "concat (map entry_bytes es) @ post"] by simp
qed

text \<open>
  C40. A directory listing of any number of entries survives the wire: the entries the server
  serializes are the ones the client decodes, in order, with names and attributes; only the
  client id is not restored (the decoder leaves it as \<open>malloc\<close> returned it).
\<close>

theorem readdir_response_over_the_wire:
  assumes "listing_ok m"
  shows "do { p \<leftarrow> serialize_readdir_response m; q \<leftarrow> transmit p;
              deserialize_readdir_response garbage q } = Some (m\<lparr>rr_client_id := garbage\<rparr>)"
proof -
  let ?body = "concat (map entry_bytes (rr_entries m))"
  let ?d = "le32 (rr_entriesLength m) @ ?body"
  have len: "length ?body + 64 < 2 ^ 32" using assms by (simp add: listing_ok_def)
  have s: "serialize_readdir_response m
      = Some (packet_of (tipo_code nipc_readdir_response) (rr_client_id m) ?d)"
    using assms len
    by (simp add: listing_ok_def serialize_readdir_response_def serialize_entries_ok)
  have ok: "packet_ok (packet_of (tipo_code nipc_readdir_response) (rr_client_id m) ?d)"
    using len by (intro packet_ok_of) (auto simp: le32_def)
  have "deserialize_entries (length (rr_entries m)) ?d 4 = Some (rr_entries m)"
    using assms deserialize_entries_ok [of "rr_entries m" "le32 (rr_entriesLength m)" "[]"]
    by (simp add: listing_ok_def)
  then show ?thesis
    using assms ok by (simp add: s deserialize_readdir_response_def listing_ok_def
        empty_nipc_readdir_response_def)
qed

subsection \<open>Attributes and errors\<close>

text \<open>
  The attributes of a file survive the wire: mode, link count, size and block count are
  decoded as they were encoded; the path of the entry is not sent and comes back null, and
  the packet carries client id 0 whatever the response's client id is.
\<close>

theorem getattr_response_over_the_wire:
  assumes "gr_nipcType m = tipo_code nipc_getattr_response"
  shows "do { p \<leftarrow> serialize_getattr_response m; q \<leftarrow> transmit p;
              r \<leftarrow> deserialize_getattr_response garbage q; Some (pkt_client_id q, r) }
         = Some (0, m\<lparr>gr_client_id := garbage, gr_entry := (gr_entry m)\<lparr>re_path := None\<rparr>\<rparr>)"
proof -
  let ?e = "gr_entry m"
  let ?d = "le32 (re_mode ?e) @ le32 (re_n_link ?e) @ le32 (re_size ?e) @ le32 (re_blocks ?e)"
  have s: "serialize_getattr_response m = Some (packet_of (tipo_code nipc_getattr_response) 0 ?d)"
    using assms by (simp add: serialize_getattr_response_def Let_def)
  have ok: "packet_ok (packet_of (tipo_code nipc_getattr_response) 0 ?d)"
    by (intro packet_ok_of) (auto simp: le32_def)
  have r: "read_u32 ?d 12 = Some (re_blocks ?e)"
    using read_u32_suffix [of 12 "le32 (re_mode ?e) @ le32 (re_n_link ?e) @ le32 (re_size ?e)"
      "re_blocks ?e"] by simp
  show ?thesis using ok assms
    by (simp add: s deserialize_getattr_response_def r empty_nipc_getattr_response_def)
qed

text \<open>
  An error survives the wire with its code and its whole message; its client id does not
  (\<open>deserialize_error\<close> keeps the 0 of \<open>empty_nipc_error\<close>).
\<close>

theorem error_over_the_wire:
  assumes "er_nipcType m = tipo_code nipc_error" and "path_ok (er_errorMessage m)"
  shows "do { p \<leftarrow> serialize_error m; q \<leftarrow> transmit p; deserialize_error q }
         = Some (m\<lparr>er_client_id := 0\<rparr>)"
proof -
  let ?msg = "er_errorMessage m"
  let ?n = "of_nat (length ?msg) :: u32"
  let ?d = "le32 (er_errorCode m) @ le32 ?n @ ?msg"
  have len: "length ?msg + 64 < 2 ^ 32" "is_cstr ?msg"
    using assms(2) by (auto simp: path_ok_def)
  have n: "unat ?n = length ?msg" using len by simp
  have n1: "unat (?n + 1) = length ?msg + 1"
  proof -
    have "?n + 1 = of_nat (length ?msg + 1)" by simp
    then show ?thesis using len unat_of_nat_small [of "length ?msg + 1"]
      by (simp add: add.commute)
  qed
  have s: "serialize_error m = Some (packet_of (tipo_code nipc_error) (er_client_id m) ?d)"
    using assms(1) len by (simp add: serialize_error_def)
  have ok: "packet_ok (packet_of (tipo_code nipc_error) (er_client_id m) ?d)"
    using len by (intro packet_ok_of) (auto simp: le32_def)
  have r: "read_u32 ?d 4 = Some ?n"
    using read_u32_mid [of 4 "le32 (er_errorCode m)" ?n ?msg] by simp
  have b: "read_buf ?d 8 (length ?msg) = Some ?msg"
    using read_buf_suffix [of 8 "le32 (er_errorCode m) @ le32 ?n" "length ?msg" ?msg] by simp
  show ?thesis
  proof (cases "?msg = []")
    case True
    then show ?thesis using ok assms(1) r
      by (simp add: s deserialize_error_def empty_nipc_error_def)
  next
    case False
    then have "?n > 0" using n by (metis length_0_conv unat_0 word_gt_0)
    then show ?thesis using ok assms(1) len r b n n1
      by (simp add: s deserialize_error_def empty_nipc_error_def)
  qed
qed

section \<open>Framing and malformed packets\<close>

text \<open>
  The framing is self-delimiting: a well-formed packet becomes 12 header bytes and its
  data, and the decoder gives it back whatever bytes follow it in the stream.
\<close>

theorem frame_self_delimiting:
  assumes "packet_ok p"
  shows "\<exists>raw. nipc_serialize p = Some raw \<and> length raw = 12 + unat (pkt_data_length p) \<and>
    nipc_deserialize (raw @ following) = Some p"
proof -
  have "length (case pkt_data p of None \<Rightarrow> [] | Some d \<Rightarrow> d) = unat (pkt_data_length p)"
    using assms by (auto simp: packet_ok_def split: option.splits)
  then show ?thesis
    using nipc_serialize_ok [OF assms] nipc_deserialize_ok [OF assms, of following] by simp
qed

text \<open>
  A decoder never checks \<open>data_length\<close>: decoding an \<open>open\<close> request is free of
  out-of-bounds reads exactly when the packet has data that holds a NUL followed by four more
  bytes. In particular a peer makes the server read out of bounds by sending an \<open>open\<close> packet
  with no data, without a NUL or cut short.
\<close>

theorem deserialize_open_defined_iff:
  "deserialize_open p \<noteq> None \<longleftrightarrow>
     (\<exists>path rest. is_cstr path \<and> 4 \<le> length rest \<and> pkt_data p = Some (path @ 0 # rest))"
proof
  assume "deserialize_open p \<noteq> None"
  then obtain d n path flags where d: "pkt_data p = Some d" "c_strlen d = Some n"
    "c_str d = Some path" "read_u32 d (n + 1) = Some flags"
    by (auto simp: deserialize_open_def bind_eq_Some_conv split: option.splits)
  then obtain rest where r: "is_cstr path" "d = path @ 0 # rest" using c_str_SomeD by blast
  then have "n = length path" using d(2) by simp
  moreover have "\<not> length d < n + 1 + 4" using d(4) read_u32_eq_None [of d "n + 1"] by simp
  ultimately show "\<exists>path rest. is_cstr path \<and> 4 \<le> length rest \<and> pkt_data p = Some (path @ 0 # rest)"
    using r d(1) by force
next
  assume "\<exists>path rest. is_cstr path \<and> 4 \<le> length rest \<and> pkt_data p = Some (path @ 0 # rest)"
  then obtain path rest where "is_cstr path" "4 \<le> length rest" "pkt_data p = Some (path @ 0 # rest)"
    by blast
  then show "deserialize_open p \<noteq> None"
    by (simp add: deserialize_open_def read_u32_def read_buf_def)
qed

text \<open>
  Every message type of the protocol has its name in the names table, so that the
  request log of the server is defined for all of them; the values 17 and 18 yield a null
  name and 19 reads past the table, although the guard is meant to reject invalid types.
\<close>

theorem nombre_del_enum_nipc_cases:
  "(\<forall>t. \<exists>name. nombre_del_enum_nipc (tipo_code t) = Some (Some name) \<and> name \<noteq> ''TIPO_INVALIDO'')
   \<and> nombre_del_enum_nipc 17 = Some None \<and> nombre_del_enum_nipc 18 = Some None
   \<and> nombre_del_enum_nipc 19 = None
   \<and> (\<forall>n > 19. nombre_del_enum_nipc n = Some (Some ''TIPO_INVALIDO''))"
proof -
  have "\<exists>name. nombre_del_enum_nipc (tipo_code t) = Some (Some name) \<and> name \<noteq> ''TIPO_INVALIDO''" for t
    by (cases t) (simp_all add: nombre_del_enum_nipc_def enum_nipc_names_def)
  then show ?thesis by (simp add: nombre_del_enum_nipc_def enum_nipc_names_def)
qed

section \<open>Witnesses\<close>

text \<open>The request a client writes three bytes with.\<close>

definition sample_write :: request where
  "sample_write = Req_write \<lparr>wt_nipcType = 3, wt_client_id = 7, wt_path = [47, 97],
     wt_data = [1, 0, 255], wt_size = 3, wt_offset = 1024\<rparr>"

theorem request_over_the_wire_witness:
  "request_ok sample_write \<and>
   do { p \<leftarrow> serialize_request sample_write; q \<leftarrow> transmit p; decode_request q }
     = Some (Some sample_write)"
proof -
  have ok: "request_ok sample_write"
    by (simp add: sample_write_def write_ok_def path_ok_def is_cstr_def)
  then show ?thesis using request_over_the_wire [OF ok] by simp
qed

definition sample_listing :: nipc_readdir_response_t where
  "sample_listing = \<lparr>rr_nipcType = 14, rr_client_id = 7, rr_entriesLength = 2,
     rr_entries = [\<lparr>re_path = Some [46], re_mode = 16877, re_size = 1024, re_n_link = 2,
       re_blocks = 2\<rparr>, \<lparr>re_path = Some [97, 98], re_mode = 33188, re_size = 5,
       re_n_link = 1, re_blocks = 2\<rparr>]\<rparr>"

theorem readdir_response_over_the_wire_witness:
  "listing_ok sample_listing \<and>
   do { p \<leftarrow> serialize_readdir_response sample_listing; q \<leftarrow> transmit p;
        deserialize_readdir_response 99 q } = Some (sample_listing\<lparr>rr_client_id := 99\<rparr>)"
proof -
  have ok: "listing_ok sample_listing"
    by (simp add: sample_listing_def listing_ok_def entry_ok_def path_ok_def is_cstr_def
        entry_bytes_def)
  then show ?thesis using readdir_response_over_the_wire [OF ok, of 99] by simp
qed

definition sample_attributes :: nipc_getattr_response_t where
  "sample_attributes = \<lparr>gr_nipcType = 15, gr_client_id = 7, gr_entry = \<lparr>re_path = None,
     re_mode = 33188, re_size = 5, re_n_link = 1, re_blocks = 2\<rparr>\<rparr>"

theorem getattr_response_over_the_wire_witness:
  "do { p \<leftarrow> serialize_getattr_response sample_attributes; q \<leftarrow> transmit p;
        r \<leftarrow> deserialize_getattr_response 99 q; Some (pkt_client_id q, r) }
   = Some (0, sample_attributes\<lparr>gr_client_id := 99\<rparr>)"
  using getattr_response_over_the_wire [of sample_attributes 99]
  by (simp add: sample_attributes_def)

definition sample_error :: nipc_error_t where
  "sample_error = \<lparr>er_nipcType = 11, er_client_id = 7, er_errorCode = - 2,
     er_errorMessage = [110, 111]\<rparr>"

theorem error_over_the_wire_witness:
  "do { p \<leftarrow> serialize_error sample_error; q \<leftarrow> transmit p; deserialize_error q }
   = Some (sample_error\<lparr>er_client_id := 0\<rparr>)"
  using error_over_the_wire [of sample_error]
  by (simp add: sample_error_def path_ok_def is_cstr_def)

theorem frame_self_delimiting_witness:
  "\<exists>raw. nipc_serialize (new_nipc_ok 7) = Some raw \<and> length raw = 12 \<and>
     nipc_deserialize (raw @ [1, 2, 3]) = Some (new_nipc_ok 7)"
  using frame_self_delimiting [of "new_nipc_ok 7" "[1, 2, 3]"]
  by (simp add: packet_ok_def new_nipc_ok_def)

theorem nombre_del_enum_nipc_cases_witness:
  "nombre_del_enum_nipc (tipo_code nipc_handshake) \<noteq> None \<and>
   nombre_del_enum_nipc 20 = Some (Some ''TIPO_INVALIDO'')"
proof -
  have "\<exists>name. nombre_del_enum_nipc (tipo_code nipc_handshake) = Some (Some name)"
    "(20 :: u32) > 19 \<longrightarrow> nombre_del_enum_nipc 20 = Some (Some ''TIPO_INVALIDO'')"
    using nombre_del_enum_nipc_cases by blast+
  then show ?thesis by auto
qed

end
