(* ===== verification/Sockets.thy ===== *)
theory Sockets
  imports Protocol
begin

text \<open>
  \<open>commons/src/sockets/sockets.c\<close>: sending and receiving a packet over a non-blocking stream. The operating system is
  explicit: a script of the results of the calls of \<open>send\<close> or \<open>recv\<close>, in order, and the bytes that arrive.
  \<open>None\<close> is undefined behaviour, or a script that ends while the code still waits. The bytes of the header block
  before anything is received are the argument \<open>basura\<close>. Addresses, options of the socket and closing it are left
  out, and so are messages of 2 GB and more.
\<close>

section \<open>Results of the system calls\<close>

text \<open>A positive number of bytes, or -1 with an \<open>errno\<close>.\<close>

datatype send_result = Sent nat | Send_errno u32

text \<open>The number of bytes available in the stream, the end of the connection, or -1 with an \<open>errno\<close>.\<close>

datatype recv_result = Available nat | Disconnected | Recv_errno u32

definition EAGAIN :: u32 where "EAGAIN = 11"
definition EBADF :: u32 where "EBADF = 9"

section \<open>Sending\<close>

text \<open>
  The loop of \<open>nipc_send\<close>: the bytes put on the stream so far are the last argument. A result of -1 with \<open>EAGAIN\<close> is
  added to \<open>sentBytes\<close>; a negative \<open>sentBytes\<close> is a huge unsigned number, so that the loop ends.
\<close>

fun send_loop :: "buffer \<Rightarrow> int \<Rightarrow> send_result list \<Rightarrow> buffer \<Rightarrow> (int \<times> buffer) option" where
  "send_loop raw sentBytes script wire =
     (if 0 \<le> sentBytes \<and> sentBytes < int (length raw)
      then (case script of
          [] \<Rightarrow> None
        | Sent n # rest \<Rightarrow> do {
            bytes \<leftarrow> read_buf raw (nat sentBytes) n;
            send_loop raw (sentBytes + int n) rest (wire @ bytes) }
        | Send_errno e # rest \<Rightarrow>
            (if e \<noteq> EAGAIN then Some (-1, wire) else send_loop raw (sentBytes - 1) rest wire))
      else Some (sentBytes, wire))"

declare send_loop.simps [simp del]

definition nipc_send :: "nipc_packet \<Rightarrow> send_result list \<Rightarrow> (int \<times> buffer) option" where
  "nipc_send request script = do {
     rawRequest \<leftarrow> nipc_serialize request;
     send_loop rawRequest 0 script [] }"

section \<open>Receiving\<close>

text \<open>
  The first loop peeks at the header: every \<open>recv\<close> starts again at the front of the stream and of the block. The
  result is the packet of an error, or the block and what is left of the script.
\<close>

fun header_loop :: "buffer \<Rightarrow> buffer \<Rightarrow> nat \<Rightarrow> recv_result list \<Rightarrow> (nipc_error_t + buffer \<times> recv_result list) option" where
  "header_loop stream header received script =
     (if received < 12
      then (case script of
          [] \<Rightarrow> None
        | Available n # rest \<Rightarrow> do {
            bytes \<leftarrow> read_buf stream 0 (min n 12);
            header_loop stream (bytes @ drop (length bytes) header) (received + length bytes) rest }
        | Disconnected # rest \<Rightarrow> Some (Inl (new_nipc_error (- EBADF) (str ''Desconectado del servidor'')))
        | Recv_errno e # rest \<Rightarrow>
            (if e = EAGAIN then header_loop stream header received rest
             else Some (Inl (new_nipc_error (- e) (str ''Error recibiendo cabecera'')))))
      else Some (Inr (header, script)))"

declare header_loop.simps [simp del]

text \<open>The second loop takes the message off the stream.\<close>

fun message_loop :: "buffer \<Rightarrow> nat \<Rightarrow> buffer \<Rightarrow> recv_result list \<Rightarrow> (nipc_error_t + buffer \<times> buffer) option" where
  "message_loop stream messageSize message script =
     (if length message < messageSize
      then (case script of
          [] \<Rightarrow> None
        | Available n # rest \<Rightarrow> do {
            bytes \<leftarrow> read_buf stream 0 (min n (messageSize - length message));
            message_loop (drop (length bytes) stream) messageSize (message @ bytes) rest }
        | Disconnected # rest \<Rightarrow> Some (Inl (new_nipc_error (- EBADF) (str ''Desconectado del servidor'')))
        | Recv_errno e # rest \<Rightarrow>
            (if e = EAGAIN then message_loop stream messageSize message rest
             else Some (Inl (new_nipc_error (- e) (str ''Error recibiendo paquete'')))))
      else Some (Inr (message, stream)))"

declare message_loop.simps [simp del]

text \<open>The packet received, or the packet of the error, and the rest of the stream.\<close>

definition nipc_receive :: "buffer \<Rightarrow> buffer \<Rightarrow> recv_result list \<Rightarrow> (nipc_packet \<times> buffer) option" where
  "nipc_receive basura stream script = do {
     h \<leftarrow> header_loop stream basura 0 script;
     (case h of
        Inl e \<Rightarrow> do { p \<leftarrow> serialize_error e; Some (p, stream) }
      | Inr (header, script1) \<Rightarrow> do {
          n \<leftarrow> read_u32 header 8;
          let messageSize = unat (12 + n);
          ensure (messageSize < 2 ^ 31);
          m \<leftarrow> message_loop stream messageSize [] script1;
          (case m of
             Inl e \<Rightarrow> do { p \<leftarrow> serialize_error e; Some (p, stream) }
           | Inr (message, stream1) \<Rightarrow> do { p \<leftarrow> nipc_deserialize message; Some (p, stream1) }) }) }"

section \<open>A query\<close>

text \<open>
  The network between a client and a server, with a state of its own: the results of the calls of \<open>send\<close> for a frame,
  and, for the bytes put on the stream, the bytes that come back, the results of the calls of \<open>recv\<close>, and the
  contents of the header block.
\<close>

record 'n network =
  net_send :: "'n \<Rightarrow> buffer \<Rightarrow> send_result list"
  net_reply :: "'n \<Rightarrow> buffer \<Rightarrow> (buffer \<times> recv_result list \<times> buffer) \<times> 'n"

definition nipc_query :: "'n network \<Rightarrow> nipc_packet \<Rightarrow> 'n \<Rightarrow> (nipc_packet \<times> 'n) option" where
  "nipc_query net request n = do {
     raw \<leftarrow> nipc_serialize request;
     (sent, wire) \<leftarrow> nipc_send request (net_send net n raw);
     (let ((stream, script, basura), n1) = net_reply net n wire in
      if sent < 0
      then do { p \<leftarrow> serialize_error (new_nipc_error_message (str ''Error enviando paquete'')); Some (p, n1) }
      else do { (response, _) \<leftarrow> nipc_receive basura stream script; Some (response, n1) }) }"

section \<open>Sending works without \<open>EAGAIN\<close>\<close>

lemma send_chunks:
  "k + sum_list cs = length raw \<Longrightarrow>
   send_loop raw (int k) (map Sent cs) wire = Some (int (length raw), wire @ drop k raw)"
proof (induction cs arbitrary: k wire)
  case Nil
  then show ?case by (subst send_loop.simps) simp
next
  case (Cons c cs)
  show ?case
  proof (cases "k < length raw")
    case True
    have "take c (drop k raw) @ drop (k + c) raw = drop k raw"
      by (metis append_take_drop_id drop_drop add.commute)
    then show ?thesis using Cons.IH [of "k + c" "wire @ take c (drop k raw)"] Cons.prems True
      by (subst send_loop.simps) (simp add: read_buf_def)
  qed (use Cons.prems in \<open>subst send_loop.simps, simp\<close>)
qed

lemma nipc_send_chunks:
  assumes "nipc_serialize p = Some raw" and "sum_list cs = length raw"
  shows "nipc_send p (map Sent cs) = Some (int (length raw), raw)"
  using send_chunks [of 0 cs raw "[]"] assms by (simp add: nipc_send_def)

lemma send_until:
  "k + sum_list cs < length raw \<Longrightarrow>
   send_loop raw (int k) (map Sent cs @ script) wire = send_loop raw (int (k + sum_list cs)) script (wire @ take (sum_list cs) (drop k raw))"
proof (induction cs arbitrary: k wire)
  case (Cons c cs)
  have "send_loop raw (int k) (map Sent (c # cs) @ script) wire =
      send_loop raw (int (k + c)) (map Sent cs @ script) (wire @ take c (drop k raw))"
    using Cons.prems by (subst send_loop.simps) (simp add: read_buf_def)
  then show ?case using Cons.IH [of "k + c" "wire @ take c (drop k raw)"] Cons.prems
    using take_add [of c "sum_list cs" "drop k raw"] by (simp add: add.assoc add.commute [of c k])
qed simp

text \<open>
  What \<open>EAGAIN\<close> does to a frame: the -1 of the failed \<open>send\<close> is added to the count. When nothing was sent yet,
  \<open>nipc_send\<close> ends with the result -1 that its callers take for an error, and no byte is on the stream; after
  \<open>m\<close> bytes of the frame the last of them is sent again, so that the frame on the stream is one byte too long.
\<close>

theorem send_again:
  assumes "nipc_serialize p = Some raw" and "sum_list cs = m" and "m < length raw"
    and "0 < m \<longrightarrow> sum_list ds = length raw - (m - 1)"
  shows "nipc_send p (map Sent cs @ Send_errno EAGAIN # map Sent ds) =
    (if m = 0 then Some (-1, []) else Some (int (length raw), take m raw @ drop (m - 1) raw))"
proof -
  have "nipc_send p (map Sent cs @ Send_errno EAGAIN # map Sent ds) =
      send_loop raw (int m) (Send_errno EAGAIN # map Sent ds) (take m raw)"
    using send_until [of 0 cs raw "Send_errno EAGAIN # map Sent ds" "[]"] assms(1-3) by (simp add: nipc_send_def)
  also have "\<dots> = send_loop raw (int m - 1) (map Sent ds) (take m raw)"
    using assms(3) by (subst send_loop.simps) simp
  finally have e: "nipc_send p (map Sent cs @ Send_errno EAGAIN # map Sent ds) = \<dots>" .
  show ?thesis
  proof (cases "m = 0")
    case True
    have "send_loop raw (-1) (map Sent ds) [] = Some (-1, [])" by (subst send_loop.simps) simp
    then show ?thesis using e True by simp
  next
    case False
    then have "int m - 1 = int (m - 1)" by simp
    then show ?thesis using e False send_chunks [of "m - 1" ds raw "take m raw"] assms(3,4) by simp
  qed
qed

section \<open>Receiving a frame\<close>

text \<open>A script without errors, and the number of bytes it gives.\<close>

fun polite :: "recv_result list \<Rightarrow> bool" where
  "polite [] = True"
| "polite (Available n # s) = polite s"
| "polite (Recv_errno e # s) = (e = EAGAIN \<and> polite s)"
| "polite (Disconnected # s) = False"

fun arriving :: "recv_result list \<Rightarrow> nat" where
  "arriving [] = 0"
| "arriving (Available n # s) = n + arriving s"
| "arriving (r # s) = arriving s"

lemma message_polite:
  "polite script \<Longrightarrow> length body \<le> arriving script \<Longrightarrow>
   message_loop (body @ following) (length message + length body) message script = Some (Inr (message @ body, following))"
proof (induction script arbitrary: message body rule: polite.induct)
  case 1
  then show ?case by (subst message_loop.simps) simp
next
  case (2 n s)
  show ?case
  proof (cases "body = []")
    case False
    let ?t = "min n (length body)"
    have e: "drop ?t (body @ following) = drop ?t body @ following" by simp
    have l: "length (message @ take ?t body) + length (drop ?t body) = length message + length body" by simp
    have "message_loop (body @ following) (length message + length body) message (Available n # s) =
        message_loop (drop ?t body @ following) (length (message @ take ?t body) + length (drop ?t body)) (message @ take ?t body) s"
      using False by (subst message_loop.simps) (simp add: read_buf_def min.coboundedI2 l [simplified] min.commute)
    also have "\<dots> = Some (Inr ((message @ take ?t body) @ drop ?t body, following))"
      using "2.prems" by (intro "2.IH") auto
    finally show ?thesis by simp
  qed (subst message_loop.simps, simp)
next
  case (3 e s)
  show ?case
  proof (cases "body = []")
    case False
    then show ?thesis using "3.IH" [of body message] "3.prems" by (subst message_loop.simps) simp
  qed (subst message_loop.simps, simp)
next
  case (4 s)
  then show ?case by simp
qed

lemma header_waits:
  "received < 12 \<Longrightarrow> header_loop stream header received (replicate i (Recv_errno EAGAIN) @ script) = header_loop stream header received script"
proof (induction i)
  case (Suc i)
  then show ?case by (subst header_loop.simps) simp
qed simp

text \<open>The bytes of a packet on the stream.\<close>

definition frame_of :: "nipc_packet \<Rightarrow> buffer" where
  "frame_of p = le32 (pkt_type p) @ le32 (pkt_client_id p) @ le32 (pkt_data_length p) @
     (case pkt_data p of None \<Rightarrow> [] | Some d \<Rightarrow> d)"

lemma frame_of_facts:
  assumes "packet_ok p"
  shows "nipc_serialize p = Some (frame_of p)" "nipc_deserialize (frame_of p) = Some p"
    "length (frame_of p) = 12 + unat (pkt_data_length p)" "read_u32 (take 12 (frame_of p)) 8 = Some (pkt_data_length p)"
proof -
  show "nipc_serialize p = Some (frame_of p)" "nipc_deserialize (frame_of p) = Some p"
    using nipc_serialize_ok [OF assms] nipc_deserialize_ok [OF assms, of "[]"] by (simp_all add: frame_of_def)
  show "length (frame_of p) = 12 + unat (pkt_data_length p)"
    using assms by (auto simp: frame_of_def packet_ok_def split: option.splits)
  have "take 12 (frame_of p) = le32 (pkt_type p) @ le32 (pkt_client_id p) @ le32 (pkt_data_length p) @ []"
    by (simp add: frame_of_def)
  then show "read_u32 (take 12 (frame_of p)) 8 = Some (pkt_data_length p)" by (simp only: read_header)
qed

lemma receive_rest:
  assumes "packet_ok p" and "unat (pkt_data_length p) + 12 < 2 ^ 31" and "length basura = 12"
    and "12 \<le> k" and "polite script" and "12 + unat (pkt_data_length p) \<le> arriving script"
  shows "nipc_receive basura (frame_of p @ following) (replicate i (Recv_errno EAGAIN) @ Available k # script) = Some (p, following)"
proof -
  note f = frame_of_facts [OF assms(1)]
  have sz: "unat (12 + pkt_data_length p) = 12 + unat (pkt_data_length p)" using unat_add_12 [of "pkt_data_length p"] assms(2) by simp
  have "header_loop (frame_of p @ following) basura 0 (replicate i (Recv_errno EAGAIN) @ Available k # script) =
      header_loop (frame_of p @ following) (take 12 (frame_of p)) 12 script"
    using assms(3,4) f(3) by (simp add: header_waits) (subst header_loop.simps, simp add: read_buf_def)
  also have "\<dots> = Some (Inr (take 12 (frame_of p), script))" by (subst header_loop.simps) simp
  finally have h: "header_loop (frame_of p @ following) basura 0 (replicate i (Recv_errno EAGAIN) @ Available k # script) = \<dots>" .
  have "message_loop (frame_of p @ following) (12 + unat (pkt_data_length p)) [] script = Some (Inr (frame_of p, following))"
    using message_polite [OF assms(5), of "frame_of p" following "[]"] assms(6) f(3) by simp
  then show ?thesis using h f sz assms(2) by (simp add: nipc_receive_def)
qed

text \<open>
  C21. A packet survives the sockets: for every division of the frame into the chunks that \<open>send\<close> accepts, and every way
  the bytes arrive in the second loop of \<open>nipc_receive\<close>, calls that would block included, the receiver gets the
  packet and leaves what follows on the stream, provided the first peek that sees something sees the whole header.
\<close>

theorem send_receive:
  assumes "packet_ok p" and "unat (pkt_data_length p) + 12 < 2 ^ 31" and "length basura = 12"
    and "sum_list cs = 12 + unat (pkt_data_length p)"
    and "12 \<le> k" and "polite script" and "12 + unat (pkt_data_length p) \<le> arriving script"
  shows "\<exists>wire. nipc_send p (map Sent cs) = Some (int (length wire), wire) \<and>
    nipc_receive basura (wire @ following) (replicate i (Recv_errno EAGAIN) @ Available k # script) = Some (p, following)"
  using nipc_send_chunks [OF frame_of_facts(1) [OF assms(1)], of cs] frame_of_facts(3) [OF assms(1)] assms(4)
    receive_rest [OF assms(1-3,5-7)] by auto

text \<open>
  A header that arrives in two parts: the peek starts again at the front but the bytes seen are added up, so that
  after two peeks of six bytes the loop takes the header for complete and the size of the message is whatever
  was in the block of the header. When that is less than the size of the packet, decoding reads past the message.
\<close>

theorem receive_short_peek:
  assumes "packet_ok p" and "read_u32 basura 8 = Some n" and "length basura = 12"
    and "n < pkt_data_length p" and "unat n + 12 < 2 ^ 31" and "polite script" and "12 + unat n \<le> arriving script"
  shows "nipc_receive basura (frame_of p @ following) (Available 6 # Available 6 # script) = None"
proof -
  note f = frame_of_facts [OF assms(1)]
  let ?h = "take 6 (frame_of p) @ drop 6 basura"
  have "header_loop (frame_of p @ following) basura 0 (Available 6 # Available 6 # script) =
      header_loop (frame_of p @ following) ?h 6 (Available 6 # script)"
    using f(3) by (subst header_loop.simps) (simp add: read_buf_def)
  also have "\<dots> = header_loop (frame_of p @ following) ?h 12 script"
    using f(3) by (subst header_loop.simps) (simp add: read_buf_def)
  also have "\<dots> = Some (Inr (?h, script))" by (subst header_loop.simps) simp
  finally have h: "header_loop (frame_of p @ following) basura 0 (Available 6 # Available 6 # script) = \<dots>" .
  have "drop 8 ?h = drop 8 basura" using f(3) by simp
  then have r: "read_u32 ?h 8 = Some n" using assms(2,3) f(3) by (simp add: read_u32_def read_buf_def)
  have lt: "unat n < unat (pkt_data_length p)" using assms(4) by (simp add: word_less_nat_alt)
  let ?m = "take (12 + unat n) (frame_of p)"
  have sp: "frame_of p @ following = ?m @ drop (12 + unat n) (frame_of p) @ following" by simp
  have lm: "length ?m = 12 + unat n" using f(3) lt by simp
  have m: "message_loop (frame_of p @ following) (12 + unat n) [] script = Some (Inr (?m, drop (12 + unat n) (frame_of p) @ following))"
    using message_polite [OF assms(6), of ?m "drop (12 + unat n) (frame_of p) @ following" "[]"] assms(7) lm
    unfolding sp [symmetric] by simp
  have hd: "take (12 + unat n) (frame_of p) = le32 (pkt_type p) @ le32 (pkt_client_id p) @ le32 (pkt_data_length p) @
      take (unat n) (case pkt_data p of None \<Rightarrow> [] | Some d \<Rightarrow> d)" by (simp add: frame_of_def)
  have "nipc_deserialize ?m = None"
    using lt unfolding hd nipc_deserialize_def by (auto simp: read_buf_def)
  then show ?thesis using h r m unat_add_12 [of n] assms(5) by (simp add: nipc_receive_def)
qed

section \<open>A network that delivers\<close>

text \<open>
  The network carries a request to the handler \<open>h\<close> and its answer back, in any chunks, without \<open>EAGAIN\<close> on the way
  out, and shows the header of the answer at once.
\<close>

definition delivers :: "'n network \<Rightarrow> (nipc_packet \<Rightarrow> 'n \<Rightarrow> (nipc_packet \<times> 'n) option) \<Rightarrow> bool" where
  "delivers net h \<longleftrightarrow>
     (\<forall>n raw. \<exists>cs. net_send net n raw = map Sent cs \<and> sum_list cs = length raw) \<and>
     (\<forall>n p r n'. packet_ok p \<and> h p n = Some (r, n') \<longrightarrow>
        (\<exists>following i k script basura. 12 \<le> k \<and> length basura = 12 \<and> polite script \<and>
           12 + unat (pkt_data_length r) \<le> arriving script \<and>
           net_reply net n (frame_of p) =
             ((frame_of r @ following, replicate i (Recv_errno EAGAIN) @ Available k # script, basura), n')))"

lemma query_delivered:
  assumes "delivers net h" and "packet_ok p" and "h p n = Some (r, n')" and "packet_ok r" and "unat (pkt_data_length r) + 12 < 2 ^ 31"
  shows "nipc_query net p n = Some (r, n')"
proof -
  obtain cs where cs: "net_send net n (frame_of p) = map Sent cs" "sum_list cs = length (frame_of p)"
    using assms(1) unfolding delivers_def by blast
  obtain following i k script basura where r: "12 \<le> k" "length basura = 12" "polite script"
      "12 + unat (pkt_data_length r) \<le> arriving script"
      "net_reply net n (frame_of p) = ((frame_of r @ following, replicate i (Recv_errno EAGAIN) @ Available k # script, basura), n')"
    using assms(1-3) unfolding delivers_def by blast
  note f = frame_of_facts [OF assms(2)]
  have "nipc_send p (map Sent cs) = Some (int (length (frame_of p)), frame_of p)" by (rule nipc_send_chunks [OF f(1) cs(2)])
  then show ?thesis using f(1) cs(1) r(5) receive_rest [OF assms(4,5) r(2,1,3,4)] by (simp add: nipc_query_def)
qed

text \<open>A direct line to a handler.\<close>

definition line :: "(nipc_packet \<Rightarrow> 'n \<Rightarrow> (nipc_packet \<times> 'n) option) \<Rightarrow> 'n network" where
  "line h = \<lparr>net_send = (\<lambda>n raw. [Sent (length raw)]),
     net_reply = (\<lambda>n wire. case Option.bind (nipc_deserialize wire) (\<lambda>p. h p n) of
        None \<Rightarrow> (([], [], []), n)
      | Some (r, n') \<Rightarrow> ((frame_of r, [Available 12, Available (12 + unat (pkt_data_length r))], replicate 12 0), n'))\<rparr>"

lemma delivers_line: "delivers (line h) h"
  unfolding delivers_def
proof (intro conjI allI impI)
  fix n :: 'a and raw :: buffer
  show "\<exists>cs. net_send (line h) n raw = map Sent cs \<and> sum_list cs = length raw"
    by (intro exI [of _ "[length raw]"]) (simp add: line_def)
next
  fix n n' p r assume "packet_ok p \<and> h p n = Some (r, n')"
  then have "net_reply (line h) n (frame_of p) = ((frame_of r @ [], replicate 0 (Recv_errno EAGAIN) @ Available 12 #
      [Available (12 + unat (pkt_data_length r))], replicate 12 0), n')"
    using frame_of_facts(2) [of p] by (simp add: line_def)
  then show "\<exists>following i k script basura. 12 \<le> k \<and> length basura = 12 \<and> polite script \<and>
           12 + unat (pkt_data_length r) \<le> arriving script \<and>
           net_reply (line h) n (frame_of p) =
             ((frame_of r @ following, replicate i (Recv_errno EAGAIN) @ Available k # script, basura), n')"
    by (intro exI [of _ "[]"] exI [of _ 0] exI [of _ 12] exI [of _ "[Available (12 + unat (pkt_data_length r))]"]
        exI [of _ "replicate 12 0"]) simp
qed

section \<open>Witnesses\<close>

lemma sample_packet_ok: "packet_ok (new_nipc_read_response (Some [1, 2, 3]) 3 7)"
  by (simp add: packet_ok_def new_nipc_read_response_def)

lemma ok_packet_ok: "packet_ok (new_nipc_ok c)"
  by (simp add: packet_ok_def new_nipc_ok_def)

theorem send_again_witness:
  "nipc_send (new_nipc_ok 7) (map Sent [8] @ Send_errno EAGAIN # map Sent [5]) =
     Some (12, take 8 (frame_of (new_nipc_ok 7)) @ drop 7 (frame_of (new_nipc_ok 7)))"
proof -
  have "length (frame_of (new_nipc_ok 7)) = 12"
    using frame_of_facts(3) [OF ok_packet_ok] by (simp add: new_nipc_ok_def)
  then show ?thesis using send_again [OF frame_of_facts(1) [OF ok_packet_ok], of "[8]" 8 7 "[5]"] by simp
qed

theorem send_receive_witness:
  "\<exists>wire. nipc_send (new_nipc_read_response (Some [1, 2, 3]) 3 7) (map Sent [5, 10]) = Some (int (length wire), wire) \<and>
     nipc_receive (replicate 12 0) (wire @ [9]) (replicate 1 (Recv_errno EAGAIN) @ Available 16 #
       [Available 4, Recv_errno EAGAIN, Available 11]) = Some (new_nipc_read_response (Some [1, 2, 3]) 3 7, [9])"
  by (rule send_receive [OF sample_packet_ok]) (simp_all add: new_nipc_read_response_def)

theorem receive_short_peek_witness:
  "nipc_receive (replicate 12 0) (frame_of (new_nipc_read_response (Some [1, 2, 3]) 3 7) @ [])
     (Available 6 # Available 6 # [Available 15]) = None"
proof -
  have "read_u32 (replicate 12 0) 8 = Some 0" by code_simp
  then show ?thesis by (intro receive_short_peek [OF sample_packet_ok, where n = 0]) (simp_all add: new_nipc_read_response_def)
qed

end
