(* ===== verification/Bitarray.thy ===== *)
theory Bitarray
  imports Base
begin

unbundle bit_operations_syntax

text \<open>
  \<open>commons/src/commons/bitarray.c\<close> and the macros of \<open>bitarray.h\<close>. A bit array is a view
  of memory: an address and a size in bytes; the operations do not look at the size. Bit
  indices are non-negative, as every caller passes them.
  The locale \<open>bit_view\<close> is the contract the block and inode bitmaps of the file system rely on.
\<close>

record t_bitarray =
  ba_bitarray :: nat
  ba_size :: nat

definition BIT_CHAR :: "nat \<Rightarrow> nat" where
  "BIT_CHAR b = b div 8"

definition BIT_IN_CHAR :: "nat \<Rightarrow> byte" where
  "BIT_IN_CHAR b = drop_bit (8 - 1 - b mod 8) 0x80"

definition bitarray_create :: "nat \<Rightarrow> nat \<Rightarrow> t_bitarray" where
  "bitarray_create bitarray sz = \<lparr>ba_bitarray = bitarray, ba_size = sz\<rparr>"

definition bitarray_test_bit :: "mem \<Rightarrow> t_bitarray \<Rightarrow> nat \<Rightarrow> bool" where
  "bitarray_test_bit m self bit_index =
     (m (ba_bitarray self + BIT_CHAR bit_index) AND BIT_IN_CHAR bit_index \<noteq> 0)"

definition bitarray_set_bit :: "mem \<Rightarrow> t_bitarray \<Rightarrow> nat \<Rightarrow> mem" where
  "bitarray_set_bit m self bit_index = (let a = ba_bitarray self + BIT_CHAR bit_index in
     m(a := m a OR BIT_IN_CHAR bit_index))"

definition bitarray_clean_bit :: "mem \<Rightarrow> t_bitarray \<Rightarrow> nat \<Rightarrow> mem" where
  "bitarray_clean_bit m self bit_index =
     (let a = ba_bitarray self + BIT_CHAR bit_index; mask = NOT (BIT_IN_CHAR bit_index) in
      m(a := m a AND mask))"

definition bitarray_get_max_bit :: "t_bitarray \<Rightarrow> nat" where
  "bitarray_get_max_bit self = ba_size self * 8"

section \<open>Bits of the view\<close>

lemma BIT_IN_CHAR_push: "BIT_IN_CHAR b = push_bit (b mod 8) 1"
proof -
  have "b mod 8 \<in> {0, 1, 2, 3, 4, 5, 6, 7}" by auto
  then show ?thesis by (auto simp: BIT_IN_CHAR_def)
qed

lemma bit_BIT_IN_CHAR: "bit (BIT_IN_CHAR b) n \<longleftrightarrow> n = b mod 8"
  by (auto simp: BIT_IN_CHAR_push bit_simps)

lemma test_bit_bit: "bitarray_test_bit m self i \<longleftrightarrow> bit (m (ba_bitarray self + i div 8)) (i mod 8)"
proof -
  have "x AND BIT_IN_CHAR i \<noteq> 0 \<longleftrightarrow> bit x (i mod 8)" for x :: byte
  proof -
    have "x AND BIT_IN_CHAR i = 0 \<longleftrightarrow> (\<forall>n. \<not> bit (x AND BIT_IN_CHAR i) n)"
      by (metis bit_0_eq bit_word_eqI bot_apply bot_bool_def)
    then show ?thesis by (auto simp: bit_simps bit_BIT_IN_CHAR)
  qed
  then show ?thesis by (simp add: bitarray_test_bit_def BIT_CHAR_def)
qed

lemma index_eq_iff: "i div 8 = j div 8 \<and> i mod 8 = j mod 8 \<longleftrightarrow> i = (j :: nat)"
  by (metis mult_div_mod_eq)

lemma test_set_bit: "bitarray_test_bit (bitarray_set_bit m self i) self j \<longleftrightarrow> i = j \<or> bitarray_test_bit m self j"
  using index_eq_iff [of i j]
  by (auto simp: test_bit_bit bitarray_set_bit_def BIT_CHAR_def Let_def bit_simps bit_BIT_IN_CHAR)

lemma test_clean_bit: "bitarray_test_bit (bitarray_clean_bit m self i) self j \<longleftrightarrow> i \<noteq> j \<and> bitarray_test_bit m self j"
  using index_eq_iff [of i j]
  by (auto simp: test_bit_bit bitarray_clean_bit_def BIT_CHAR_def Let_def bit_simps bit_BIT_IN_CHAR)

lemma clean_set_bit: "\<not> bitarray_test_bit m self i \<Longrightarrow> bitarray_clean_bit (bitarray_set_bit m self i) self i = m"
  by (auto simp: test_bit_bit bitarray_clean_bit_def bitarray_set_bit_def BIT_CHAR_def Let_def
      fun_eq_iff bit_simps bit_BIT_IN_CHAR intro!: bit_word_eqI)

lemma set_clean_bit: "bitarray_test_bit m self i \<Longrightarrow> bitarray_set_bit (bitarray_clean_bit m self i) self i = m"
  by (auto simp: test_bit_bit bitarray_clean_bit_def bitarray_set_bit_def BIT_CHAR_def Let_def
      fun_eq_iff bit_simps bit_BIT_IN_CHAR intro!: bit_word_eqI)

section \<open>The contract\<close>

locale bit_view =
  fixes test :: "mem \<Rightarrow> 'v \<Rightarrow> nat \<Rightarrow> bool"
    and setb :: "mem \<Rightarrow> 'v \<Rightarrow> nat \<Rightarrow> mem"
    and clr :: "mem \<Rightarrow> 'v \<Rightarrow> nat \<Rightarrow> mem"
  assumes test_setb: "test (setb m v i) v j \<longleftrightarrow> i = j \<or> test m v j"
    and test_clr: "test (clr m v i) v j \<longleftrightarrow> i \<noteq> j \<and> test m v j"
    and clr_setb: "\<not> test m v i \<Longrightarrow> clr (setb m v i) v i = m"
    and setb_clr: "test m v i \<Longrightarrow> setb (clr m v i) v i = m"
begin

text \<open>The number of clear bits among the first \<open>n\<close>: what a free counter counts.\<close>

definition free_bits :: "mem \<Rightarrow> 'v \<Rightarrow> nat \<Rightarrow> nat" where
  "free_bits m v n = card {i. i < n \<and> \<not> test m v i}"

lemma free_bits_setb:
  assumes "i < n" and "\<not> test m v i"
  shows "Suc (free_bits (setb m v i) v n) = free_bits m v n"
proof -
  have "{j. j < n \<and> \<not> test m v j} = insert i {j. j < n \<and> \<not> test (setb m v i) v j}"
    using assms by (auto simp: test_setb)
  moreover have "i \<notin> {j. j < n \<and> \<not> test (setb m v i) v j}" by (simp add: test_setb)
  ultimately show ?thesis by (simp add: free_bits_def)
qed

lemma free_bits_clr:
  assumes "i < n" and "test m v i"
  shows "free_bits (clr m v i) v n = Suc (free_bits m v n)"
  using free_bits_setb [of i n "clr m v i" v] assms by (simp add: test_clr setb_clr)

end

interpretation ba: bit_view bitarray_test_bit bitarray_set_bit bitarray_clean_bit
  by unfold_locales (simp_all add: test_set_bit test_clean_bit clean_set_bit set_clean_bit)

text \<open>
  The bit array is exact: setting a bit makes that bit test true and changes no other
  bit, cleaning it makes it test false and changes no other bit, and cleaning a bit that was
  just set from clear restores every byte of memory.
\<close>

theorem bitarray_laws:
  "(bitarray_test_bit (bitarray_set_bit m self i) self j \<longleftrightarrow> i = j \<or> bitarray_test_bit m self j) \<and>
   (bitarray_test_bit (bitarray_clean_bit m self i) self j \<longleftrightarrow> i \<noteq> j \<and> bitarray_test_bit m self j) \<and>
   (\<not> bitarray_test_bit m self i \<longrightarrow> bitarray_clean_bit (bitarray_set_bit m self i) self i = m)"
  by (simp add: ba.test_setb ba.test_clr ba.clr_setb)

theorem bitarray_laws_witness:
  "bitarray_clean_bit (bitarray_set_bit (\<lambda>_. 0) (bitarray_create 100 2) 9) (bitarray_create 100 2) 9
     = (\<lambda>_. 0)"
proof -
  have "\<not> bitarray_test_bit (\<lambda>_. 0) (bitarray_create 100 2) 9"
    by (simp add: bitarray_test_bit_def)
  then show ?thesis
    using bitarray_laws [of "\<lambda>_. 0" "bitarray_create 100 2" 9 9] by blast
qed

end
