(* ===== verification/Ext2.thy ===== *)
theory Ext2
  imports Bitarray
begin

unbundle bit_operations_syntax

text \<open>
  The on-disk structures of the ext2 file system and the block and inode allocators of
  \<open>rfs/src/funciones_rfs.c\<close>. The mapped disk image is byte-addressed memory, and a pointer into it is the
  offset from \<open>ptr_arch\<close>; a field of a structure is read and written at its offset in the C layout. The image
  is unbounded: reading past its end is not detected. Block numbers and products of block numbers
  and the block size are 32-bit words. The superblock is that of a made file system, so its divisors are not
  zero. \<open>None\<close> is the dereference of a null or unset pointer, or a loop that does not end.
  The static \<open>nro_de_grupo\<close> is part of the state; the mutexes are left out.
\<close>

record rfs =
  disk :: mem
  nro_de_grupo :: u32

section \<open>Superblock\<close>

definition read_superblock :: nat where
  "read_superblock = 1024"

definition sb_inodes :: "mem \<Rightarrow> u32" where "sb_inodes d = rd32 d read_superblock"
definition sb_free_blocks :: "mem \<Rightarrow> u32" where "sb_free_blocks d = rd32 d (read_superblock + 12)"
definition sb_free_inodes :: "mem \<Rightarrow> u32" where "sb_free_inodes d = rd32 d (read_superblock + 16)"
definition sb_first_data_block :: "mem \<Rightarrow> u32" where "sb_first_data_block d = rd32 d (read_superblock + 20)"
definition sb_log_block_size :: "mem \<Rightarrow> u32" where "sb_log_block_size d = rd32 d (read_superblock + 24)"
definition sb_blocks_per_group :: "mem \<Rightarrow> u32" where "sb_blocks_per_group d = rd32 d (read_superblock + 32)"
definition sb_inodes_per_group :: "mem \<Rightarrow> u32" where "sb_inodes_per_group d = rd32 d (read_superblock + 40)"

definition set_sb_free_blocks :: "mem \<Rightarrow> u32 \<Rightarrow> mem" where
  "set_sb_free_blocks d v = wr32 d (read_superblock + 12) v"

definition set_sb_free_inodes :: "mem \<Rightarrow> u32 \<Rightarrow> mem" where
  "set_sb_free_inodes d v = wr32 d (read_superblock + 16) v"

definition tamanioDeBloque :: "mem \<Rightarrow> u32" where
  "tamanioDeBloque d = push_bit (unat (sb_log_block_size d)) 1024"

definition cantidadDeGrupos :: "mem \<Rightarrow> u32" where
  "cantidadDeGrupos d =
     (let inodos = sb_inodes d; inodosPorGrupo = sb_inodes_per_group d;
          resto = inodos mod inodosPorGrupo; cantidad = inodos div inodosPorGrupo
      in if resto \<noteq> 0 then cantidad + 1 else cantidad)"

section \<open>Group descriptors\<close>

text \<open>The null pointer when there is no such group.\<close>

definition leerGroupDescriptor :: "mem \<Rightarrow> u32 \<Rightarrow> nat option" where
  "leerGroupDescriptor d nroGrupo =
     (if nroGrupo < cantidadDeGrupos d
      then let posInicialGD = (if tamanioDeBloque d = 4096 then 4096 else 2048)
           in Some (posInicialGD + unat (32 * nroGrupo))
      else None)"

definition gd_block_bitmap :: "mem \<Rightarrow> nat \<Rightarrow> u32" where "gd_block_bitmap d g = rd32 d g"
definition gd_inode_bitmap :: "mem \<Rightarrow> nat \<Rightarrow> u32" where "gd_inode_bitmap d g = rd32 d (g + 4)"
definition gd_inode_table :: "mem \<Rightarrow> nat \<Rightarrow> u32" where "gd_inode_table d g = rd32 d (g + 8)"
definition gd_free_blocks_count :: "mem \<Rightarrow> nat \<Rightarrow> u16" where "gd_free_blocks_count d g = rd16 d (g + 12)"
definition gd_free_inodes_count :: "mem \<Rightarrow> nat \<Rightarrow> u16" where "gd_free_inodes_count d g = rd16 d (g + 14)"
definition gd_used_dirs_count :: "mem \<Rightarrow> nat \<Rightarrow> u16" where "gd_used_dirs_count d g = rd16 d (g + 16)"

definition set_gd_free_blocks_count :: "mem \<Rightarrow> nat \<Rightarrow> u16 \<Rightarrow> mem" where
  "set_gd_free_blocks_count d g v = wr16 d (g + 12) v"
definition set_gd_free_inodes_count :: "mem \<Rightarrow> nat \<Rightarrow> u16 \<Rightarrow> mem" where
  "set_gd_free_inodes_count d g v = wr16 d (g + 14) v"
definition set_gd_used_dirs_count :: "mem \<Rightarrow> nat \<Rightarrow> u16 \<Rightarrow> mem" where
  "set_gd_used_dirs_count d g v = wr16 d (g + 16) v"

definition nroBloqueInicioDeGrupo :: "mem \<Rightarrow> u32 \<Rightarrow> u32" where
  "nroBloqueInicioDeGrupo d nro_grupo = sb_first_data_block d + sb_blocks_per_group d * nro_grupo"

definition nroInodoInicioDeGrupo :: "mem \<Rightarrow> u32 \<Rightarrow> u32" where
  "nroInodoInicioDeGrupo d nro_grupo = sb_inodes_per_group d * nro_grupo + 1"

definition posicionarInicioBloque :: "mem \<Rightarrow> u32 \<Rightarrow> nat" where
  "posicionarInicioBloque d nroBloque = unat (nroBloque * tamanioDeBloque d)"

definition obtenerBloque :: "mem \<Rightarrow> u32 \<Rightarrow> nat" where
  "obtenerBloque d numero_bloque = unat (numero_bloque * tamanioDeBloque d)"

section \<open>Inodes\<close>

definition ino_mode :: "mem \<Rightarrow> nat \<Rightarrow> u16" where "ino_mode d a = rd16 d a"
definition ino_size :: "mem \<Rightarrow> nat \<Rightarrow> u32" where "ino_size d a = rd32 d (a + 4)"
definition ino_links :: "mem \<Rightarrow> nat \<Rightarrow> u16" where "ino_links d a = rd16 d (a + 26)"
definition ino_nr_blocks :: "mem \<Rightarrow> nat \<Rightarrow> u32" where "ino_nr_blocks d a = rd32 d (a + 28)"
definition ino_iblock :: "mem \<Rightarrow> nat \<Rightarrow> u32" where "ino_iblock d a = rd32 d (a + 88)"
definition ino_iiblock :: "mem \<Rightarrow> nat \<Rightarrow> u32" where "ino_iiblock d a = rd32 d (a + 92)"
definition ino_iiiblock :: "mem \<Rightarrow> nat \<Rightarrow> u32" where "ino_iiiblock d a = rd32 d (a + 96)"

definition set_ino_mode :: "mem \<Rightarrow> nat \<Rightarrow> u16 \<Rightarrow> mem" where "set_ino_mode d a v = wr16 d a v"
definition set_ino_size :: "mem \<Rightarrow> nat \<Rightarrow> u32 \<Rightarrow> mem" where "set_ino_size d a v = wr32 d (a + 4) v"
definition set_ino_links :: "mem \<Rightarrow> nat \<Rightarrow> u16 \<Rightarrow> mem" where "set_ino_links d a v = wr16 d (a + 26) v"
definition set_ino_nr_blocks :: "mem \<Rightarrow> nat \<Rightarrow> u32 \<Rightarrow> mem" where "set_ino_nr_blocks d a v = wr32 d (a + 28) v"
definition set_ino_block0 :: "mem \<Rightarrow> nat \<Rightarrow> u32 \<Rightarrow> mem" where "set_ino_block0 d a v = wr32 d (a + 40) v"
definition set_ino_iblock :: "mem \<Rightarrow> nat \<Rightarrow> u32 \<Rightarrow> mem" where "set_ino_iblock d a v = wr32 d (a + 88) v"
definition set_ino_iiblock :: "mem \<Rightarrow> nat \<Rightarrow> u32 \<Rightarrow> mem" where "set_ino_iiblock d a v = wr32 d (a + 92) v"
definition set_ino_iiiblock :: "mem \<Rightarrow> nat \<Rightarrow> u32 \<Rightarrow> mem" where "set_ino_iiiblock d a v = wr32 d (a + 96) v"

definition EXT2_S_IFREG :: u16 where "EXT2_S_IFREG = 0x8000"
definition EXT2_S_IFDIR :: u16 where "EXT2_S_IFDIR = 0x4000"

definition EXT2_INODE_HAS_MODE_FLAG :: "mem \<Rightarrow> nat \<Rightarrow> u16 \<Rightarrow> bool" where
  "EXT2_INODE_HAS_MODE_FLAG d inode flag \<longleftrightarrow> ino_mode d inode AND 0xF000 = flag"

text \<open>\<open>Some None\<close> is the null pointer returned for inode 0; a missing group is dereferenced.\<close>

definition getInodo :: "mem \<Rightarrow> u32 \<Rightarrow> nat option option" where
  "getInodo d nroInodo =
     (if nroInodo < 1 then Some None
      else do {
        let nroGrupo = (nroInodo - 1) div sb_inodes_per_group d;
        grupo \<leftarrow> leerGroupDescriptor d nroGrupo;
        let dir_tabla_inodos = posicionarInicioBloque d (gd_inode_table d grupo);
        let cantInodos = nroInodo - nroGrupo * sb_inodes_per_group d;
        Some (Some (dir_tabla_inodos + (unat cantInodos - 1) * 128)) })"

text \<open>The inode that the caller dereferences without a test.\<close>

definition inodo_at :: "mem \<Rightarrow> u32 \<Rightarrow> nat option" where
  "inodo_at d nroInodo = Option.bind (getInodo d nroInodo) (\<lambda>p. p)"

section \<open>Blocks of a file\<close>

definition nroBloqueDentroDelInodo :: "mem \<Rightarrow> u32 \<Rightarrow> u32" where
  "nroBloqueDentroDelInodo d offset = offset div tamanioDeBloque d"

definition desplazamientoDentroDelBloque :: "mem \<Rightarrow> u32 \<Rightarrow> u32" where
  "desplazamientoDentroDelBloque d offset = offset mod tamanioDeBloque d"

definition cantPtr :: "mem \<Rightarrow> u32" where
  "cantPtr d = tamanioDeBloque d div 4"

definition esBloqueDirecto :: "u32 \<Rightarrow> bool" where
  "esBloqueDirecto nroBloque \<longleftrightarrow> nroBloque < 12"

definition esIndireccionSimple :: "mem \<Rightarrow> u32 \<Rightarrow> bool" where
  "esIndireccionSimple d nroBloqueLogico \<longleftrightarrow> 12 \<le> nroBloqueLogico \<and> nroBloqueLogico < 12 + cantPtr d"

text \<open>\<open>pow\<close> makes the upper bounds floating-point numbers: they do not wrap.\<close>

definition esIndireccionDoble :: "mem \<Rightarrow> u32 \<Rightarrow> bool" where
  "esIndireccionDoble d nroBloqueLogico \<longleftrightarrow> 12 + cantPtr d \<le> nroBloqueLogico \<and>
     unat nroBloqueLogico < unat (12 + cantPtr d) + unat (cantPtr d) ^ 2"

definition esIndireccionTriple :: "mem \<Rightarrow> u32 \<Rightarrow> bool" where
  "esIndireccionTriple d nroBloque \<longleftrightarrow>
     unat (12 + cantPtr d) + unat (cantPtr d) ^ 2 \<le> unat nroBloque \<and>
     unat nroBloque < unat (12 + cantPtr d) + unat (cantPtr d) ^ 2 + unat (cantPtr d) ^ 3"

text \<open>\<open>for (i = 0; c <= n; i++, n -= c);\<close>\<close>

partial_function (option) sub_loop :: "u32 \<Rightarrow> nat \<Rightarrow> u32 \<Rightarrow> (nat \<times> u32) option" where
  [code]: "sub_loop c i n = (if c \<le> n then sub_loop c (i + 1) (n - c) else Some (i, n))"

definition posicionarIndireccionSimple :: "mem \<Rightarrow> u32 \<Rightarrow> u32 \<Rightarrow> nat" where
  "posicionarIndireccionSimple d nroBloqueIndireccion nroBloqueLogico =
     posicionarInicioBloque d nroBloqueIndireccion + unat (nroBloqueLogico - 12) * 4"

definition posicionarIndireccionDoble :: "mem \<Rightarrow> u32 \<Rightarrow> u32 \<Rightarrow> nat option" where
  "posicionarIndireccionDoble d nroBloqueIndireccion nroBloqueLogico = do {
     let inicio = posicionarInicioBloque d nroBloqueIndireccion;
     (i, n) \<leftarrow> sub_loop (cantPtr d) 0 (nroBloqueLogico - (12 + cantPtr d));
     let inicio2 = posicionarInicioBloque d (rd32 d (inicio + i * 4));
     Some (inicio2 + unat n * 4) }"

definition cantDoble :: "mem \<Rightarrow> u32" where
  "cantDoble d = of_nat (unat (cantPtr d) ^ 2)"

definition posicionarIndireccionTriple :: "mem \<Rightarrow> u32 \<Rightarrow> u32 \<Rightarrow> nat option" where
  "posicionarIndireccionTriple d nroBloqueIndireccion nroBloqueLogico = do {
     let inicio = posicionarInicioBloque d nroBloqueIndireccion;
     (i, n) \<leftarrow> sub_loop (cantDoble d) 0 (nroBloqueLogico - (12 + cantPtr d + cantDoble d));
     let inicio2 = posicionarInicioBloque d (rd32 d (inicio + i * 4));
     (j, m) \<leftarrow> sub_loop (cantPtr d) 0 n;
     let inicio3 = posicionarInicioBloque d (rd32 d (inicio2 + j * 4));
     Some (inicio3 + unat m * 4) }"

definition getPtrNroBloqueLogicoDentroInodo :: "mem \<Rightarrow> nat \<Rightarrow> u32 \<Rightarrow> nat option" where
  "getPtrNroBloqueLogicoDentroInodo d inodo nroBloqueLogico =
     (if esBloqueDirecto nroBloqueLogico then Some (inodo + 40 + unat nroBloqueLogico * 4)
      else if esIndireccionSimple d nroBloqueLogico
      then Some (posicionarIndireccionSimple d (ino_iblock d inodo) nroBloqueLogico)
      else if esIndireccionDoble d nroBloqueLogico
      then posicionarIndireccionDoble d (ino_iiblock d inodo) nroBloqueLogico
      else if esIndireccionTriple d nroBloqueLogico
      then posicionarIndireccionTriple d (ino_iiiblock d inodo) nroBloqueLogico
      else None)"

definition getPtrBloqueIndDoble :: "mem \<Rightarrow> u32 \<Rightarrow> u32 \<Rightarrow> nat option" where
  "getPtrBloqueIndDoble d nroBloqueIndireccion nroBloqueLogico = do {
     let inicio = posicionarInicioBloque d nroBloqueIndireccion;
     (i, n) \<leftarrow> sub_loop (cantDoble d) 0 (nroBloqueLogico - (12 + cantPtr d + cantDoble d));
     let inicio2 = posicionarInicioBloque d (rd32 d (inicio + i * 4));
     (j, m) \<leftarrow> sub_loop (cantPtr d) 0 n;
     Some (inicio2 + j * 4) }"

definition getPtrBloqueIndTriple :: "mem \<Rightarrow> u32 \<Rightarrow> u32 \<Rightarrow> nat option" where
  "getPtrBloqueIndTriple d nroBloqueIndireccion nroBloqueLogico = do {
     let inicio = posicionarInicioBloque d nroBloqueIndireccion;
     (i, n) \<leftarrow> sub_loop (cantDoble d) 0 (nroBloqueLogico - (12 + cantPtr d + cantDoble d));
     Some (inicio + i * 4) }"

definition desplazarme :: "mem \<Rightarrow> u32 \<Rightarrow> u32 \<Rightarrow> nat" where
  "desplazarme d nroBloqueDeDato desplazamiento = posicionarInicioBloque d nroBloqueDeDato + unat desplazamiento"

definition posicionarme :: "mem \<Rightarrow> nat \<Rightarrow> u32 \<Rightarrow> u32 \<Rightarrow> nat option" where
  "posicionarme d inodo nroBloqueLogico desplazamiento = do {
     p \<leftarrow> getPtrNroBloqueLogicoDentroInodo d inodo nroBloqueLogico;
     Some (desplazarme d (rd32 d p) desplazamiento) }"

section \<open>Block allocation\<close>

text \<open>\<open>while (n > c) n -= c;\<close>\<close>

partial_function (option) reduce_loop :: "u32 \<Rightarrow> u32 \<Rightarrow> u32 option" where
  [code]: "reduce_loop c n = (if n > c then reduce_loop c (n - c) else Some n)"

definition block_bitmap :: "mem \<Rightarrow> nat \<Rightarrow> t_bitarray" where
  "block_bitmap d grupo =
     bitarray_create (posicionarInicioBloque d (gd_block_bitmap d grupo)) (unat (sb_blocks_per_group d div 8))"

definition inode_bitmap :: "mem \<Rightarrow> nat \<Rightarrow> t_bitarray" where
  "inode_bitmap d grupo =
     bitarray_create (posicionarInicioBloque d (gd_inode_bitmap d grupo)) (unat (sb_inodes_per_group d div 8))"

definition liberarBloque :: "mem \<Rightarrow> nat \<Rightarrow> mem option" where
  "liberarBloque d ptrBloqueDeDato = do {
     let nroBloqueDeDato = rd32 d ptrBloqueDeDato;
     let nroGrupo = (nroBloqueDeDato - sb_first_data_block d) div sb_blocks_per_group d;
     grupo \<leftarrow> leerGroupDescriptor d nroGrupo;
     n \<leftarrow> reduce_loop (sb_blocks_per_group d) nroBloqueDeDato;
     let d1 = bitarray_clean_bit d (block_bitmap d grupo) (unat (n - 1));
     let d2 = wr32 d1 ptrBloqueDeDato 0;
     let d3 = set_gd_free_blocks_count d2 grupo (gd_free_blocks_count d2 grupo + 1);
     Some (set_sb_free_blocks d3 (sb_free_blocks d3 + 1)) }"

text \<open>The first clear bit of a bitmap among the first \<open>n\<close>.\<close>

fun first_clear :: "mem \<Rightarrow> t_bitarray \<Rightarrow> nat \<Rightarrow> nat \<Rightarrow> nat option" where
  "first_clear d b 0 i = None"
| "first_clear d b (Suc k) i = (if \<not> bitarray_test_bit d b i then Some i else first_clear d b k (i + 1))"

definition getBloqueLibreDelBitmap :: "mem \<Rightarrow> u32 \<Rightarrow> u32 option" where
  "getBloqueLibreDelBitmap d nro_grupo = do {
     grupo \<leftarrow> leerGroupDescriptor d nro_grupo;
     Some (case first_clear d (block_bitmap d grupo) (unat (sb_blocks_per_group d)) 0 of
        None \<Rightarrow> 0
      | Some i \<Rightarrow> nroBloqueInicioDeGrupo d nro_grupo + of_nat i) }"

definition actualizarEstructurasCuandoPidoBloque :: "mem \<Rightarrow> u32 \<Rightarrow> mem option" where
  "actualizarEstructurasCuandoPidoBloque d nroBloqueDeDato = do {
     let nroGrupo = (nroBloqueDeDato - sb_first_data_block d) div sb_blocks_per_group d;
     grupo \<leftarrow> leerGroupDescriptor d nroGrupo;
     n \<leftarrow> reduce_loop (sb_blocks_per_group d) nroBloqueDeDato;
     let d1 = bitarray_set_bit d (block_bitmap d grupo) (unat (n - sb_first_data_block d));
     let d2 = set_sb_free_blocks d1 (sb_free_blocks d1 - 1);
     Some (set_gd_free_blocks_count d2 grupo (gd_free_blocks_count d2 grupo - 1)) }"

text \<open>The search for a group with free blocks: \<open>None\<close> in the result is \<open>return 0\<close>.\<close>

partial_function (option) grupo_loop :: "mem \<Rightarrow> u32 \<Rightarrow> bool \<Rightarrow> (bool \<times> u32) option" where
  [code]: "grupo_loop d nro diLaVuelta =
     (let lleno = (case leerGroupDescriptor d nro of None \<Rightarrow> True | Some gd \<Rightarrow> gd_free_blocks_count d gd = 0) in
      if lleno
      then let nro1 = nro + 1 in
        if nro1 = cantidadDeGrupos d
        then if diLaVuelta then Some (False, nro1) else grupo_loop d 0 True
        else grupo_loop d nro1 diLaVuelta
      else Some (True, nro))"

definition getBloqueLibre :: "rfs \<Rightarrow> (u32 \<times> rfs) option" where
  "getBloqueLibre s = do {
     (hay, nro) \<leftarrow> grupo_loop (disk s) (nro_de_grupo s) False;
     (if \<not> hay then Some (0, s\<lparr>nro_de_grupo := nro\<rparr>)
      else do {
        nroBloqueDeDato \<leftarrow> getBloqueLibreDelBitmap (disk s) nro;
        d \<leftarrow> actualizarEstructurasCuandoPidoBloque (disk s) nroBloqueDeDato;
        Some (nroBloqueDeDato, s\<lparr>disk := d, nro_de_grupo := nro\<rparr>) }) }"

definition agregarAInodo :: "mem \<Rightarrow> nat \<Rightarrow> u32 \<Rightarrow> u32 \<Rightarrow> mem option" where
  "agregarAInodo d inodoPath nroBloqueLogico nroBloqueDeDato = do {
     p \<leftarrow> getPtrNroBloqueLogicoDentroInodo d inodoPath nroBloqueLogico;
     Some (wr32 d p nroBloqueDeDato) }"

section \<open>Inode allocation\<close>

definition getInodoLibreDelBitmap :: "mem \<Rightarrow> u32 \<Rightarrow> u32 option" where
  "getInodoLibreDelBitmap d nro_grupo = do {
     grupo \<leftarrow> leerGroupDescriptor d nro_grupo;
     Some (case first_clear d (inode_bitmap d grupo) (unat (sb_inodes_per_group d)) 0 of
        None \<Rightarrow> 0
      | Some i \<Rightarrow> nroInodoInicioDeGrupo d nro_grupo + of_nat i) }"

definition actualizarEstructurasCuandoPidoInodo :: "mem \<Rightarrow> u32 \<Rightarrow> mem option" where
  "actualizarEstructurasCuandoPidoInodo d nroInodo = do {
     let nroGrupo = (nroInodo - 1) div sb_inodes_per_group d;
     grupo \<leftarrow> leerGroupDescriptor d nroGrupo;
     n \<leftarrow> reduce_loop (sb_inodes_per_group d) nroInodo;
     let d1 = bitarray_set_bit d (inode_bitmap d grupo) (unat (n - 1));
     let d2 = set_sb_free_inodes d1 (sb_free_inodes d1 - 1);
     Some (set_gd_free_inodes_count d2 grupo (gd_free_inodes_count d2 grupo - 1)) }"

text \<open>The loop runs over the groups until it finds an inode; past the last group it dereferences null.\<close>

partial_function (option) inodo_loop :: "mem \<Rightarrow> u32 \<Rightarrow> u32 option" where
  [code]: "inodo_loop d nro_grupo = Option.bind (getInodoLibreDelBitmap d nro_grupo) (\<lambda>n.
     if n = 0 then inodo_loop d (nro_grupo + 1) else Some n)"

definition getInodoLibre :: "mem \<Rightarrow> (u32 \<times> mem) option" where
  "getInodoLibre d =
     (if sb_free_inodes d = 0 then Some (0, d)
      else do {
        nroInodo \<leftarrow> inodo_loop d 0;
        d' \<leftarrow> actualizarEstructurasCuandoPidoInodo d nroInodo;
        Some (nroInodo, d') })"

text \<open>The blocks of the inode from \<open>offset\<close> to \<open>tamanio\<close>, one block size at a time.\<close>

partial_function (option) liberar_loop :: "mem \<Rightarrow> nat \<Rightarrow> u32 \<Rightarrow> u32 \<Rightarrow> mem option" where
  [code]: "liberar_loop d inodo tamanio offset =
     (if offset < tamanio
      then Option.bind (getPtrNroBloqueLogicoDentroInodo d inodo (nroBloqueDentroDelInodo d offset)) (\<lambda>p.
        Option.bind (liberarBloque d p) (\<lambda>d'. liberar_loop d' inodo tamanio (offset + tamanioDeBloque d')))
      else Some d)"

definition liberarInodo :: "mem \<Rightarrow> u32 \<Rightarrow> mem option" where
  "liberarInodo d nroInodoDirectorio = do {
     inodo \<leftarrow> inodo_at d nroInodoDirectorio;
     d1 \<leftarrow> liberar_loop d inodo (ino_size d inodo) 0;
     let nroGrupo = (nroInodoDirectorio - sb_first_data_block d1) div sb_inodes_per_group d1;
     grupo \<leftarrow> leerGroupDescriptor d1 nroGrupo;
     n \<leftarrow> reduce_loop (sb_inodes_per_group d1) nroInodoDirectorio;
     let d2 = bitarray_clean_bit d1 (inode_bitmap d1 grupo) (unat (n - 1));
     let d3 = set_gd_free_inodes_count d2 grupo (gd_free_inodes_count d2 grupo + 1);
     let d4 = set_sb_free_inodes d3 (sb_free_inodes d3 + 1);
     Some (set_ino_size (set_ino_links (set_ino_mode d4 inodo 0) inodo 0) inodo 0) }"

definition hayEspacioSuficiente :: "mem \<Rightarrow> u32 \<Rightarrow> bool" where
  "hayEspacioSuficiente d sz \<longleftrightarrow> tamanioDeBloque d * sb_free_blocks d \<ge> sz"

section \<open>The loops\<close>

lemma sub_loop_div:
  assumes "0 < c"
  shows "sub_loop c i n = Some (i + unat (n div c), n mod c)"
proof (induction "unat n" arbitrary: i n rule: less_induct)
  case less
  show ?case
  proof (cases "c \<le> n")
    case True
    then have "unat (n - c) = unat n - unat c" "unat c \<le> unat n" "0 < unat c"
      using assms by (simp_all add: unat_sub word_le_nat_alt word_less_nat_alt)
    then have "unat (n - c) < unat n" by linarith
    then have "sub_loop c (i + 1) (n - c) = Some (i + 1 + unat ((n - c) div c), (n - c) mod c)" by (rule less)
    moreover have "unat n = unat (n - c) + unat c" using True by (simp add: unat_sub word_le_nat_alt)
    then have "unat (n div c) = Suc (unat ((n - c) div c))" "unat (n mod c) = unat ((n - c) mod c)"
      using \<open>0 < unat c\<close> by (simp_all add: unat_div unat_mod div_add_self2)
    ultimately show ?thesis using True by (subst sub_loop.simps) (simp add: word_unat_eq_iff)
  next
    case False
    then have "n div c = 0" "n mod c = n" by (simp_all add: word_unat_eq_iff unat_div unat_mod word_less_nat_alt not_le)
    then show ?thesis using False by (subst sub_loop.simps) simp
  qed
qed

lemma reduce_loop_mod:
  assumes "0 < c" and "0 < n"
  shows "\<exists>r. reduce_loop c n = Some r \<and> unat r = (unat n - 1) mod unat c + 1"
  using assms(2)
proof (induction "unat n" arbitrary: n rule: less_induct)
  case less
  show ?case
  proof (cases "n > c")
    case True
    then have u: "unat (n - c) = unat n - unat c" "unat c < unat n" by (simp_all add: unat_sub word_less_nat_alt less_imp_le word_le_nat_alt)
    have c: "0 < unat c" using assms(1) by (simp add: word_less_nat_alt)
    obtain r where "reduce_loop c (n - c) = Some r" "unat r = (unat (n - c) - 1) mod unat c + 1"
      using less.hyps [of "n - c"] u c by (auto simp: word_less_nat_alt)
    moreover have "(unat n - 1) mod unat c = (unat (n - c) - 1) mod unat c"
    proof -
      have "unat n - 1 = (unat (n - c) - 1) + unat c" using u by linarith
      then show ?thesis by simp
    qed
    ultimately show ?thesis using True by (subst reduce_loop.simps) simp
  next
    case False
    then have "unat n - 1 < unat c" using less.prems by (simp add: word_less_nat_alt)
    then show ?thesis using False less.prems by (subst reduce_loop.simps) (simp add: word_less_nat_alt)
  qed
qed

section \<open>Block addressing\<close>

text \<open>
  The ext2 rule for the block number of a logical block: twelve direct entries in the inode, then
  one, two and three levels of index blocks of \<open>p\<close> entries each.
\<close>

definition entry :: "mem \<Rightarrow> u32 \<Rightarrow> nat \<Rightarrow> nat" where
  "entry d b i = posicionarInicioBloque d b + i * 4"

definition ext2_slot :: "mem \<Rightarrow> nat \<Rightarrow> nat \<Rightarrow> nat \<Rightarrow> nat option" where
  "ext2_slot d p ino n =
     (if n < 12 then Some (ino + 40 + n * 4)
      else let n1 = n - 12 in
        if n1 < p then Some (entry d (ino_iblock d ino) n1)
        else let n2 = n1 - p in
          if n2 < p * p then Some (entry d (rd32 d (entry d (ino_iiblock d ino) (n2 div p))) (n2 mod p))
          else let n3 = n2 - p * p in
            if n3 < p * p * p
            then Some (entry d (rd32 d (entry d (rd32 d (entry d (ino_iiiblock d ino) (n3 div (p * p))))
                        (n3 mod (p * p) div p))) (n3 mod (p * p) mod p))
            else None)"

lemma addressing_rule:
  assumes "tamanioDeBloque d = push_bit k 1024" and "k \<le> 4"
  shows "getPtrNroBloqueLogicoDentroInodo d ino n = ext2_slot d (256 * 2 ^ k) ino (unat n)"
proof -
  have k: "k \<in> {0, 1, 2, 3, 4}" using assms(2) by auto
  let ?p = "256 * 2 ^ k :: nat"
  have c: "unat (cantPtr d) = ?p" using k assms(1) by (auto simp: cantPtr_def unat_div)
  have q: "unat (cantDoble d) = ?p ^ 2" using k by (auto simp: cantDoble_def c power2_eq_square)
  have cq: "unat (12 + cantPtr d) = 12 + ?p" "unat (12 + cantPtr d + cantDoble d) = 12 + ?p + ?p ^ 2"
    using k c q by (auto simp: unat_word_ariths power2_eq_square)
  have pos: "0 < cantPtr d" "0 < cantDoble d" using k c q by (auto simp: word_less_nat_alt)
  have r1: "unat (n - 12) = unat n - 12" if "12 \<le> unat n" using that by (simp add: unat_sub word_le_nat_alt)
  have r2: "unat (n - (12 + cantPtr d)) = unat n - (12 + ?p)" if "12 + ?p \<le> unat n"
    using that cq by (simp add: unat_sub word_le_nat_alt)
  have r3: "unat (n - (12 + cantPtr d + cantDoble d)) = unat n - (12 + ?p + ?p ^ 2)" if "12 + ?p + ?p ^ 2 \<le> unat n"
    using that cq by (simp add: unat_sub word_le_nat_alt)
  consider "unat n < 12" | "12 \<le> unat n" "unat n < 12 + ?p" | "12 + ?p \<le> unat n" "unat n < 12 + ?p + ?p ^ 2"
    | "12 + ?p + ?p ^ 2 \<le> unat n" by linarith
  then show ?thesis
  proof cases
    case 1
    then show ?thesis by (simp add: getPtrNroBloqueLogicoDentroInodo_def esBloqueDirecto_def ext2_slot_def word_less_nat_alt)
  next
    case 2
    then have "unat n - 12 < ?p" by linarith
    then show ?thesis using 2 cq r1
      by (simp add: getPtrNroBloqueLogicoDentroInodo_def esBloqueDirecto_def esIndireccionSimple_def ext2_slot_def
          word_less_nat_alt word_le_nat_alt posicionarIndireccionSimple_def entry_def Let_def)
  next
    case 3
    then have "\<not> unat n < 12" "\<not> unat n < 12 + ?p" "\<not> unat n - 12 < ?p" "unat n - 12 - ?p < ?p * ?p"
      by (auto simp: power2_eq_square)
    then show ?thesis using 3 cq c r2 pos
      by (simp add: getPtrNroBloqueLogicoDentroInodo_def esBloqueDirecto_def esIndireccionSimple_def esIndireccionDoble_def
          ext2_slot_def word_less_nat_alt word_le_nat_alt posicionarIndireccionDoble_def entry_def sub_loop_div
          unat_div unat_mod Let_def)
  next
    case 4
    then have "\<not> unat n < 12" "\<not> unat n < 12 + ?p" "\<not> unat n - 12 < ?p" "\<not> unat n - 12 - ?p < ?p * ?p"
      "\<not> unat n < 12 + ?p + ?p ^ 2" by (auto simp: power2_eq_square)
    moreover have "unat n < 12 + ?p + ?p ^ 2 + ?p ^ 3 \<longleftrightarrow> unat n - 12 - ?p - ?p * ?p < ?p * ?p * ?p"
      using 4 by (auto simp: power2_eq_square power3_eq_cube)
    ultimately show ?thesis using 4 cq c q r3 pos
      by (simp add: getPtrNroBloqueLogicoDentroInodo_def esBloqueDirecto_def esIndireccionSimple_def esIndireccionDoble_def
          esIndireccionTriple_def ext2_slot_def word_less_nat_alt word_le_nat_alt posicionarIndireccionTriple_def
          entry_def sub_loop_div unat_div unat_mod Let_def power2_eq_square)
  qed
qed

text \<open>Every offset of a file has a block number: four bytes of offset never pass the triple indirection.\<close>

lemma addressing_total:
  assumes "tamanioDeBloque d = push_bit k 1024" and "k \<le> 4"
  shows "\<exists>p. getPtrNroBloqueLogicoDentroInodo d ino (nroBloqueDentroDelInodo d offset) = Some p"
proof -
  have k: "k \<in> {0, 1, 2, 3, 4}" using assms(2) by auto
  have "unat (offset div tamanioDeBloque d) = unat offset div (1024 * 2 ^ k)"
    using k assms(1) by (auto simp: unat_div)
  moreover have "unat offset < 2 ^ 32" using unsigned_less [where w = offset] by simp
  ultimately have "unat (offset div tamanioDeBloque d) < 2 ^ 22"
    using k by (auto simp: less_mult_imp_div_less)
  then show ?thesis
    using addressing_rule [OF assms, of ino "nroBloqueDentroDelInodo d offset"] k
    by (auto simp: nroBloqueDentroDelInodo_def ext2_slot_def Let_def)
qed

text \<open>
  C13. \<open>getPtrNroBloqueLogicoDentroInodo\<close>, with its loops of subtractions and its tests in
  floating point, computes exactly the ext2 rule, for every logical block number and the block
  sizes 1024 to 16384; it is undefined (an unset pointer is returned) only past the triple indirection.
\<close>

theorem block_addressing_exact:
  assumes "tamanioDeBloque d = push_bit k 1024" and "k \<le> 4"
  shows "getPtrNroBloqueLogicoDentroInodo d ino n = ext2_slot d (256 * 2 ^ k) ino (unat n)"
  by (rule addressing_rule [OF assms])

theorem block_addressing_exact_witness:
  "getPtrNroBloqueLogicoDentroInodo (\<lambda>_. 0) 5000 267 = Some (entry (\<lambda>_. 0) 0 255)"
proof -
  have "tamanioDeBloque (\<lambda>_. 0) = push_bit 0 1024" by code_simp
  moreover have "ino_iblock (\<lambda>_. 0) 5000 = 0" by code_simp
  ultimately show ?thesis using block_addressing_exact [of "\<lambda>_. 0" 0 5000 267] by (simp add: ext2_slot_def Let_def)
qed

section \<open>Allocation and release of blocks\<close>

lemma rd_upd [mem_simps]:
  "a < x \<or> x + 4 \<le> a \<Longrightarrow> rd32 (m(a := v)) x = rd32 m x"
  "a < x \<or> x + 2 \<le> a \<Longrightarrow> rd16 (m(a := v)) x = rd16 m x"
  by (auto simp: rd32_def rd16_def mem_read_def intro!: arg_cong [where f = of_le32] arg_cong [where f = of_le16])

lemma wr_apply [mem_simps]:
  "x < a \<or> a + 4 \<le> x \<Longrightarrow> wr32 m a v x = m x" "x < a \<or> a + 2 \<le> x \<Longrightarrow> wr16 m a w x = m x"
  by (auto simp: wr32_def wr16_def mem_write_def)

lemma rd_wr_apart [mem_simps]:
  "x + 4 \<le> a \<or> a + 4 \<le> x \<Longrightarrow> rd32 (wr32 m a v) x = rd32 m x"
  "x + 4 \<le> a \<or> a + 2 \<le> x \<Longrightarrow> rd32 (wr16 m a w) x = rd32 m x"
  "x + 2 \<le> a \<or> a + 4 \<le> x \<Longrightarrow> rd16 (wr32 m a v) x = rd16 m x"
  "x + 2 \<le> a \<or> a + 2 \<le> x \<Longrightarrow> rd16 (wr16 m a w) x = rd16 m x"
  by (simp_all add: wr32_def wr16_def mem_simps)

text \<open>
  The region of the metadata that stays fixed: the first 44 bytes of the superblock and the 32
  of a group descriptor, both below the bitmap; and the words of both a bit operation must not touch.
\<close>

definition meta_below :: "mem \<Rightarrow> nat \<Rightarrow> bool" where
  "meta_below d g \<longleftrightarrow> read_superblock + 44 \<le> g \<and> g + 32 \<le> ba_bitarray (block_bitmap d g)"

lemma same_meta:
  assumes "\<And>x. x \<in> {0, 20, 24, 32, 40} \<Longrightarrow> rd32 d' (read_superblock + x) = rd32 d (read_superblock + x)"
  shows "sb_first_data_block d' = sb_first_data_block d" "sb_blocks_per_group d' = sb_blocks_per_group d"
    "sb_inodes_per_group d' = sb_inodes_per_group d" "tamanioDeBloque d' = tamanioDeBloque d"
    "leerGroupDescriptor d' n = leerGroupDescriptor d n"
  using assms [of 0] assms [of 20] assms [of 24] assms [of 32] assms [of 40]
  by (simp_all add: sb_first_data_block_def sb_blocks_per_group_def sb_inodes_per_group_def tamanioDeBloque_def
      sb_log_block_size_def leerGroupDescriptor_def cantidadDeGrupos_def sb_inodes_def)

lemma first_clear_spec:
  "first_clear d b k i = Some j \<Longrightarrow> i \<le> j \<and> j < i + k \<and> \<not> bitarray_test_bit d b j \<and>
     (\<forall>m. i \<le> m \<and> m < j \<longrightarrow> bitarray_test_bit d b m)"
proof (induction k arbitrary: i)
  case (Suc k)
  show ?case
  proof (cases "bitarray_test_bit d b i")
    case True
    then have "first_clear d b k (i + 1) = Some j" using Suc.prems by simp
    then have "i + 1 \<le> j \<and> j < i + 1 + k \<and> \<not> bitarray_test_bit d b j \<and> (\<forall>m. i + 1 \<le> m \<and> m < j \<longrightarrow> bitarray_test_bit d b m)"
      by (rule Suc.IH)
    moreover from this have "bitarray_test_bit d b m" if "i \<le> m" "m < j" for m
      using that True by (cases "m = i") auto
    ultimately show ?thesis by auto
  next
    case False
    then show ?thesis using Suc.prems by auto
  qed
qed simp

lemma first_clear_None:
  "first_clear d b k i = None \<longleftrightarrow> (\<forall>m. i \<le> m \<and> m < i + k \<longrightarrow> bitarray_test_bit d b m)"
proof (induction k arbitrary: i)
  case (Suc k)
  have "(\<forall>m. i \<le> m \<and> m < i + Suc k \<longrightarrow> P m) \<longleftrightarrow> P i \<and> (\<forall>m. i + 1 \<le> m \<and> m < i + 1 + k \<longrightarrow> P m)" for P
    by (auto simp: le_eq_less_or_eq [of i])
  then show ?case using Suc.IH [of "i + 1"] by simp
qed auto

text \<open>The block numbers of a group, on a disk whose first data block is 1.\<close>

lemma group_arith:
  fixes nro bpg :: u32 and i :: nat
  assumes "i < unat bpg" and "1 + unat nro * unat bpg + i < 2 ^ 32"
  shows "unat (1 + bpg * nro + of_nat i) = 1 + unat nro * unat bpg + i"
    and "(1 + bpg * nro + of_nat i - 1) div bpg = nro"
    and "\<exists>r. reduce_loop bpg (1 + bpg * nro + of_nat i) = Some r \<and> unat (r - 1) = i"
proof -
  let ?b = "1 + bpg * nro + of_nat i :: u32"
  have m: "unat nro * unat bpg < 2 ^ 32" "i < 2 ^ 32" using assms by linarith+
  have e: "?b = of_nat (1 + unat nro * unat bpg + i)" by (simp add: mult.commute)
  show u: "unat ?b = 1 + unat nro * unat bpg + i" unfolding e using assms(2) by (rule unat_of_nat_small)
  have pos: "0 < unat bpg" using assms(1) by simp
  have e1: "?b - 1 = of_nat (unat nro * unat bpg + i)" by (simp add: mult.commute)
  have "unat (?b - 1) = unat nro * unat bpg + i" unfolding e1 by (rule unat_of_nat_small) (use assms(2) in simp)
  then have "unat ((?b - 1) div bpg) = unat nro" using assms(1) pos by (simp add: unat_div)
  then show "(?b - 1) div bpg = nro" by (simp add: word_unat_eq_iff)
  have "0 < bpg" "0 < ?b" using pos u by (simp_all only: word_less_nat_alt unat_0)
  from reduce_loop_mod [OF this] obtain r where r: "reduce_loop bpg ?b = Some r" "unat r = (unat ?b - 1) mod unat bpg + 1" by blast
  then have "unat r = i + 1" using u assms(1) by simp
  moreover from this have "unat (r - 1) = i" by (simp add: unat_sub word_le_nat_alt)
  ultimately show "\<exists>r. reduce_loop bpg ?b = Some r \<and> unat (r - 1) = i" using r(1) by blast
qed

lemma bitarray_ops_upd:
  "\<exists>v. bitarray_set_bit m b i = m(ba_bitarray b + i div 8 := v)"
  "\<exists>v. bitarray_clean_bit m b i = m(ba_bitarray b + i div 8 := v)"
  by (auto simp: bitarray_set_bit_def bitarray_clean_bit_def BIT_CHAR_def Let_def)

lemma test_bit_cong:
  "m' (ba_bitarray b + i div 8) = m (ba_bitarray b + i div 8) \<Longrightarrow> bitarray_test_bit m' b i = bitarray_test_bit m b i"
  by (simp add: test_bit_bit)

text \<open>What the allocation of a block does to the disk.\<close>

lemma pedir_bloque:
  assumes g: "leerGroupDescriptor d nro = Some g" and f: "sb_first_data_block d = 1" and m: "meta_below d g"
    and i: "i < unat (sb_blocks_per_group d)" and ov: "1 + unat nro * unat (sb_blocks_per_group d) + i < 2 ^ 32"
  defines "b \<equiv> 1 + sb_blocks_per_group d * nro + of_nat i"
  shows "\<exists>d'. actualizarEstructurasCuandoPidoBloque d b = Some d' \<and>
    (\<forall>j. bitarray_test_bit d' (block_bitmap d g) j \<longleftrightarrow> j = i \<or> bitarray_test_bit d (block_bitmap d g) j) \<and>
    sb_free_blocks d' = sb_free_blocks d - 1 \<and> gd_free_blocks_count d' g = gd_free_blocks_count d g - 1 \<and>
    (\<forall>x. (x < read_superblock + 12 \<or> read_superblock + 16 \<le> x) \<and> (x < g + 12 \<or> g + 14 \<le> x) \<and>
       x \<noteq> ba_bitarray (block_bitmap d g) + i div 8 \<longrightarrow> d' x = d x)"
proof -
  note G = group_arith [OF i ov]
  let ?bm = "block_bitmap d g"
  obtain r where r: "reduce_loop (sb_blocks_per_group d) b = Some r" "unat (r - 1) = i" using G(3) by (auto simp: b_def)
  define d1 where "d1 = bitarray_set_bit d ?bm i"
  define d2 where "d2 = set_sb_free_blocks d1 (sb_free_blocks d1 - 1)"
  define d3 where "d3 = set_gd_free_blocks_count d2 g (gd_free_blocks_count d2 g - 1)"
  obtain v where v: "d1 = d(ba_bitarray ?bm + i div 8 := v)" using bitarray_ops_upd(1) by (metis d1_def)
  have M: "read_superblock + 44 \<le> g" "g + 32 \<le> ba_bitarray ?bm" using m by (auto simp: meta_below_def)
  have "(b - sb_first_data_block d) div sb_blocks_per_group d = nro" unfolding b_def f by (rule G(2))
  then have a: "actualizarEstructurasCuandoPidoBloque d b = Some d3"
    using g r by (simp add: actualizarEstructurasCuandoPidoBloque_def f d1_def d2_def d3_def Let_def)
  have bits: "bitarray_test_bit d3 ?bm j = bitarray_test_bit d1 ?bm j" for j
    by (rule test_bit_cong) (use M in \<open>simp add: d2_def d3_def set_sb_free_blocks_def set_gd_free_blocks_count_def mem_simps\<close>)
  have "bitarray_test_bit d1 ?bm j \<longleftrightarrow> j = i \<or> bitarray_test_bit d ?bm j" for j
    unfolding d1_def ba.test_setb by auto
  moreover have "sb_free_blocks d3 = sb_free_blocks d - 1" "gd_free_blocks_count d3 g = gd_free_blocks_count d g - 1"
    using M by (simp_all add: d3_def d2_def v sb_free_blocks_def set_sb_free_blocks_def set_gd_free_blocks_count_def
        gd_free_blocks_count_def mem_simps)
  moreover have "d3 x = d x" if "x < read_superblock + 12 \<or> read_superblock + 16 \<le> x" "x < g + 12 \<or> g + 14 \<le> x"
      "x \<noteq> ba_bitarray ?bm + i div 8" for x
    using that by (auto simp: d3_def d2_def v set_sb_free_blocks_def set_gd_free_blocks_count_def mem_simps)
  ultimately show ?thesis using a bits by auto
qed

text \<open>
  C14. The allocator gives out the first free block: in a group whose bitmap has a clear bit, on a disk whose first data
  block is 1 and whose metadata lie below the bitmap, \<open>getBloqueLibreDelBitmap\<close> returns the block of the first clear bit (all bits before it are
  set), and the update sets that bit and no other, takes one off both free counters and changes no other byte of the disk.
\<close>

theorem block_allocation:
  assumes "leerGroupDescriptor d nro = Some g" and "sb_first_data_block d = 1" and "meta_below d g"
    and "m < unat (sb_blocks_per_group d)" and "\<not> bitarray_test_bit d (block_bitmap d g) m"
    and "1 + (unat nro + 1) * unat (sb_blocks_per_group d) < 2 ^ 32"
  shows "\<exists>i b d'. i < unat (sb_blocks_per_group d) \<and> \<not> bitarray_test_bit d (block_bitmap d g) i \<and>
    (\<forall>j. j < i \<longrightarrow> bitarray_test_bit d (block_bitmap d g) j) \<and>
    getBloqueLibreDelBitmap d nro = Some b \<and> unat b = 1 + unat nro * unat (sb_blocks_per_group d) + i \<and>
    actualizarEstructurasCuandoPidoBloque d b = Some d' \<and>
    (\<forall>j. bitarray_test_bit d' (block_bitmap d g) j \<longleftrightarrow> j = i \<or> bitarray_test_bit d (block_bitmap d g) j) \<and>
    sb_free_blocks d' = sb_free_blocks d - 1 \<and> gd_free_blocks_count d' g = gd_free_blocks_count d g - 1 \<and>
    (\<forall>x. (x < read_superblock + 12 \<or> read_superblock + 16 \<le> x) \<and> (x < g + 12 \<or> g + 14 \<le> x) \<and>
       x \<noteq> ba_bitarray (block_bitmap d g) + i div 8 \<longrightarrow> d' x = d x)"
proof -
  let ?bm = "block_bitmap d g"
  obtain i where i: "first_clear d ?bm (unat (sb_blocks_per_group d)) 0 = Some i"
    using first_clear_None [of d ?bm "unat (sb_blocks_per_group d)" 0] assms(4,5) by (cases "first_clear d ?bm (unat (sb_blocks_per_group d)) 0") auto
  note fc = first_clear_spec [OF i]
  have lt: "i < unat (sb_blocks_per_group d)" using fc by simp
  then have ov: "1 + unat nro * unat (sb_blocks_per_group d) + i < 2 ^ 32" using assms(6) by simp
  have "getBloqueLibreDelBitmap d nro = Some (1 + sb_blocks_per_group d * nro + of_nat i)"
    using assms(1,2) i by (simp add: getBloqueLibreDelBitmap_def nroBloqueInicioDeGrupo_def)
  moreover have "\<forall>j. j < i \<longrightarrow> bitarray_test_bit d ?bm j" using fc by simp
  ultimately show ?thesis
    using group_arith(1) [OF lt ov] pedir_bloque [OF assms(1-3) lt ov] fc lt by blast
qed

text \<open>A block pointer that is not part of the metadata of the group.\<close>

definition ptr_apart :: "mem \<Rightarrow> nat \<Rightarrow> nat \<Rightarrow> bool" where
  "ptr_apart d g p \<longleftrightarrow> g + 32 \<le> p \<and>
     (p + 4 \<le> ba_bitarray (block_bitmap d g) \<or> ba_bitarray (block_bitmap d g) + unat (sb_blocks_per_group d) div 8 < p)"

lemma liberar_raw:
  assumes g: "leerGroupDescriptor d nro = Some g" and m: "meta_below d g" and p: "ptr_apart d g p"
    and n: "(rd32 d p - sb_first_data_block d) div sb_blocks_per_group d = nro"
    and r: "reduce_loop (sb_blocks_per_group d) (rd32 d p) = Some r" and i: "unat (r - 1) = i" "i < unat (sb_blocks_per_group d)"
  shows "\<exists>d'. liberarBloque d p = Some d' \<and> rd32 d' p = 0 \<and>
    (\<forall>j < unat (sb_blocks_per_group d). bitarray_test_bit d' (block_bitmap d g) j \<longleftrightarrow> j \<noteq> i \<and> bitarray_test_bit d (block_bitmap d g) j) \<and>
    sb_free_blocks d' = sb_free_blocks d + 1 \<and> gd_free_blocks_count d' g = gd_free_blocks_count d g + 1 \<and>
    (\<forall>x. (x < read_superblock + 12 \<or> read_superblock + 16 \<le> x) \<and> (x < g + 12 \<or> g + 14 \<le> x) \<and> (x < p \<or> p + 4 \<le> x) \<and>
       x \<noteq> ba_bitarray (block_bitmap d g) + i div 8 \<longrightarrow> d' x = d x)"
proof -
  let ?bm = "block_bitmap d g"
  define d1 where "d1 = bitarray_clean_bit d ?bm i"
  define d2 where "d2 = wr32 d1 p 0"
  define d3 where "d3 = set_gd_free_blocks_count d2 g (gd_free_blocks_count d2 g + 1)"
  define d4 where "d4 = set_sb_free_blocks d3 (sb_free_blocks d3 + 1)"
  obtain v where v: "d1 = d(ba_bitarray ?bm + i div 8 := v)" using bitarray_ops_upd(2) by (metis d1_def)
  have M: "read_superblock + 44 \<le> g" "g + 32 \<le> ba_bitarray ?bm" using m by (auto simp: meta_below_def)
  have P: "g + 32 \<le> p" "p + 4 \<le> ba_bitarray ?bm \<or> ba_bitarray ?bm + unat (sb_blocks_per_group d) div 8 < p"
    using p by (auto simp: ptr_apart_def)
  have a: "liberarBloque d p = Some d4"
    using g r n i by (simp add: liberarBloque_def d1_def d2_def d3_def d4_def Let_def)
  have bits: "bitarray_test_bit d4 ?bm j = bitarray_test_bit d1 ?bm j" if "j < unat (sb_blocks_per_group d)" for j
  proof (rule test_bit_cong)
    have "j div 8 \<le> unat (sb_blocks_per_group d) div 8" using that by (simp add: div_le_mono)
    then show "d4 (ba_bitarray ?bm + j div 8) = d1 (ba_bitarray ?bm + j div 8)"
      using M P by (auto simp: d4_def d3_def d2_def set_sb_free_blocks_def set_gd_free_blocks_count_def mem_simps)
  qed
  have "bitarray_test_bit d1 ?bm j \<longleftrightarrow> j \<noteq> i \<and> bitarray_test_bit d ?bm j" for j
    unfolding d1_def ba.test_clr by auto
  moreover have "sb_free_blocks d4 = sb_free_blocks d + 1" "gd_free_blocks_count d4 g = gd_free_blocks_count d g + 1"
    using M P(1) by (simp_all add: d4_def d3_def d2_def v sb_free_blocks_def set_sb_free_blocks_def
        set_gd_free_blocks_count_def gd_free_blocks_count_def mem_simps)
  moreover have "rd32 d4 p = 0"
    using M P(1) by (simp add: d4_def d3_def d2_def set_sb_free_blocks_def set_gd_free_blocks_count_def mem_simps)
  moreover have "d4 x = d x" if "x < read_superblock + 12 \<or> read_superblock + 16 \<le> x" "x < g + 12 \<or> g + 14 \<le> x"
      "x < p \<or> p + 4 \<le> x" "x \<noteq> ba_bitarray ?bm + i div 8" for x
    using that by (auto simp: d4_def d3_def d2_def v set_sb_free_blocks_def set_gd_free_blocks_count_def mem_simps)
  ultimately show ?thesis using a bits by auto
qed

text \<open>
  Releasing a block clears the pointer that named it, clears its bit in the bitmap of its group and no other, and
  adds one to both free counters, on a disk whose first data block is 1.
\<close>

theorem block_release:
  assumes "leerGroupDescriptor d nro = Some g" and "sb_first_data_block d = 1" and "meta_below d g"
    and "i < unat (sb_blocks_per_group d)" and "1 + unat nro * unat (sb_blocks_per_group d) + i < 2 ^ 32"
    and "ptr_apart d g p" and "rd32 d p = 1 + sb_blocks_per_group d * nro + of_nat i"
  shows "\<exists>d'. liberarBloque d p = Some d' \<and> rd32 d' p = 0 \<and>
    (\<forall>j < unat (sb_blocks_per_group d). bitarray_test_bit d' (block_bitmap d g) j \<longleftrightarrow> j \<noteq> i \<and> bitarray_test_bit d (block_bitmap d g) j) \<and>
    sb_free_blocks d' = sb_free_blocks d + 1 \<and> gd_free_blocks_count d' g = gd_free_blocks_count d g + 1"
proof -
  note G = group_arith [OF assms(4,5)]
  obtain r where r: "reduce_loop (sb_blocks_per_group d) (rd32 d p) = Some r" "unat (r - 1) = i" using G(3) by (auto simp: assms(7))
  have "(rd32 d p - sb_first_data_block d) div sb_blocks_per_group d = nro" unfolding assms(2,7) by (rule G(2))
  from liberar_raw [OF assms(1,3,6) this r assms(4)] show ?thesis by blast
qed

text \<open>A disk of 1024-byte blocks with one group of 16 blocks and 8 inodes; the bitmaps are blocks 3 and 4.\<close>

definition demo_disk :: mem where
  "demo_disk = wr32 (wr32 (wr32 (wr32 (wr32 (wr32 (wr32 (wr16 (wr16 (wr32 (\<lambda>_. 0)
     2056 5) 2060 13) 2062 6) 2052 4) 2048 3) 1024 8) 1036 13) 1044 1) 1056 16) 1064 8"

lemma demo_disk_fields:
  "leerGroupDescriptor demo_disk 0 = Some 2048" "sb_first_data_block demo_disk = 1"
  "sb_blocks_per_group demo_disk = 16" "ba_bitarray (block_bitmap demo_disk 2048) = 3072"
  "sb_free_blocks demo_disk = 13"
  by code_simp+

theorem block_allocation_witness:
  "\<exists>d'. getBloqueLibreDelBitmap demo_disk 0 = Some 1 \<and> actualizarEstructurasCuandoPidoBloque demo_disk 1 = Some d' \<and>
     sb_free_blocks d' = 12"
proof -
  have c: "\<not> bitarray_test_bit demo_disk (block_bitmap demo_disk 2048) 0" by code_simp
  moreover have "meta_below demo_disk 2048" by (simp add: meta_below_def demo_disk_fields read_superblock_def)
  ultimately obtain i b d' where r: "\<forall>j. j < i \<longrightarrow> bitarray_test_bit demo_disk (block_bitmap demo_disk 2048) j"
    "getBloqueLibreDelBitmap demo_disk 0 = Some b" "unat b = 1 + i"
    "actualizarEstructurasCuandoPidoBloque demo_disk b = Some d'" "sb_free_blocks d' = 12"
    using block_allocation [OF demo_disk_fields(1,2), of 0] by (auto simp: demo_disk_fields)
  have "i = 0" using r(1) c by blast
  then have "b = 1" using r(3) by (simp add: word_unat_eq_iff)
  then show ?thesis using r by auto
qed

definition demo_used :: mem where
  "demo_used = wr32 demo_disk 3100 1"

lemma demo_used_fields:
  "leerGroupDescriptor demo_used 0 = Some 2048" "sb_first_data_block demo_used = 1"
  "sb_blocks_per_group demo_used = 16" "ba_bitarray (block_bitmap demo_used 2048) = 3072"
  "rd32 demo_used 3100 = 1" "sb_free_blocks demo_used = 13"
  by code_simp+

theorem block_release_witness:
  "\<exists>d'. liberarBloque demo_used 3100 = Some d' \<and> rd32 d' 3100 = 0 \<and> sb_free_blocks d' = 14"
proof -
  have "meta_below demo_used 2048" "ptr_apart demo_used 2048 3100"
    by (simp_all add: meta_below_def ptr_apart_def demo_used_fields read_superblock_def)
  then show ?thesis
    using block_release [OF demo_used_fields(1,2), of 0 3100] by (auto simp: demo_used_fields)
qed

text \<open>
  With a first data block of 0 (block sizes above 1024) the release is wrong: in group 0, where
  block \<open>n\<close> has bit \<open>n\<close> (the allocator sets that bit), \<open>liberarBloque\<close>
  leaves the bit of the released block set and clears the bit of the block before it.
\<close>

theorem block_release_first_block_0:
  assumes "leerGroupDescriptor d 0 = Some g" and "sb_first_data_block d = 0" and "meta_below d g" and "ptr_apart d g p"
    and "0 < rd32 d p" and "rd32 d p < sb_blocks_per_group d"
  shows "\<exists>d'. liberarBloque d p = Some d' \<and>
    bitarray_test_bit d' (block_bitmap d g) (unat (rd32 d p)) = bitarray_test_bit d (block_bitmap d g) (unat (rd32 d p)) \<and>
    \<not> bitarray_test_bit d' (block_bitmap d g) (unat (rd32 d p) - 1)"
proof -
  let ?n = "rd32 d p"
  have u: "unat (?n - 1) = unat ?n - 1" using assms(5) by (simp add: unat_sub word_le_nat_alt word_less_nat_alt Suc_leI)
  have lt: "unat ?n < unat (sb_blocks_per_group d)" "0 < unat ?n" using assms(5,6) by (simp_all add: word_less_nat_alt)
  have "(?n - sb_first_data_block d) div sb_blocks_per_group d = 0"
    unfolding assms(2) using lt by (simp add: word_unat_eq_iff unat_div)
  moreover have "reduce_loop (sb_blocks_per_group d) ?n = Some ?n"
    using assms(6) by (subst reduce_loop.simps) auto
  moreover have "unat ?n - 1 < unat (sb_blocks_per_group d)" using lt by linarith
  ultimately obtain d' where d': "liberarBloque d p = Some d'"
    "\<And>j. j < unat (sb_blocks_per_group d) \<Longrightarrow> bitarray_test_bit d' (block_bitmap d g) j \<longleftrightarrow> j \<noteq> unat ?n - 1 \<and> bitarray_test_bit d (block_bitmap d g) j"
    using liberar_raw [OF assms(1,3,4), of ?n "unat ?n - 1"] u by blast
  have "unat ?n \<noteq> unat ?n - 1" "unat ?n - 1 < unat (sb_blocks_per_group d)" using lt by linarith+
  then show ?thesis using d' lt by auto
qed

definition demo_zero :: mem where
  "demo_zero = wr32 (wr32 demo_disk 3100 5) 1044 0"

lemma demo_zero_fields:
  "leerGroupDescriptor demo_zero 0 = Some 2048" "sb_first_data_block demo_zero = 0"
  "sb_blocks_per_group demo_zero = 16" "ba_bitarray (block_bitmap demo_zero 2048) = 3072" "rd32 demo_zero 3100 = 5"
  by code_simp+

theorem block_release_first_block_0_witness:
  "\<exists>d'. liberarBloque demo_zero 3100 = Some d' \<and> \<not> bitarray_test_bit d' (block_bitmap demo_zero 2048) 4"
proof -
  have "meta_below demo_zero 2048" "ptr_apart demo_zero 2048 3100"
    by (simp_all add: meta_below_def ptr_apart_def demo_zero_fields read_superblock_def)
  then show ?thesis
    using block_release_first_block_0 [OF demo_zero_fields(1,2), of 3100] by (auto simp: demo_zero_fields)
qed

section \<open>The group search\<close>

lemma grupo_loop_full:
  assumes "\<forall>n < cantidadDeGrupos d. \<exists>g. leerGroupDescriptor d n = Some g \<and> gd_free_blocks_count d g = 0"
  shows "nro < cantidadDeGrupos d \<Longrightarrow> grupo_loop d nro v =
    (if v then Some (False, cantidadDeGrupos d) else grupo_loop d 0 True)"
proof (induction "unat (cantidadDeGrupos d) - unat nro" arbitrary: nro rule: less_induct)
  case less
  let ?c = "cantidadDeGrupos d"
  obtain g where g: "leerGroupDescriptor d nro = Some g" "gd_free_blocks_count d g = 0" using assms less.prems by blast
  have lt: "unat nro < unat ?c" using less.prems by (simp add: word_less_nat_alt)
  moreover have "unat ?c < 2 ^ 32" using unsigned_less [of ?c] by simp
  ultimately have u: "unat (nro + 1) = unat nro + 1" by (simp add: unat_word_ariths)
  show ?case
  proof (cases "nro + 1 = ?c")
    case True
    then show ?thesis using g by (subst grupo_loop.simps) (simp add: Let_def)
  next
    case False
    then have "nro + 1 < ?c" using lt u by (metis Suc_eq_plus1 Suc_leI le_neq_implies_less word_less_nat_alt word_unat_eq_iff)
    moreover have "unat ?c - unat (nro + 1) < unat ?c - unat nro" using lt u by linarith
    ultimately have "grupo_loop d (nro + 1) v = (if v then Some (False, ?c) else grupo_loop d 0 True)"
      using less.hyps by blast
    then show ?thesis using g False by (subst grupo_loop.simps) (simp add: Let_def)
  qed
qed

text \<open>
  When no group has a free block, the search for one ends after it has gone around once, gives no group, and leaves
  \<open>nro_de_grupo\<close> equal to the number of groups, a group that does not exist.
\<close>

theorem no_free_block:
  assumes "\<forall>n < cantidadDeGrupos (disk s). \<exists>g. leerGroupDescriptor (disk s) n = Some g \<and> gd_free_blocks_count (disk s) g = 0"
    and "nro_de_grupo s < cantidadDeGrupos (disk s)"
  shows "getBloqueLibre s = Some (0, s\<lparr>nro_de_grupo := cantidadDeGrupos (disk s)\<rparr>)"
proof -
  have "0 < cantidadDeGrupos (disk s)" using assms(2) word_gt_0 by fastforce
  then show ?thesis using grupo_loop_full [OF assms(1)] assms(2) by (simp add: getBloqueLibre_def)
qed

definition demo_full_disk :: mem where
  "demo_full_disk = wr32 (wr32 (\<lambda>_. 0) 1024 8) 1064 8"

theorem no_free_block_witness:
  "getBloqueLibre \<lparr>disk = demo_full_disk, nro_de_grupo = 0\<rparr> = Some (0, \<lparr>disk = demo_full_disk, nro_de_grupo = 1\<rparr>)"
proof -
  have c: "cantidadDeGrupos demo_full_disk = 1" and g: "leerGroupDescriptor demo_full_disk 0 = Some 2048"
    and f: "gd_free_blocks_count demo_full_disk 2048 = 0" by code_simp+
  have "n = 0" if "n < 1" for n :: u32 using that by (simp add: word_less_nat_alt word_unat_eq_iff)
  then have "\<forall>n < cantidadDeGrupos demo_full_disk. \<exists>g. leerGroupDescriptor demo_full_disk n = Some g \<and>
      gd_free_blocks_count demo_full_disk g = 0" using c g f by auto
  then show ?thesis using no_free_block [of "\<lparr>disk = demo_full_disk, nro_de_grupo = 0\<rparr>"] c by simp
qed

end
