(* ===== verification/CString.thy ===== *)
theory CString
  imports Base
begin

unbundle bit_operations_syntax

text \<open>
  The string utilities of \<open>commons/src/commons/string.c\<close> over C strings, with the functions
  of \<open>ctype.h\<close> and \<open>string.h\<close> they call (in the C locale), and the decimal rendering of
  block numbers and client ids that the caches and the dictionaries use as keys.
\<close>

section \<open>The C library functions used\<close>

definition c_toupper :: "byte \<Rightarrow> byte" where
  "c_toupper c = (if 97 \<le> c \<and> c \<le> 122 then c - 32 else c)"

definition c_tolower :: "byte \<Rightarrow> byte" where
  "c_tolower c = (if 65 \<le> c \<and> c \<le> 90 then c + 32 else c)"

definition c_isblank :: "byte \<Rightarrow> bool" where
  "c_isblank c \<longleftrightarrow> c = 32 \<or> c = 9"

definition c_isspace :: "byte \<Rightarrow> bool" where
  "c_isspace c \<longleftrightarrow> c = 32 \<or> (9 \<le> c \<and> c \<le> 13)"

text \<open>
  \<open>strncmp s t n = 0\<close> compares at most \<open>n\<close> bytes and stops after a NUL both have: equality
  of the first \<open>n\<close> bytes of the strings followed by their NUL.
\<close>

definition strncmp_eq :: "cstr \<Rightarrow> cstr \<Rightarrow> nat \<Rightarrow> bool" where
  "strncmp_eq s t n \<longleftrightarrow> take n (s @ [0]) = take n (t @ [0])"

definition strcasecmp_eq :: "cstr \<Rightarrow> cstr \<Rightarrow> bool" where
  "strcasecmp_eq s t \<longleftrightarrow> map c_tolower s = map c_tolower t"

text \<open>
  One call of \<open>strtok_r\<close> on the rest of the text: leading separators are skipped, the token
  ends before the next separator, which is overwritten and skipped.
\<close>

definition strtok_r :: "cstr \<Rightarrow> byte set \<Rightarrow> (cstr \<times> cstr) option" where
  "strtok_r rest seps = (case dropWhile (\<lambda>c. c \<in> seps) rest of
      [] \<Rightarrow> None
    | c # cs \<Rightarrow> Some (takeWhile (\<lambda>c. c \<notin> seps) (c # cs),
                  drop 1 (dropWhile (\<lambda>c. c \<notin> seps) (c # cs))))"

lemma length_dropWhile_le': "length (dropWhile P xs) \<le> length xs"
  by (induction xs) auto

lemma strtok_r_shorter: "strtok_r rest seps = Some (tok, rest') \<Longrightarrow> length rest' < length rest"
proof -
  assume "strtok_r rest seps = Some (tok, rest')"
  then obtain c cs where d: "dropWhile (\<lambda>c. c \<in> seps) rest = c # cs"
    and r: "rest' = drop 1 (dropWhile (\<lambda>c. c \<notin> seps) (c # cs))"
    by (auto simp: strtok_r_def split: list.splits)
  have "length (c # cs) \<le> length rest"
    using length_dropWhile_le' [of "\<lambda>c. c \<in> seps" rest] d by simp
  moreover have "length (dropWhile (\<lambda>c. c \<notin> seps) (c # cs)) \<le> length (c # cs)"
    by (rule length_dropWhile_le')
  ultimately show ?thesis using r by (auto simp del: dropWhile.simps)
qed

section \<open>string.c\<close>

definition string_repeat :: "byte \<Rightarrow> nat \<Rightarrow> cstr" where
  "string_repeat character count = replicate count character"

definition string_duplicate :: "cstr \<Rightarrow> cstr" where
  "string_duplicate original = original"

definition string_append :: "cstr \<Rightarrow> cstr \<Rightarrow> cstr" where
  "string_append original string_to_add = original @ string_to_add"

primrec string_do :: "cstr \<Rightarrow> (byte \<Rightarrow> byte) \<Rightarrow> cstr" where
  "string_do [] closure = []"
| "string_do (c # cs) closure = closure c # string_do cs closure"

definition string_to_upper :: "cstr \<Rightarrow> cstr" where
  "string_to_upper text = string_do text c_toupper"

definition string_to_lower :: "cstr \<Rightarrow> cstr" where
  "string_to_lower text = string_do text c_tolower"

definition string_is_empty :: "cstr \<Rightarrow> bool" where
  "string_is_empty text \<longleftrightarrow> length text = 0"

definition string_capitalized :: "cstr \<Rightarrow> cstr" where
  "string_capitalized text =
     (if \<not> string_is_empty text
      then let up = c_toupper (hd text) # tl text
           in if length up \<ge> 2 then hd up # string_to_lower (tl up) else up
      else text)"

definition string_trim_left :: "cstr \<Rightarrow> cstr" where
  "string_trim_left text = string_duplicate (dropWhile c_isblank text)"

text \<open>The loop of \<open>string_trim_right\<close>: from the last index down, blanks become NUL.\<close>

fun trim_right_loop :: "cstr \<Rightarrow> nat \<Rightarrow> cstr" where
  "trim_right_loop text 0 = take 0 text"
| "trim_right_loop text (Suc i) =
     (if c_isspace (text ! i) then trim_right_loop text i else take (Suc i) text)"

definition string_trim_right :: "cstr \<Rightarrow> cstr" where
  "string_trim_right text = trim_right_loop text (length text)"

definition string_trim :: "cstr \<Rightarrow> cstr" where
  "string_trim text = string_trim_right (string_trim_left text)"

definition string_starts_with :: "cstr \<Rightarrow> cstr \<Rightarrow> bool" where
  "string_starts_with text begn \<longleftrightarrow> strncmp_eq text begn (length begn)"

definition string_ends_with :: "cstr \<Rightarrow> cstr \<Rightarrow> bool" where
  "string_ends_with text en =
     (if length text < length en then False
      else drop (length text - length en) text = en)"

definition string_equals_ignore_case :: "cstr \<Rightarrow> cstr \<Rightarrow> bool" where
  "string_equals_ignore_case actual expected \<longleftrightarrow> strcasecmp_eq actual expected"

text \<open>The tokenizing loop shared by \<open>string_split\<close> and \<open>size_array_before_split\<close>.\<close>

function string_split_loop :: "cstr \<Rightarrow> byte set \<Rightarrow> cstr list" where
  "string_split_loop rest seps = (case strtok_r rest seps of
      None \<Rightarrow> []
    | Some (token, next) \<Rightarrow> string_duplicate token # string_split_loop next seps)"
  by pat_completeness auto
termination
  by (relation "measure (\<lambda>(rest, seps). length rest)") (auto dest: strtok_r_shorter)

declare string_split_loop.simps [simp del]

definition string_split :: "cstr \<Rightarrow> cstr \<Rightarrow> cstr list" where
  "string_split text separator = string_split_loop (string_duplicate text) (set separator)"

function size_split_loop :: "cstr \<Rightarrow> byte set \<Rightarrow> nat \<Rightarrow> nat" where
  "size_split_loop rest seps n = (case strtok_r rest seps of
      None \<Rightarrow> n
    | Some (token, next) \<Rightarrow> size_split_loop next seps (n + 1))"
  by pat_completeness auto
termination
  by (relation "measure (\<lambda>(rest, seps, n). length rest)") (auto dest: strtok_r_shorter)

declare size_split_loop.simps [simp del]

definition size_array_before_split :: "cstr \<Rightarrow> cstr \<Rightarrow> nat" where
  "size_array_before_split text separator = size_split_loop (string_duplicate text) (set separator) 0"

primrec string_iterate_lines :: "cstr list \<Rightarrow> (cstr \<Rightarrow> 's \<Rightarrow> 's) \<Rightarrow> 's \<Rightarrow> 's" where
  "string_iterate_lines [] closure s = s"
| "string_iterate_lines (x # xs) closure s = string_iterate_lines xs closure (closure x s)"

text \<open>\<open>sprintf(buffer, "%u", number)\<close>: the decimal digits, most significant first.\<close>

fun digits_of :: "nat \<Rightarrow> cstr" where
  "digits_of n = (if n < 10 then [of_nat (48 + n)]
     else digits_of (n div 10) @ [of_nat (48 + n mod 10)])"

declare digits_of.simps [simp del]

definition string_from_uint32 :: "u32 \<Rightarrow> cstr" where
  "string_from_uint32 number = digits_of (unat number)"

section \<open>Splitting and joining\<close>

text \<open>A path component: not empty, without separators.\<close>

definition component :: "byte set \<Rightarrow> cstr \<Rightarrow> bool" where
  "component seps s \<longleftrightarrow> s \<noteq> [] \<and> (\<forall>c \<in> set s. c \<notin> seps)"

primrec join_path :: "byte \<Rightarrow> cstr list \<Rightarrow> cstr" where
  "join_path sep [] = []"
| "join_path sep (c # cs) = sep # c @ join_path sep cs"

lemma join_path_Nil_or_sep: "join_path sep cs = [] \<or> hd (join_path sep cs) = sep"
  by (cases cs) auto

lemma takeWhile_component:
  "(\<forall>c \<in> set s. c \<notin> seps) \<Longrightarrow> rest = [] \<or> hd rest \<in> seps \<Longrightarrow>
     takeWhile (\<lambda>c. c \<notin> seps) (s @ rest) = s \<and> dropWhile (\<lambda>c. c \<notin> seps) (s @ rest) = rest"
  by (induction s) (auto, cases rest, auto, cases rest, auto)

lemma strtok_r_component:
  assumes s: "component seps s" and r: "rest = [] \<or> hd rest \<in> seps"
  shows "strtok_r (s @ rest) seps = Some (s, drop 1 rest)"
proof -
  obtain c cs where c: "s = c # cs" "c \<notin> seps"
    using s by (cases s) (auto simp: component_def)
  then have "dropWhile (\<lambda>c. c \<in> seps) (s @ rest) = c # cs @ rest" by simp
  moreover have "takeWhile (\<lambda>c. c \<notin> seps) (c # cs @ rest) = s \<and>
      dropWhile (\<lambda>c. c \<notin> seps) (c # cs @ rest) = rest"
    using takeWhile_component [of s seps rest] s r c(1) by (auto simp: component_def)
  ultimately show ?thesis by (simp add: strtok_r_def)
qed

lemma strtok_r_skip: "c \<in> seps \<Longrightarrow> strtok_r (c # rest) seps = strtok_r rest seps"
  by (simp add: strtok_r_def)

lemma string_split_loop_skip: "c \<in> seps \<Longrightarrow> string_split_loop (c # rest) seps = string_split_loop rest seps"
  by (subst (1 2) string_split_loop.simps) (simp add: strtok_r_skip)

lemma string_split_loop_drop1:
  "rest = [] \<or> hd rest \<in> seps \<Longrightarrow> string_split_loop (drop 1 rest) seps = string_split_loop rest seps"
  by (cases rest) (auto simp: string_split_loop_skip)

lemma string_split_loop_join:
  "sep \<in> seps \<Longrightarrow> (\<forall>c \<in> set cs. component seps c) \<Longrightarrow>
     string_split_loop (join_path sep cs) seps = cs"
proof (induction cs)
  case Nil
  then show ?case by (subst string_split_loop.simps) (simp add: strtok_r_def)
next
  case (Cons c cs)
  let ?rest = "join_path sep cs"
  have r: "?rest = [] \<or> hd ?rest \<in> seps" using join_path_Nil_or_sep [of sep cs] Cons.prems(1) by metis
  have "string_split_loop (c @ ?rest) seps = c # string_split_loop (drop 1 ?rest) seps"
    using strtok_r_component [OF _ r] Cons.prems(2)
    by (subst string_split_loop.simps) (simp add: string_duplicate_def)
  then show ?case
    using Cons string_split_loop_drop1 [OF r] by (simp add: string_split_loop_skip)
qed

text \<open>
  Splitting a path inverts joining its components: for non-empty components without the
  separator, \<open>string_split\<close> of \<open>/c\<^sub>1/\<dots>/c\<^sub>n\<close> returns exactly \<open>c\<^sub>1, \<dots>, c\<^sub>n\<close>. Path
  resolution in the file system rests on it.
\<close>

theorem string_split_join_path:
  assumes "\<And>c. c \<in> set cs \<Longrightarrow> component {sep} c"
  shows "string_split (join_path sep cs) [sep] = cs"
  using assms string_split_loop_join [of sep "{sep}" cs]
  by (simp add: string_split_def string_duplicate_def)

lemma size_split_loop_length:
  "size_split_loop rest seps n = n + length (string_split_loop rest seps)"
proof (induction rest seps n rule: size_split_loop.induct)
  case (1 rest seps n)
  show ?case
  proof (cases "strtok_r rest seps")
    case None
    then show ?thesis
      by (simp add: size_split_loop.simps [of rest] string_split_loop.simps [of rest])
  next
    case (Some p)
    then obtain tok nxt where "p = (tok, nxt)" by (cases p)
    with Some 1 [OF Some, of tok nxt] show ?thesis
      by (simp add: size_split_loop.simps [of rest] string_split_loop.simps [of rest])
  qed
qed

lemma dropWhile_first: "dropWhile P xs = y # ys \<Longrightarrow> \<not> P y"
  by (induction xs) (auto split: if_splits)

lemma strtok_r_token: "strtok_r rest seps = Some (tok, rest') \<Longrightarrow> component seps tok"
  by (auto simp: strtok_r_def component_def dest: dropWhile_first set_takeWhileD split: list.splits)

lemma string_split_loop_components: "t \<in> set (string_split_loop rest seps) \<Longrightarrow> component seps t"
proof (induction rest seps rule: string_split_loop.induct)
  case (1 rest seps)
  show ?case
  proof (cases "strtok_r rest seps")
    case None
    then show ?thesis using "1.prems" by (simp add: string_split_loop.simps [of rest])
  next
    case (Some p)
    then obtain tok nxt where p: "p = (tok, nxt)" by (cases p)
    then have "t = tok \<or> t \<in> set (string_split_loop nxt seps)"
      using Some "1.prems" by (simp add: string_split_loop.simps [of rest] string_duplicate_def)
    then show ?thesis using "1.IH" [OF Some, of tok nxt] p Some strtok_r_token by auto
  qed
qed

text \<open>
  \<open>size_array_before_split\<close> counts what \<open>string_split\<close> returns, and every token is a
  non-empty string without separators, for any text and separators.
\<close>

theorem size_array_before_split_counts:
  "size_array_before_split text seps = length (string_split text seps) \<and>
   list_all (component (set seps)) (string_split text seps)"
  using string_split_loop_components
  by (auto simp: size_array_before_split_def string_split_def size_split_loop_length
      string_duplicate_def list_all_iff)

section \<open>Case, trimming and decimal keys\<close>

lemma string_do_map: "string_do s f = map f s"
  by (induction s) auto

lemma trim_right_loop_take: "i \<le> length s \<Longrightarrow> \<exists>k \<le> i. trim_right_loop s i = take k s \<and>
    (k = 0 \<or> \<not> c_isspace (s ! (k - 1))) \<and> (\<forall>j. k \<le> j \<and> j < i \<longrightarrow> c_isspace (s ! j))"
proof (induction s i rule: trim_right_loop.induct)
  case (1 s)
  then show ?case by auto
next
  case (2 s i)
  show ?case
  proof (cases "c_isspace (s ! i)")
    case True
    then obtain k where "k \<le> i" "trim_right_loop s i = take k s"
      "k = 0 \<or> \<not> c_isspace (s ! (k - 1))" "\<forall>j. k \<le> j \<and> j < i \<longrightarrow> c_isspace (s ! j)"
      using 2 by auto
    with True show ?thesis by (intro exI [of _ k]) (auto simp: less_Suc_eq)
  next
    case False
    then show ?thesis by (intro exI [of _ "Suc i"]) auto
  qed
qed

lemma c_tolower_idem: "c_tolower (c_tolower c) = c_tolower c"
  by (simp add: c_tolower_def) (unat_arith; simp)

lemma map_snoc_inject: "xs @ [x] = ys @ [y] \<longleftrightarrow> xs = ys \<and> x = y"
  by simp

lemma digit_inject: "m < 10 \<Longrightarrow> n < 10 \<Longrightarrow> (of_nat (48 + m) :: byte) = of_nat (48 + n) \<longleftrightarrow> m = n"
proof -
  assume "m < 10" "n < 10"
  moreover have "unat (of_nat (48 + m) :: byte) = 48 + m" if "m < 10" for m :: nat
    using that by (simp add: unat_of_nat take_bit_nat_eq_self del: of_nat_add)
  ultimately show ?thesis by (metis add_left_cancel)
qed

lemma digits_of_not_Nil: "digits_of n \<noteq> []"
  by (subst digits_of.simps) simp

lemma digits_of_inject: "digits_of m = digits_of n \<Longrightarrow> m = n"
proof (induction m arbitrary: n rule: digits_of.induct)
  case (1 m)
  let ?d = "\<lambda>k. (of_nat (48 + k) :: byte)"
  have step: "digits_of k = (if k < 10 then [?d k] else digits_of (k div 10) @ [?d (k mod 10)])" for k
    by (subst digits_of.simps) simp
  show ?case
  proof (cases "m < 10")
    case True
    then have "n < 10" using "1.prems" digits_of_not_Nil [of "n div 10"]
      by (auto simp: step [of m] step [of n] split: if_splits)
    with True show ?thesis using "1.prems" digit_inject [of m n]
      by (simp add: step [of m] step [of n] del: of_nat_add)
  next
    case False
    then have n: "\<not> n < 10" using "1.prems" digits_of_not_Nil [of "m div 10"]
      by (auto simp: step [of m] step [of n] split: if_splits)
    with False have "digits_of (m div 10) = digits_of (n div 10)"
      and d: "?d (m mod 10) = ?d (n mod 10)"
      using "1.prems" by (auto simp: step [of m] step [of n] simp del: of_nat_add)
    then have "m div 10 = n div 10" using "1.IH" False by blast
    moreover have "m mod 10 = n mod 10" using d digit_inject by simp
    ultimately show ?thesis by (metis mult_div_mod_eq)
  qed
qed

text \<open>
  The decimal rendering used as a key is injective: two different block numbers (or
  client ids) never share a cache or dictionary key.
\<close>

lemma string_from_uint32_inject [simp]: "string_from_uint32 a = string_from_uint32 b \<longleftrightarrow> a = b"
  by (metis digits_of_inject string_from_uint32_def word_unat_eq_iff)

theorem string_split_join_path_witness:
  "string_split (join_path 47 [[97], [98, 99]]) [47] = [[97], [98, 99]]"
  by (rule string_split_join_path) (auto simp: component_def)

end
