(* ===== verification/Directory.thy ===== *)
theory Directory
  imports Ext2 CString Nipc
begin

unbundle bit_operations_syntax

text \<open>
  Directory entries, path lookup and the addition and removal of entries, of \<open>rfs/src/funciones_rfs.c\<close>.
  An entry of \<open>malloc\<close>ed memory is a record; its \<open>type\<close> byte is never set by the code for a new
  entry, so that the value found there is an argument (\<open>basura\<close>). The scans of a block
  are \<open>partial_function\<close>s: an entry of length 0 makes some of them run for ever.
\<close>

definition ENOENT :: int where "ENOENT = 2"
definition EEXIST :: int where "EEXIST = 17"
definition ENOSPC :: int where "ENOSPC = 28"
definition ENOTEMPTY :: int where "ENOTEMPTY = 39"
definition EINVAL :: int where "EINVAL = 22"

section \<open>Entries\<close>

record DirEntry =
  de_inode :: u32
  de_entry_len :: u16
  de_name_len :: byte
  de_type :: byte
  de_name :: buffer

definition leerEntrada :: "mem \<Rightarrow> nat \<Rightarrow> DirEntry" where
  "leerEntrada d disco =
     (let inode = rd32 d disco; entry_len = rd16 d (disco + 4); name_len = rd8 d (disco + 6);
          typ = rd8 d (disco + 7)
      in \<lparr>de_inode = inode, de_entry_len = entry_len, de_name_len = name_len, de_type = typ,
          de_name = mem_read d (disco + 8) (unat name_len)\<rparr>)"

definition grabarEntrada :: "mem \<Rightarrow> nat \<Rightarrow> DirEntry \<Rightarrow> mem" where
  "grabarEntrada d disco entrada =
     (let d1 = wr32 d disco (de_inode entrada);
          d2 = wr16 d1 (disco + 4) (de_entry_len entrada);
          d3 = wr8 d2 (disco + 6) (de_name_len entrada);
          d4 = wr8 d3 (disco + 7) (de_type entrada)
      in mem_write d4 (disco + 8) (take (unat (de_name_len entrada)) (de_name entrada)))"

text \<open>\<open>calloc(1, name_len + 1)\<close> and \<open>memcpy\<close>: the name as a C string.\<close>

definition entry_name :: "DirEntry \<Rightarrow> cstr" where
  "entry_name e = takeWhile (\<lambda>c. c \<noteq> 0) (de_name e)"

definition tamanioMinEntradaDirectorio :: "cstr \<Rightarrow> u32" where
  "tamanioMinEntradaDirectorio nombre =
     (let tamanio_entrada = 12 - 4 + of_nat (length nombre); resto = tamanio_entrada mod 4;
          padding = (if resto = 0 then 0 else 4 - resto)
      in tamanio_entrada + padding)"

section \<open>Lookup\<close>

partial_function (option) buscar_loop :: "mem \<Rightarrow> cstr \<Rightarrow> nat \<Rightarrow> u16 \<Rightarrow> u32 option" where
  [code]: "buscar_loop d ruta ptr cantidad =
     (let directorio = leerEntrada d ptr in
      if unat (tamanioDeBloque d) > unat cantidad \<and> de_entry_len directorio \<noteq> 0
      then if string_equals_ignore_case (entry_name directorio) ruta then Some (de_inode directorio)
           else buscar_loop d ruta (ptr + unat (de_entry_len directorio)) (cantidad + de_entry_len directorio)
      else Some 0)"

partial_function (option) buscar_bloques :: "mem \<Rightarrow> nat \<Rightarrow> cstr \<Rightarrow> u32 \<Rightarrow> u32 option" where
  [code]: "buscar_bloques d inodo ruta offset =
     (if offset < ino_size d inodo
      then Option.bind (posicionarme d inodo (nroBloqueDentroDelInodo d offset) 0) (\<lambda>ptr.
        Option.bind (buscar_loop d ruta ptr 0) (\<lambda>n.
        if n = 0 then buscar_bloques d inodo ruta (offset + tamanioDeBloque d) else Some n))
      else Some 0)"

definition buscarNroInodoEnEntradasDirectorio :: "mem \<Rightarrow> nat \<Rightarrow> cstr \<Rightarrow> u32 option" where
  "buscarNroInodoEnEntradasDirectorio d inodoDeBusqueda ruta = buscar_bloques d inodoDeBusqueda ruta 0"

fun path_loop :: "mem \<Rightarrow> cstr list \<Rightarrow> u32 \<Rightarrow> nat \<Rightarrow> u32 option" where
  "path_loop d [] nro inodo = Some nro"
| "path_loop d (t # ts) nro inodo =
     (if EXT2_INODE_HAS_MODE_FLAG d inodo EXT2_S_IFDIR
      then do {
        n \<leftarrow> buscarNroInodoEnEntradasDirectorio d inodo t;
        (if n = 0 then Some 0
         else do {
           inodo' \<leftarrow> inodo_at d n;
           path_loop d ts n inodo' }) }
      else Some 0)"

definition SEPARADOR :: cstr where "SEPARADOR = str ''/''"

definition getNroInodoDeLaDireccionDelPath :: "mem \<Rightarrow> cstr \<Rightarrow> u32 option" where
  "getNroInodoDeLaDireccionDelPath d path = do {
     inodo \<leftarrow> inodo_at d 2;
     path_loop d (string_split path SEPARADOR) 2 inodo }"

definition getInodoDeLaDireccionDelPath :: "mem \<Rightarrow> cstr \<Rightarrow> nat option option" where
  "getInodoDeLaDireccionDelPath d path = do {
     n \<leftarrow> getNroInodoDeLaDireccionDelPath d path;
     (if n = 0 then Some None else getInodo d n) }"

record t_ruta_separada =
  ruta :: cstr
  nombre :: cstr

definition separarPathParaNewDirEntry :: "cstr \<Rightarrow> t_ruta_separada" where
  "separarPathParaNewDirEntry path =
     (if size_array_before_split path SEPARADOR \<le> 1
      then (case string_split path SEPARADOR of
              [] \<Rightarrow> \<lparr>ruta = [], nombre = []\<rparr>
            | t # _ \<Rightarrow> \<lparr>ruta = [], nombre = t\<rparr>)
      else let nombre_carpeta = rev (takeWhile (\<lambda>c. c \<noteq> 47) (rev path))
           in \<lparr>ruta = take (length path - (length nombre_carpeta + 1)) path, nombre = nombre_carpeta\<rparr>)"

section \<open>Listing\<close>

partial_function (option) cargar_loop :: "mem \<Rightarrow> nat \<Rightarrow> u16 \<Rightarrow> readdir_entry list \<Rightarrow> readdir_entry list option" where
  [code]: "cargar_loop d ptr cantidad entradas =
     (if unat (tamanioDeBloque d) > unat cantidad
      then let e = leerEntrada d ptr in
        Option.bind (getInodo d (de_inode e)) (\<lambda>p. case p of
            None \<Rightarrow> Some entradas
          | Some ino \<Rightarrow>
              cargar_loop d (ptr + unat (de_entry_len e)) (cantidad + de_entry_len e)
                (entradas @ [\<lparr>re_path = Some (entry_name e), re_mode = ucast (ino_mode d ino),
                   re_size = ino_size d ino, re_n_link = ucast (ino_links d ino), re_blocks = ino_nr_blocks d ino\<rparr>]))
      else Some entradas)"

partial_function (option) cargar_bloques :: "mem \<Rightarrow> nat \<Rightarrow> u32 \<Rightarrow> readdir_entry list \<Rightarrow> readdir_entry list option" where
  [code]: "cargar_bloques d directorio offset entradas =
     (if offset < ino_size d directorio
      then Option.bind (posicionarme d directorio (nroBloqueDentroDelInodo d offset) 0) (\<lambda>ptr.
        Option.bind (cargar_loop d ptr 0 entradas) (\<lambda>es.
        cargar_bloques d directorio (offset + tamanioDeBloque d) es))
      else Some entradas)"

definition cargarEntradasDirectorioALista :: "mem \<Rightarrow> nat \<Rightarrow> readdir_entry list option" where
  "cargarEntradasDirectorioALista d directorio = cargar_bloques d directorio 0 []"

definition listarDirectorio :: "mem \<Rightarrow> cstr \<Rightarrow> readdir_entry list option" where
  "listarDirectorio d path = do {
     nroInodoDeRuta \<leftarrow> getNroInodoDeLaDireccionDelPath d (ruta (separarPathParaNewDirEntry path));
     (if nroInodoDeRuta \<noteq> 0
      then do {
        nroInodoDeDirectorio \<leftarrow> getNroInodoDeLaDireccionDelPath d path;
        (if nroInodoDeDirectorio \<noteq> 0
         then do { inodo \<leftarrow> inodo_at d nroInodoDeDirectorio; cargarEntradasDirectorioALista d inodo }
         else Some []) }
      else Some []) }"

section \<open>Adding an entry\<close>

definition agregarNuevaEntrada :: "byte \<Rightarrow> mem \<Rightarrow> nat \<Rightarrow> cstr \<Rightarrow> u32 \<Rightarrow> (int \<times> mem) option" where
  "agregarNuevaEntrada basura d ptrEntradaDirectorio nombr sizeRestante = do {
     (nroInodoLibre, d1) \<leftarrow> getInodoLibre d;
     (if nroInodoLibre \<noteq> 0
      then do {
        let name_len = (of_nat (length nombr) :: byte);
        let d2 = grabarEntrada d1 ptrEntradaDirectorio
               \<lparr>de_inode = nroInodoLibre, de_entry_len = ucast sizeRestante, de_name_len = name_len,
                de_type = basura, de_name = take (unat name_len) nombr\<rparr>;
        inodo \<leftarrow> inodo_at d2 nroInodoLibre;
        Some (0, set_ino_size d2 inodo 0) }
      else Some (ENOSPC, d1)) }"

text \<open>The scan of a block for room: \<open>None\<close> when the block has none, else the result of the addition.\<close>

partial_function (option) agregar_loop ::
    "byte \<Rightarrow> cstr \<Rightarrow> mem \<Rightarrow> nat \<Rightarrow> u16 \<Rightarrow> (int \<times> mem) option option" where
  [code]: "agregar_loop basura nameNewEntry d ptr cantidad =
     (if unat (tamanioDeBloque d) > unat cantidad
      then let directorio = leerEntrada d ptr;
               sizeMin = tamanioMinEntradaDirectorio (entry_name directorio);
               resto = ucast (de_entry_len directorio) - sizeMin in
        if resto \<ge> tamanioMinEntradaDirectorio nameNewEntry
        then Option.bind (agregarNuevaEntrada basura d (ptr + unat sizeMin) nameNewEntry resto) (\<lambda>(e, d1).
          Some (Some (if e = 0 then (0, grabarEntrada d1 ptr (directorio\<lparr>de_entry_len := ucast sizeMin\<rparr>)) else (e, d1))))
        else agregar_loop basura nameNewEntry d (ptr + unat (de_entry_len directorio)) (cantidad + de_entry_len directorio)
      else Some None)"

partial_function (option) agregar_bloques ::
    "byte \<Rightarrow> cstr \<Rightarrow> mem \<Rightarrow> nat \<Rightarrow> u32 \<Rightarrow> u32 \<Rightarrow> ((int \<times> mem) option \<times> u32) option" where
  [code]: "agregar_bloques basura nameNewEntry d inodo tamanio offset =
     (if offset < tamanio
      then Option.bind (posicionarme d inodo (nroBloqueDentroDelInodo d offset) 0) (\<lambda>ptr.
        Option.bind (agregar_loop basura nameNewEntry d ptr 0) (\<lambda>r. case r of
            Some res \<Rightarrow> Some (Some res, offset)
          | None \<Rightarrow> agregar_bloques basura nameNewEntry d inodo tamanio (offset + tamanioDeBloque d)))
      else Some (None, offset))"

definition agregarEntradaDirectorio :: "byte \<Rightarrow> rfs \<Rightarrow> nat \<Rightarrow> cstr \<Rightarrow> (int \<times> rfs) option" where
  "agregarEntradaDirectorio basura s inodo nameNewEntry = do {
     (r, offset) \<leftarrow> agregar_bloques basura nameNewEntry (disk s) inodo (ino_size (disk s) inodo) 0;
     (case r of
        Some (e, d) \<Rightarrow> Some (e, s\<lparr>disk := d\<rparr>)
      | None \<Rightarrow> do {
          let nroBloqueLogico = nroBloqueDentroDelInodo (disk s) offset;
          (nroBloqueDeDato, s1) \<leftarrow> getBloqueLibre s;
          (if nroBloqueDeDato = 0 then Some (ENOSPC, s1)
           else do {
             d1 \<leftarrow> agregarAInodo (disk s1) inodo nroBloqueLogico nroBloqueDeDato;
             ptr \<leftarrow> posicionarme d1 inodo nroBloqueLogico 0;
             (e, d2) \<leftarrow> agregarNuevaEntrada basura d1 ptr nameNewEntry (tamanioDeBloque d1);
             Some (if e = 0 then (0, s1\<lparr>disk := set_ino_size d2 inodo (ino_size d2 inodo + tamanioDeBloque d2)\<rparr>)
                   else (e, s1\<lparr>disk := d2\<rparr>)) }) }) }"

definition inicializarEntradasNuevoDir :: "byte \<Rightarrow> byte \<Rightarrow> mem \<Rightarrow> nat \<Rightarrow> u32 \<Rightarrow> u32 \<Rightarrow> mem option" where
  "inicializarEntradasNuevoDir basura1 basura2 d inodo nroInodoEntradaNueva nroInodoRuta = do {
     ptr \<leftarrow> posicionarme d inodo 0 0;
     let tamanio_entrada = (ucast (tamanioMinEntradaDirectorio (str ''.'')) :: u16);
     let d1 = grabarEntrada d ptr \<lparr>de_inode = nroInodoEntradaNueva, de_entry_len = tamanio_entrada, de_name_len = 1,
            de_type = basura1, de_name = str ''.''\<rparr>;
     ptr2 \<leftarrow> posicionarme d1 inodo 0 (ucast tamanio_entrada);
     let tamanio2 = (ucast (tamanioDeBloque d1) - tamanio_entrada :: u16);
     Some (grabarEntrada d1 ptr2 \<lparr>de_inode = nroInodoEntradaNueva, de_entry_len = tamanio2, de_name_len = 2,
            de_type = basura2, de_name = str ''..''\<rparr>) }"

section \<open>Removing an entry\<close>

text \<open>The scan of a block: where the entry is, its length and the length of the entry before it (0 for the first).\<close>

partial_function (option) eliminar_loop ::
    "mem \<Rightarrow> cstr \<Rightarrow> nat \<Rightarrow> u16 \<Rightarrow> u32 \<Rightarrow> (nat \<times> u32 \<times> u32) option option" where
  [code]: "eliminar_loop d nombre_entrada ptr cantidad anterior =
     (if unat (tamanioDeBloque d) > unat cantidad
      then let directorio = leerEntrada d ptr in
        if string_equals_ignore_case (entry_name directorio) nombre_entrada
        then Some (Some (ptr, ucast (de_entry_len directorio), anterior))
        else eliminar_loop d nombre_entrada (ptr + unat (de_entry_len directorio)) (cantidad + de_entry_len directorio)
               (ucast (de_entry_len directorio))
      else Some None)"

partial_function (option) eliminar_bloques ::
    "mem \<Rightarrow> nat \<Rightarrow> cstr \<Rightarrow> u32 \<Rightarrow> u32 \<Rightarrow> (u32 \<times> nat \<times> u32 \<times> u32) option" where
  [code]: "eliminar_bloques d inodoRuta nombre_entrada tamanio offset =
     (if offset < tamanio
      then let nroBloqueLogico = nroBloqueDentroDelInodo d offset in
        Option.bind (posicionarme d inodoRuta nroBloqueLogico 0) (\<lambda>ptr.
        Option.bind (eliminar_loop d nombre_entrada ptr 0 0) (\<lambda>r. case r of
            Some hit \<Rightarrow> Some (nroBloqueLogico, hit)
          | None \<Rightarrow> eliminar_bloques d inodoRuta nombre_entrada tamanio (offset + tamanioDeBloque d)))
      else None)"

definition eliminarEntradaDirectorio :: "mem \<Rightarrow> nat \<Rightarrow> cstr \<Rightarrow> mem option" where
  "eliminarEntradaDirectorio d inodoRuta nombre_entrada = do {
     (nroBloqueLogico, ptr, tamanio_dir_eliminado, tamanioEntradaAnterior) \<leftarrow>
       eliminar_bloques d inodoRuta nombre_entrada (ino_size d inodoRuta) 0;
     (if tamanio_dir_eliminado = tamanioDeBloque d
      then do {
        p \<leftarrow> getPtrNroBloqueLogicoDentroInodo d inodoRuta nroBloqueLogico;
        liberarBloque d p }
      else do {
        let ptr' = ptr - unat tamanioEntradaAnterior;
        let directorio = leerEntrada d ptr';
        Some (grabarEntrada d ptr' (directorio\<lparr>de_entry_len :=
          ucast (ucast (de_entry_len directorio) + tamanio_dir_eliminado)\<rparr>)) }) }"

definition directorioVacio :: "mem \<Rightarrow> u32 \<Rightarrow> bool option" where
  "directorioVacio d nroInodoDirectorio = do {
     inodo \<leftarrow> inodo_at d nroInodoDirectorio;
     (if ino_size d inodo > tamanioDeBloque d then Some False
      else do {
        ptr \<leftarrow> posicionarme d inodo 0 12;
        Some (\<not> (ucast (de_entry_len (leerEntrada d ptr)) \<noteq> tamanioDeBloque d - 12)) }) }"

section \<open>Reading what was written\<close>

text \<open>An entry as the code builds it: the name has the length the entry says.\<close>

definition entry_wf :: "DirEntry \<Rightarrow> bool" where
  "entry_wf e \<longleftrightarrow> length (de_name e) = unat (de_name_len e)"

lemma leerEntrada_wf: "entry_wf (leerEntrada d p)"
  by (simp add: entry_wf_def leerEntrada_def Let_def)

lemma wr8_apart [mem_simps]:
  "x + 4 \<le> a \<or> a < x \<Longrightarrow> rd32 (wr8 m a v) x = rd32 m x"
  "x + 2 \<le> a \<or> a < x \<Longrightarrow> rd16 (wr8 m a v) x = rd16 m x"
  "x \<noteq> a \<Longrightarrow> rd8 (wr8 m a v) x = rd8 m x"
  "x < a \<or> a + 4 \<le> x \<Longrightarrow> rd8 (wr32 m a w) x = rd8 m x"
  "x < a \<or> a + 2 \<le> x \<Longrightarrow> rd8 (wr16 m a u) x = rd8 m x"
  by (auto simp: wr8_def wr16_def wr32_def mem_simps) (auto simp: rd8_def mem_write_def)

lemma leer_grabar [simp, mem_simps]: "entry_wf e \<Longrightarrow> leerEntrada (grabarEntrada d p e) p = e"
  by (simp add: leerEntrada_def grabarEntrada_def entry_wf_def Let_def mem_simps)

text \<open>The bytes an entry occupies.\<close>

lemma grabarEntrada_other:
  "entry_wf e \<Longrightarrow> x < p \<or> p + 8 + unat (de_name_len e) \<le> x \<Longrightarrow> grabarEntrada d p e x = d x"
  by (auto simp: grabarEntrada_def Let_def entry_wf_def wr32_def wr16_def wr8_def mem_write_def)

lemma rd_grabar_apart [mem_simps]:
  assumes "entry_wf e"
  shows "x + 4 \<le> p \<or> p + 8 + unat (de_name_len e) \<le> x \<Longrightarrow> rd32 (grabarEntrada d p e) x = rd32 d x"
    and "x + 2 \<le> p \<or> p + 8 + unat (de_name_len e) \<le> x \<Longrightarrow> rd16 (grabarEntrada d p e) x = rd16 d x"
    and "x + 1 \<le> p \<or> p + 8 + unat (de_name_len e) \<le> x \<Longrightarrow> rd8 (grabarEntrada d p e) x = rd8 d x"
    and "x + n \<le> p \<or> p + 8 + unat (de_name_len e) \<le> x \<Longrightarrow> mem_read (grabarEntrada d p e) x n = mem_read d x n"
  using grabarEntrada_other [OF assms]
  by (auto simp: rd32_def rd16_def rd8_def mem_read_def intro!: arg_cong [where f = of_le32] arg_cong [where f = of_le16])

lemma leer_grabar_apart [mem_simps]:
  assumes "entry_wf e" and "q + 8 + unat (de_name_len (leerEntrada d q)) \<le> p \<or> p + 8 + unat (de_name_len e) \<le> q"
  shows "leerEntrada (grabarEntrada d p e) q = leerEntrada d q"
  using assms by (auto simp: leerEntrada_def Let_def mem_simps)

end
