(* ===== verification/Paths.thy ===== *)
theory Paths
  imports Directory
begin

text \<open>
  Lookup in directories and path resolution (definitions in \<open>Directory\<close>): a directory block that holds a
  chain of entries, the lookup of a name and the listing of a directory of any number of blocks, and paths as
  sequences of names.
\<close>

section \<open>Chains of entries\<close>

fun dir_chain :: "mem \<Rightarrow> nat \<Rightarrow> DirEntry list \<Rightarrow> bool" where
  "dir_chain d p [] \<longleftrightarrow> True"
| "dir_chain d p (e # es) \<longleftrightarrow> leerEntrada d p = e \<and> de_entry_len e \<noteq> 0 \<and> dir_chain d (p + unat (de_entry_len e)) es"

definition chain_len :: "DirEntry list \<Rightarrow> nat" where
  "chain_len es = sum_list (map (\<lambda>e. unat (de_entry_len e)) es)"

lemma chain_len_simps [simp]:
  "chain_len [] = 0" "chain_len (e # es) = unat (de_entry_len e) + chain_len es"
  "chain_len (es @ fs) = chain_len es + chain_len fs"
  by (simp_all add: chain_len_def)

lemma dir_chain_append:
  "dir_chain d p (es @ fs) \<longleftrightarrow> dir_chain d p es \<and> dir_chain d (p + chain_len es) fs"
  by (induction es arbitrary: p) (auto simp: add.assoc)

text \<open>A block of a directory: its entries fill it.\<close>

definition dir_block :: "mem \<Rightarrow> nat \<Rightarrow> DirEntry list \<Rightarrow> bool" where
  "dir_block d p es \<longleftrightarrow> dir_chain d p es \<and> chain_len es = unat (tamanioDeBloque d) \<and> tamanioDeBloque d < 2 ^ 16"

text \<open>A directory: the entries of its blocks, in order.\<close>

definition dir_blocks :: "mem \<Rightarrow> nat \<Rightarrow> DirEntry list list \<Rightarrow> bool" where
  "dir_blocks d ino ess \<longleftrightarrow> 0 < tamanioDeBloque d \<and> unat (ino_size d ino) = length ess * unat (tamanioDeBloque d) \<and>
     (length ess + 1) * unat (tamanioDeBloque d) < 2 ^ 32 \<and>
     (\<forall>i < length ess. \<exists>p. posicionarme d ino (of_nat i) 0 = Some p \<and> dir_block d p (ess ! i))"

lemma unat_add_u16: "unat (a :: u16) + unat b < 2 ^ 16 \<Longrightarrow> unat (a + b) = unat a + unat b"
  by (simp add: unat_plus_if_size word_size)

lemma unat_add_u32: "unat (a :: u32) + unat b < 2 ^ 32 \<Longrightarrow> unat (a + b) = unat a + unat b"
  by (simp add: unat_plus_if_size word_size)

lemma unat_pos_u16: "(l :: u16) \<noteq> 0 \<Longrightarrow> 0 < unat l"
  by (simp add: unat_gt_0)

lemma block_offset:
  assumes "i \<le> n" and "(n + 1) * unat bs < 2 ^ 32" and "0 < bs"
  shows "unat ((of_nat i :: u32) * bs) = i * unat bs" and "i < n \<Longrightarrow> (of_nat i * bs) div bs = (of_nat i :: u32)"
    and "i < n \<Longrightarrow> of_nat i * bs + bs = (of_nat (i + 1) :: u32) * bs"
proof -
  have b: "0 < unat bs" using assms(3) by (simp add: unat_gt_0)
  have *: "i * unat bs < 2 ^ 32"
    using assms(1,2) mult_le_mono1 [of i "n + 1" "unat bs"] by linarith
  moreover have "i \<le> i * unat bs" using b by simp
  ultimately have i: "i < 2 ^ 32" by linarith
  show m: "unat ((of_nat i :: u32) * bs) = i * unat bs"
    using * i by (simp add: unat_mult_lem [THEN iffD1])
  show "(of_nat i * bs) div bs = (of_nat i :: u32)" if "i < n"
    by (rule word_unat_eq_iff [THEN iffD2]) (use m i b in \<open>simp add: unat_div_distrib\<close>)
  show "of_nat i * bs + bs = (of_nat (i + 1) :: u32) * bs" by (simp add: algebra_simps)
qed

section \<open>Lookup\<close>

text \<open>The first entry of a block with the name, in any case; 0 when there is none.\<close>

definition first_match :: "cstr \<Rightarrow> DirEntry list \<Rightarrow> u32" where
  "first_match n es = (case dropWhile (\<lambda>e. \<not> string_equals_ignore_case (entry_name e) n) es of
      [] \<Rightarrow> 0 | e # _ \<Rightarrow> de_inode e)"

definition lookup :: "cstr \<Rightarrow> DirEntry list list \<Rightarrow> u32" where
  "lookup n ess = (case dropWhile (\<lambda>es. first_match n es = 0) ess of [] \<Rightarrow> 0 | es # _ \<Rightarrow> first_match n es)"

lemma lookup_simps [simp]:
  "lookup n [] = 0" "lookup n (es # ess) = (if first_match n es = 0 then lookup n ess else first_match n es)"
  by (simp_all add: lookup_def)

lemma first_match_simps [simp]:
  "first_match n [] = 0"
  "first_match n (e # es) = (if string_equals_ignore_case (entry_name e) n then de_inode e else first_match n es)"
  by (simp_all add: first_match_def)

lemma buscar_loop_chain:
  "dir_chain d p es \<Longrightarrow> unat c + chain_len es = unat (tamanioDeBloque d) \<Longrightarrow> tamanioDeBloque d < 2 ^ 16 \<Longrightarrow>
    buscar_loop d n p c = Some (first_match n es)"
proof (induction es arbitrary: p c)
  case Nil
  then show ?case by (simp add: buscar_loop.simps Let_def)
next
  case (Cons e es)
  have b: "unat (tamanioDeBloque d) < 2 ^ 16" using Cons.prems(3) by (simp add: word_less_nat_alt)
  have "unat (c + de_entry_len e) = unat c + unat (de_entry_len e)"
    using Cons.prems(2) b by (intro unat_add_u16) simp
  then have "buscar_loop d n (p + unat (de_entry_len e)) (c + de_entry_len e) = Some (first_match n es)"
    using Cons.prems by (intro Cons.IH) auto
  then show ?case using Cons.prems unat_pos_u16 [of "de_entry_len e"]
    by (subst buscar_loop.simps) (auto simp: Let_def)
qed

lemma buscar_bloques_from:
  assumes "dir_blocks d ino ess" and "i \<le> length ess"
  shows "buscar_bloques d ino n (of_nat i * tamanioDeBloque d) = Some (lookup n (drop i ess))"
  using assms(2)
proof (induction rule: inc_induct)
  case base
  then show ?case using assms(1) block_offset(1) [of "length ess" "length ess" "tamanioDeBloque d"]
    by (subst buscar_bloques.simps) (simp add: dir_blocks_def word_less_nat_alt)
next
  case (step i)
  note D = assms(1) [unfolded dir_blocks_def]
  then have bo: "(length ess + 1) * unat (tamanioDeBloque d) < 2 ^ 32" "0 < tamanioDeBloque d" by auto
  from step have i: "i < length ess" by simp
  obtain p where p: "posicionarme d ino (of_nat i) 0 = Some p" "dir_block d p (ess ! i)" using D i by auto
  then have "buscar_loop d n p 0 = Some (first_match n (ess ! i))"
    by (intro buscar_loop_chain) (auto simp: dir_block_def)
  moreover have "of_nat i * tamanioDeBloque d < ino_size d ino"
    using D i block_offset(1) [OF _ bo, of i] by (simp add: word_less_nat_alt unat_gt_0)
  ultimately show ?case using p(1) step.IH i block_offset(2,3) [OF _ bo, of i]
    by (subst buscar_bloques.simps) (simp add: nroBloqueDentroDelInodo_def Cons_nth_drop_Suc [symmetric])
qed

lemma buscar_lookup:
  assumes "dir_blocks d ino ess"
  shows "buscarNroInodoEnEntradasDirectorio d ino n = Some (lookup n ess)"
  using buscar_bloques_from [OF assms, of 0 n] by (simp add: buscarNroInodoEnEntradasDirectorio_def)

text \<open>
  Lookup in a directory is exact: for a directory of any number of blocks, each filled by a chain of entries,
  \<open>buscarNroInodoEnEntradasDirectorio\<close> ends and returns the inode number of the first entry with the name,
  compared without case, in the first block that has one with a non-zero inode, and 0 when there is none.
\<close>

theorem directory_lookup:
  assumes "dir_blocks d ino ess"
  shows "buscarNroInodoEnEntradasDirectorio d ino n = Some (lookup n ess)"
  by (rule buscar_lookup [OF assms])

section \<open>Paths\<close>

text \<open>
  A tree of directories: \<open>t i\<close> are the entries of the directory with inode number \<open>i\<close>, \<open>None\<close> for
  another file; \<open>I\<close> holds the root and is closed under the entries.
\<close>

type_synonym tree = "u32 \<Rightarrow> DirEntry list list option"

definition node_ok :: "mem \<Rightarrow> tree \<Rightarrow> u32 set \<Rightarrow> u32 \<Rightarrow> nat \<Rightarrow> bool" where
  "node_ok d t I i a \<longleftrightarrow> inodo_at d i = Some a \<and>
     (case t i of
        None \<Rightarrow> \<not> EXT2_INODE_HAS_MODE_FLAG d a EXT2_S_IFDIR
      | Some ess \<Rightarrow> EXT2_INODE_HAS_MODE_FLAG d a EXT2_S_IFDIR \<and> dir_blocks d a ess \<and>
          (\<forall>e \<in> set (concat ess). de_inode e \<noteq> 0 \<longrightarrow> de_inode e \<in> I))"

definition fs_tree :: "mem \<Rightarrow> tree \<Rightarrow> u32 set \<Rightarrow> bool" where
  "fs_tree d t I \<longleftrightarrow> 2 \<in> I \<and> (\<forall>i \<in> I. \<exists>a. node_ok d t I i a)"

fun resolve :: "tree \<Rightarrow> u32 \<Rightarrow> cstr list \<Rightarrow> u32" where
  "resolve t i [] = i"
| "resolve t i (c # cs) = (case t i of
      None \<Rightarrow> 0
    | Some ess \<Rightarrow> (if lookup c ess = 0 then 0 else resolve t (lookup c ess) cs))"

lemma resolve_append: "resolve t i cs \<noteq> 0 \<Longrightarrow> resolve t i (cs @ ds) = resolve t (resolve t i cs) ds"
  by (induction cs arbitrary: i) (auto split: option.splits)

lemma resolve_prefix: "resolve t i (cs @ ds) \<noteq> 0 \<Longrightarrow> i \<noteq> 0 \<Longrightarrow> resolve t i cs \<noteq> 0"
  by (induction cs arbitrary: i) (auto split: option.splits if_splits)

lemma first_match_mem: "first_match n es \<noteq> 0 \<Longrightarrow> first_match n es \<in> de_inode ` set es"
  by (induction es) (auto split: if_splits)

lemma lookup_mem: "lookup n ess \<noteq> 0 \<Longrightarrow> lookup n ess \<in> de_inode ` set (concat ess)"
  using first_match_mem by (induction ess) (fastforce split: if_splits)+

lemma resolve_in: "fs_tree d t I \<Longrightarrow> i \<in> I \<Longrightarrow> resolve t i cs \<noteq> 0 \<Longrightarrow> resolve t i cs \<in> I"
proof (induction cs arbitrary: i)
  case (Cons c cs)
  then obtain ess a where ess: "t i = Some ess" "node_ok d t I i a" "lookup c ess \<noteq> 0"
    by (fastforce simp: fs_tree_def split: option.splits if_splits)
  then have "lookup c ess \<in> I" using lookup_mem [of c ess] by (auto simp: node_ok_def)
  then show ?case using Cons ess by simp
qed simp

lemma path_loop_resolve:
  "fs_tree d t I \<Longrightarrow> i \<in> I \<Longrightarrow> inodo_at d i = Some a \<Longrightarrow> path_loop d cs i a = Some (resolve t i cs)"
proof (induction cs arbitrary: i a)
  case (Cons c cs)
  from Cons.prems have n: "node_ok d t I i a" by (auto simp: fs_tree_def node_ok_def)
  show ?case
  proof (cases "t i")
    case (Some ess)
    then have l: "buscarNroInodoEnEntradasDirectorio d a c = Some (lookup c ess)"
      using n buscar_lookup by (simp add: node_ok_def)
    have "lookup c ess \<in> I" if "lookup c ess \<noteq> 0"
      using lookup_mem [OF that] n Some that by (auto simp: node_ok_def)
    then show ?thesis using l Some n Cons.prems(1) Cons.IH [of "lookup c ess"]
      by (fastforce simp: node_ok_def fs_tree_def)
  qed (use n in \<open>simp add: node_ok_def\<close>)
qed simp

lemma path_number:
  assumes "fs_tree d t I"
  shows "getNroInodoDeLaDireccionDelPath d path = Some (resolve t 2 (string_split path SEPARADOR))"
proof -
  obtain a where a: "inodo_at d 2 = Some a" using assms by (auto simp: fs_tree_def node_ok_def)
  then show ?thesis using path_loop_resolve [OF assms _ a] assms
    by (simp add: getNroInodoDeLaDireccionDelPath_def fs_tree_def)
qed

text \<open>
  C15. Path resolution walks the tree of directories: on a disk that holds a tree, \<open>getNroInodoDeLaDireccionDelPath\<close>
  ends for every path and returns the inode number reached from the root by looking up the components
  of the path one after the other, and 0 when a component is missing or is looked up in something
  that is not a directory.
\<close>

theorem path_resolution:
  assumes "fs_tree d t I"
  shows "getNroInodoDeLaDireccionDelPath d path = Some (resolve t 2 (string_split path SEPARADOR))"
  by (rule path_number [OF assms])

lemma join_path_append: "join_path sep (cs @ ds) = join_path sep cs @ join_path sep ds"
  by (induction cs) auto

lemma split_joined:
  "\<forall>c \<in> set cs. component {47} c \<Longrightarrow> string_split (join_path 47 cs) SEPARADOR = cs \<and>
     size_array_before_split (join_path 47 cs) SEPARADOR = length cs"
proof -
  assume a: "\<forall>c \<in> set cs. component {47} c"
  have s: "SEPARADOR = [47]" by (simp add: SEPARADOR_def str_def of_char_def)
  show ?thesis
    using string_split_loop_join [of 47 "{47}" cs] a
    by (simp add: s string_split_def size_array_before_split_def string_duplicate_def size_split_loop_length)
qed

lemma separar_joined:
  assumes "\<forall>x \<in> set (cs @ [c]). component {47} x"
  shows "separarPathParaNewDirEntry (join_path 47 (cs @ [c])) = \<lparr>ruta = join_path 47 cs, nombre = c\<rparr>"
proof -
  note sp = split_joined [OF assms]
  have c: "component {47} c" using assms by simp
  show ?thesis
  proof (cases "cs = []")
    case False
    have "takeWhile (\<lambda>x. x \<noteq> 47) (rev (join_path 47 (cs @ [c]))) = rev c"
      using c takeWhile_component [of "rev c" "{47}" "47 # rev (join_path 47 cs)"]
      by (simp add: join_path_append component_def)
    then show ?thesis using sp False
      by (simp add: separarPathParaNewDirEntry_def join_path_append not_le)
  qed (use sp c in \<open>simp add: separarPathParaNewDirEntry_def\<close>)
qed

lemma number_joined:
  assumes "\<forall>x \<in> set cs. component {47} x" and "fs_tree d t I"
  shows "getNroInodoDeLaDireccionDelPath d (join_path 47 cs) = Some (resolve t 2 cs)"
  using path_number [OF assms(2)] split_joined [OF assms(1)] by simp

text \<open>
  The parent and the name of a new entry: \<open>separarPathParaNewDirEntry\<close> of the path \<open>/c\<^sub>1/\<dots>/c\<^sub>n/c\<close> gives the
  path \<open>/c\<^sub>1/\<dots>/c\<^sub>n\<close> and the name \<open>c\<close>, so that on a disk that holds a tree the path names what \<open>c\<close> names in
  the directory of the parent path.
\<close>

theorem parent_and_name:
  assumes "\<forall>x \<in> set (cs @ [c]). component {47} x" and "fs_tree d t I"
  shows "separarPathParaNewDirEntry (join_path 47 (cs @ [c])) = \<lparr>ruta = join_path 47 cs, nombre = c\<rparr> \<and>
    getNroInodoDeLaDireccionDelPath d (join_path 47 cs) = Some (resolve t 2 cs) \<and>
    (\<forall>ess. resolve t 2 cs \<noteq> 0 \<and> t (resolve t 2 cs) = Some ess \<longrightarrow>
       getNroInodoDeLaDireccionDelPath d (join_path 47 (cs @ [c])) = Some (lookup c ess))"
  using separar_joined [OF assms(1)] number_joined [OF assms] number_joined [of cs, OF _ assms(2)] assms(1)
    resolve_append [of t 2 cs "[c]"] by auto

section \<open>Listing\<close>

definition entry_attr :: "mem \<Rightarrow> DirEntry \<Rightarrow> readdir_entry" where
  "entry_attr d e = (let ino = the (inodo_at d (de_inode e)) in
     \<lparr>re_path = Some (entry_name e), re_mode = ucast (ino_mode d ino), re_size = ino_size d ino,
      re_n_link = ucast (ino_links d ino), re_blocks = ino_nr_blocks d ino\<rparr>)"

definition listed :: "DirEntry list list \<Rightarrow> DirEntry list" where
  "listed ess = concat (map (takeWhile (\<lambda>e. de_inode e \<noteq> 0)) ess)"

lemma takeWhile_filter: "list_all (\<lambda>x. \<not> P x) (dropWhile P xs) \<Longrightarrow> takeWhile P xs = filter P xs"
proof -
  assume "list_all (\<lambda>x. \<not> P x) (dropWhile P xs)"
  then have "filter P (dropWhile P xs) = []" by (simp add: list_all_iff filter_empty_conv)
  moreover have "filter P (takeWhile P xs) = takeWhile P xs" by (auto simp: filter_id_conv dest: set_takeWhileD)
  ultimately show ?thesis using filter_append [of P "takeWhile P xs" "dropWhile P xs"] by simp
qed

lemma listed_used:
  "list_all (\<lambda>es. list_all (\<lambda>e. de_inode e = 0) (dropWhile (\<lambda>e. de_inode e \<noteq> 0) es)) ess \<Longrightarrow>
    listed ess = filter (\<lambda>e. de_inode e \<noteq> 0) (concat ess)"
  by (induction ess) (auto simp: listed_def intro!: takeWhile_filter)

lemma cargar_loop_chain:
  "dir_chain d p es \<Longrightarrow> unat c + chain_len es = unat (tamanioDeBloque d) \<Longrightarrow> tamanioDeBloque d < 2 ^ 16 \<Longrightarrow>
    \<forall>e \<in> set es. de_inode e \<noteq> 0 \<longrightarrow> inodo_at d (de_inode e) \<noteq> None \<Longrightarrow>
    cargar_loop d p c acc = Some (acc @ map (entry_attr d) (takeWhile (\<lambda>e. de_inode e \<noteq> 0) es))"
proof (induction es arbitrary: p c acc)
  case Nil
  then show ?case by (subst cargar_loop.simps) simp
next
  case (Cons e es)
  have b: "unat (tamanioDeBloque d) < 2 ^ 16" using Cons.prems(3) by (simp add: word_less_nat_alt)
  have "unat (c + de_entry_len e) = unat c + unat (de_entry_len e)"
    using Cons.prems(2) b by (intro unat_add_u16) simp
  then have IH: "cargar_loop d (p + unat (de_entry_len e)) (c + de_entry_len e) acc' =
      Some (acc' @ map (entry_attr d) (takeWhile (\<lambda>e. de_inode e \<noteq> 0) es))" for acc'
    using Cons.prems by (intro Cons.IH) auto
  have lt: "unat c < unat (tamanioDeBloque d)" using Cons.prems unat_pos_u16 [of "de_entry_len e"] by auto
  have e: "leerEntrada d p = e" using Cons.prems(1) by simp
  show ?case
  proof (cases "de_inode e = 0")
    case True
    then show ?thesis using lt e by (subst cargar_loop.simps) (simp add: getInodo_def)
  next
    case False
    then obtain a where "getInodo d (de_inode e) = Some (Some a)" "inodo_at d (de_inode e) = Some a"
      using Cons.prems(4) by (auto simp: inodo_at_def split: bind_splits)
    then show ?thesis using lt e IH False
      by (subst cargar_loop.simps) (simp add: entry_attr_def Let_def)
  qed
qed

lemma cargar_bloques_from:
  assumes "dir_blocks d ino ess" and "i \<le> length ess"
    and "\<forall>e \<in> set (concat ess). de_inode e \<noteq> 0 \<longrightarrow> inodo_at d (de_inode e) \<noteq> None"
  shows "cargar_bloques d ino (of_nat i * tamanioDeBloque d) acc = Some (acc @ map (entry_attr d) (listed (drop i ess)))"
  using assms(2)
proof (induction arbitrary: acc rule: inc_induct)
  case base
  then show ?case using assms(1) block_offset(1) [of "length ess" "length ess" "tamanioDeBloque d"]
    by (subst cargar_bloques.simps) (simp add: dir_blocks_def word_less_nat_alt listed_def)
next
  case (step i)
  note D = assms(1) [unfolded dir_blocks_def]
  then have bo: "(length ess + 1) * unat (tamanioDeBloque d) < 2 ^ 32" "0 < tamanioDeBloque d" by auto
  from step have i: "i < length ess" by simp
  obtain p where p: "posicionarme d ino (of_nat i) 0 = Some p" "dir_block d p (ess ! i)" using D i by auto
  have "\<forall>e \<in> set (ess ! i). de_inode e \<noteq> 0 \<longrightarrow> inodo_at d (de_inode e) \<noteq> None"
    using assms(3) i nth_mem [OF i] by auto
  then have "cargar_loop d p 0 acc = Some (acc @ map (entry_attr d) (takeWhile (\<lambda>e. de_inode e \<noteq> 0) (ess ! i)))"
    using p by (intro cargar_loop_chain) (auto simp: dir_block_def)
  moreover have "of_nat i * tamanioDeBloque d < ino_size d ino"
    using D i block_offset(1) [OF _ bo, of i] by (simp add: word_less_nat_alt unat_gt_0)
  ultimately show ?case using p(1) step.IH i block_offset(2,3) [OF _ bo, of i]
    by (subst cargar_bloques.simps) (simp add: nroBloqueDentroDelInodo_def Cons_nth_drop_Suc [symmetric] listed_def)
qed

text \<open>
  C16. Listing a directory, on a disk that holds a tree of directories: \<open>listarDirectorio\<close> of the path of a directory ends and returns, in
  order, the entries of each block up to the first entry of the block with inode 0, each with its name and the mode, links, size and
  blocks of its inode. Used entries behind an unused one in the same block are left out; the listing is complete when
  no used entry comes after an unused one in its block.
\<close>

theorem directory_listing:
  assumes "\<forall>x \<in> set cs. component {47} x" and "fs_tree d t I"
    and "resolve t 2 cs \<noteq> 0" and "t (resolve t 2 cs) = Some ess"
  shows "listarDirectorio d (if cs = [] then str ''/'' else join_path 47 cs) = Some (map (entry_attr d) (listed ess)) \<and>
    (list_all (\<lambda>es. list_all (\<lambda>e. de_inode e = 0) (dropWhile (\<lambda>e. de_inode e \<noteq> 0) es)) ess \<longrightarrow>
       listed ess = filter (\<lambda>e. de_inode e \<noteq> 0) (concat ess))"
proof -
  let ?p = "if cs = [] then str ''/'' else join_path 47 cs" and ?i = "resolve t 2 cs"
  have root: "string_split (str ''/'') SEPARADOR = []" "string_split [] SEPARADOR = []"
    "separarPathParaNewDirEntry (str ''/'') = \<lparr>ruta = [], nombre = []\<rparr>" by code_simp+
  have p: "getNroInodoDeLaDireccionDelPath d ?p = Some ?i"
    using path_number [OF assms(2)] split_joined [OF assms(1)] root(1) by simp
  obtain j where j: "getNroInodoDeLaDireccionDelPath d (ruta (separarPathParaNewDirEntry ?p)) = Some j" "j \<noteq> 0"
  proof (cases cs rule: rev_cases)
    case (snoc bs b)
    then have "getNroInodoDeLaDireccionDelPath d (ruta (separarPathParaNewDirEntry ?p)) = Some (resolve t 2 bs)"
      using separar_joined [of bs b] number_joined [of bs, OF _ assms(2)] assms(1) by simp
    then show ?thesis using that resolve_prefix [of t 2 bs "[b]"] assms(3) snoc by simp
  qed (use that path_number [OF assms(2), of "[]"] root in simp)
  have I: "?i \<in> I" using resolve_in [OF assms(2)] assms(2,3) by (simp add: fs_tree_def)
  then obtain a where a: "node_ok d t I ?i a" using assms(2) by (auto simp: fs_tree_def)
  then have "\<forall>e \<in> set (concat ess). de_inode e \<noteq> 0 \<longrightarrow> inodo_at d (de_inode e) \<noteq> None"
    using assms(2,4) by (fastforce simp: node_ok_def fs_tree_def)
  then have "cargarEntradasDirectorioALista d a = Some (map (entry_attr d) (listed ess))"
    using cargar_bloques_from [of d a ess 0 "[]"] a assms(4)
    by (simp add: cargarEntradasDirectorioALista_def node_ok_def)
  then show ?thesis using p j assms(3) a listed_used [of ess] by (simp add: listarDirectorio_def node_ok_def)
qed

section \<open>A disk with a directory\<close>

text \<open>
  The disk of \<open>Ext2\<close>, with no free block left, with a root directory (inode 2, data in block 6) that holds \<open>.\<close>,
  \<open>..\<close> and the regular file \<open>a\<close> (inode 3, data in block 7).
\<close>

definition demo_dot :: DirEntry where
  "demo_dot = \<lparr>de_inode = 2, de_entry_len = 12, de_name_len = 1, de_type = 2, de_name = str ''.''\<rparr>"
definition demo_dotdot :: DirEntry where
  "demo_dotdot = \<lparr>de_inode = 2, de_entry_len = 12, de_name_len = 2, de_type = 2, de_name = str ''..''\<rparr>"
definition demo_file :: DirEntry where
  "demo_file = \<lparr>de_inode = 3, de_entry_len = 1000, de_name_len = 1, de_type = 1, de_name = str ''a''\<rparr>"

definition demo_fs :: mem where
  "demo_fs = (let d0 = mem_write (wr16 demo_disk 2060 0) 7168 (str ''hola'');
       d1 = wr16 (wr32 (wr32 (wr16 d0 5248 0x4000) 5252 1024) 5288 6) 5376 0x8000;
       d2 = wr32 (wr32 (wr32 d1 5380 4) 5404 2) 5416 7
     in grabarEntrada (grabarEntrada (grabarEntrada d2 6144 demo_dot) 6156 demo_dotdot) 6168 demo_file)"

definition demo_tree :: tree where
  "demo_tree = [2 \<mapsto> [[demo_dot, demo_dotdot, demo_file]]]"

lemma demo_entry_facts [simp]:
  "entry_wf demo_dot" "entry_wf demo_dotdot" "entry_wf demo_file"
  "de_name_len demo_dot = 1" "de_name_len demo_dotdot = 2" "de_name_len demo_file = 1"
  "de_entry_len demo_dot = 12" "de_entry_len demo_dotdot = 12" "de_entry_len demo_file = 1000"
  "de_inode demo_dot = 2" "de_inode demo_dotdot = 2" "de_inode demo_file = 3"
  by (simp_all add: entry_wf_def demo_dot_def demo_dotdot_def demo_file_def str_def)

lemmas demo_defs = demo_fs_def demo_disk_def read_superblock_def Let_def mem_simps

lemma rd_zero [simp]: "rd32 (\<lambda>_. 0) a = 0" "rd16 (\<lambda>_. 0) a = 0"
  by (simp_all add: rd32_def rd16_def of_le32_def of_le16_def)

lemma demo_fs_super:
  "tamanioDeBloque demo_fs = 1024" "leerGroupDescriptor demo_fs 0 = Some 2048" "sb_inodes_per_group demo_fs = 8"
  "gd_inode_table demo_fs 2048 = 5" "cantidadDeGrupos demo_fs = 1" "gd_free_blocks_count demo_fs 2048 = 0"
  by (simp_all add: gd_free_blocks_count_def demo_defs tamanioDeBloque_def sb_log_block_size_def leerGroupDescriptor_def cantidadDeGrupos_def
      sb_inodes_def sb_inodes_per_group_def gd_inode_table_def)

lemma demo_fs_facts:
  "inodo_at demo_fs 2 = Some 5248" "inodo_at demo_fs 3 = Some 5376"
  "EXT2_INODE_HAS_MODE_FLAG demo_fs 5248 EXT2_S_IFDIR" "\<not> EXT2_INODE_HAS_MODE_FLAG demo_fs 5376 EXT2_S_IFDIR"
  "ino_size demo_fs 5248 = 1024" "posicionarme demo_fs 5248 0 0 = Some 6144"
  "dir_chain demo_fs 6144 [demo_dot, demo_dotdot, demo_file]"
  "chain_len [demo_dot, demo_dotdot, demo_file] = 1024"
  "ino_size demo_fs 5376 = 4" "ino_nr_blocks demo_fs 5376 = 2" "rd32 demo_fs 5416 = 7"
  by (simp_all add: ino_nr_blocks_def inodo_at_def getInodo_def demo_fs_super posicionarInicioBloque_def EXT2_INODE_HAS_MODE_FLAG_def
      ino_mode_def ino_size_def EXT2_S_IFDIR_def posicionarme_def getPtrNroBloqueLogicoDentroInodo_def
      esBloqueDirecto_def desplazarme_def posicionarInicioBloque_def demo_fs_super [unfolded demo_defs] demo_defs)

lemma demo_fs_data: "demo_fs 7168 = 104" "demo_fs 7169 = 111" "demo_fs 7170 = 108" "demo_fs 7171 = 97"
  by (simp_all add: demo_fs_def Let_def grabarEntrada_other wr32_def wr16_def mem_write_def le32_def le16_def str_def)

lemma demo_fs_tree: "fs_tree demo_fs demo_tree {2, 3}"
proof -
  have "dir_blocks demo_fs 5248 [[demo_dot, demo_dotdot, demo_file]]"
    using demo_fs_facts demo_fs_super by (simp add: dir_blocks_def dir_block_def)
  then have "node_ok demo_fs demo_tree {2, 3} 2 5248" "node_ok demo_fs demo_tree {2, 3} 3 5376"
    using demo_fs_facts by (auto simp: node_ok_def demo_tree_def)
  then show ?thesis by (auto simp: fs_tree_def)
qed

theorem directory_lookup_witness:
  "buscarNroInodoEnEntradasDirectorio demo_fs 5248 (str ''A'') = Some 3"
proof -
  have "dir_blocks demo_fs 5248 [[demo_dot, demo_dotdot, demo_file]]"
    using demo_fs_facts demo_fs_super by (simp add: dir_blocks_def dir_block_def)
  moreover have "lookup (str ''A'') [[demo_dot, demo_dotdot, demo_file]] = 3" by code_simp
  ultimately show ?thesis using directory_lookup by simp
qed

theorem path_resolution_witness:
  "getNroInodoDeLaDireccionDelPath demo_fs (str ''//a'') = Some 3"
proof -
  have "resolve demo_tree 2 (string_split (str ''//a'') SEPARADOR) = 3" by code_simp
  then show ?thesis using path_resolution [OF demo_fs_tree] by simp
qed

theorem parent_and_name_witness:
  "separarPathParaNewDirEntry (join_path 47 ([str ''.''] @ [str ''a''])) = \<lparr>ruta = str ''/.'', nombre = str ''a''\<rparr> \<and>
   getNroInodoDeLaDireccionDelPath demo_fs (join_path 47 ([str ''.''] @ [str ''a''])) = Some 3"
proof -
  have c: "\<forall>x \<in> set ([str ''.''] @ [str ''a'']). component {47} x" by code_simp
  have r: "resolve demo_tree 2 [str ''.''] = 2" by code_simp
  have l: "lookup (str ''a'') [[demo_dot, demo_dotdot, demo_file]] = 3" by code_simp
  have j: "join_path 47 [str ''.''] = str ''/.''" by code_simp
  show ?thesis using parent_and_name [OF c demo_fs_tree] r l j by (simp add: demo_tree_def)
qed

theorem directory_listing_witness:
  "map_option (map re_path) (listarDirectorio demo_fs (str ''/'')) =
     Some [Some (str ''.''), Some (str ''..''), Some (str ''a'')]"
proof -
  have "listarDirectorio demo_fs (if [] = ([] :: cstr list) then str ''/'' else join_path 47 []) =
      Some (map (entry_attr demo_fs) (listed [[demo_dot, demo_dotdot, demo_file]]))"
    using directory_listing [of "[]", OF _ demo_fs_tree] by (simp add: demo_tree_def)
  moreover have "map re_path (map (entry_attr demo_fs) (listed [[demo_dot, demo_dotdot, demo_file]])) =
      [Some (str ''.''), Some (str ''..''), Some (str ''a'')]"
    by (simp add: entry_attr_def listed_def Let_def) code_simp
  ultimately show ?thesis by simp
qed

end
