(* ===== verification/Files.thy ===== *)
theory Files
  imports Paths
begin

unbundle bit_operations_syntax

text \<open>
  Files on the disk, the rest of \<open>rfs/src/funciones_rfs.c\<close>: creation and removal of files and directories,
  growing and shrinking with the blocks of indirections, block numbers of a range, reading and writing of
  blocks. The state is the record \<open>rfs\<close> of \<open>Ext2\<close>; each operation runs alone (the mutexes are left out).
  Results are the error codes of the C functions. A signed 32-bit size is a word whose top bit is its sign.
\<close>

definition ESPIPE :: int where "ESPIPE = 29"

definition on_disk :: "rfs \<Rightarrow> mem option \<Rightarrow> rfs option" where
  "on_disk s r = map_option (\<lambda>d. s\<lparr>disk := d\<rparr>) r"

section \<open>Writing into blocks\<close>

definition escribirBloque :: "mem \<Rightarrow> nat \<Rightarrow> u32 \<Rightarrow> mem" where
  "escribirBloque d posicionPtr sz = mem_write d posicionPtr (replicate (unat sz) 0)"

definition completarBloque :: "mem \<Rightarrow> nat \<Rightarrow> u32 \<Rightarrow> u32 \<Rightarrow> mem option" where
  "completarBloque d inodo offset sz = do {
     ptr \<leftarrow> posicionarme d inodo (nroBloqueDentroDelInodo d offset) (desplazamientoDentroDelBloque d offset);
     Some (escribirBloque d ptr sz) }"

definition escribir :: "mem \<Rightarrow> nat \<Rightarrow> buffer \<Rightarrow> u32 \<Rightarrow> u32 \<Rightarrow> mem option" where
  "escribir d inodo input sz offset = do {
     ptr \<leftarrow> posicionarme d inodo (nroBloqueDentroDelInodo d offset) (desplazamientoDentroDelBloque d offset);
     bytes \<leftarrow> read_buf input 0 (unat sz);
     Some (mem_write d ptr bytes) }"

section \<open>Blocks of indirections\<close>

text \<open>\<open>inodo->nr_blocks += tamanioDeBloque() / 512\<close>, in units of 512 bytes.\<close>

definition nr_blocks_mas :: "mem \<Rightarrow> nat \<Rightarrow> mem" where
  "nr_blocks_mas d inodo = set_ino_nr_blocks d inodo (ino_nr_blocks d inodo + tamanioDeBloque d div 512)"

definition nr_blocks_menos :: "mem \<Rightarrow> nat \<Rightarrow> mem" where
  "nr_blocks_menos d inodo = set_ino_nr_blocks d inodo (ino_nr_blocks d inodo - tamanioDeBloque d div 512)"

definition cantidadDeBloques :: "mem \<Rightarrow> nat \<Rightarrow> u32" where
  "cantidadDeBloques d inodo = ino_nr_blocks d inodo * 512 div tamanioDeBloque d"

text \<open>\<open>cantPtrEnIndireccionDoble\<close>, an unsigned product.\<close>

definition cantPtrDoble :: "mem \<Rightarrow> u32" where
  "cantPtrDoble d = cantPtr d * cantPtr d"

text \<open>
  One step of \<open>manejarBloquesIndireccionesParaAgregar\<close>: take a free block, or stop with \<open>ENOSPC\<close>. The
  continuation stores the number and counts the block.
\<close>

definition pedir :: "rfs \<Rightarrow> (rfs \<Rightarrow> u32 \<Rightarrow> rfs option) \<Rightarrow> (rfs \<Rightarrow> (int \<times> rfs) option) \<Rightarrow> (int \<times> rfs) option" where
  "pedir s guardar resto = do {
     (bloque, s1) \<leftarrow> getBloqueLibre s;
     (if bloque = 0 then Some (ENOSPC, s1)
      else do { s2 \<leftarrow> guardar s1 bloque; resto s2 }) }"

definition agregarSimple :: "nat \<Rightarrow> u32 \<Rightarrow> rfs \<Rightarrow> (rfs \<Rightarrow> (int \<times> rfs) option) \<Rightarrow> (int \<times> rfs) option" where
  "agregarSimple inodo nro s resto =
     (if esIndireccionSimple (disk s) nro \<and> nro = 12
      then pedir s (\<lambda>s b. Some (s\<lparr>disk := nr_blocks_mas (set_ino_iblock (disk s) inodo b) inodo\<rparr>)) resto
      else resto s)"

text \<open>The second condition is tested after the first block is in place.\<close>

definition agregarDoble :: "nat \<Rightarrow> u32 \<Rightarrow> rfs \<Rightarrow> (rfs \<Rightarrow> (int \<times> rfs) option) \<Rightarrow> (int \<times> rfs) option" where
  "agregarDoble inodo nro s resto =
     (let c = cantPtr (disk s);
          paso2 = (\<lambda>s. if (nro - 12) mod c = 0
            then let ptrBloque = desplazarme (disk s) (ino_iiblock (disk s) inodo) ((nro - (12 + c)) div c * 4)
                 in pedir s (\<lambda>s b. Some (s\<lparr>disk := wr32 (nr_blocks_mas (disk s) inodo) ptrBloque b\<rparr>)) resto
            else resto s)
      in if esIndireccionDoble (disk s) nro
         then if nro = 12 + c
              then pedir s (\<lambda>s b. Some (s\<lparr>disk := nr_blocks_mas (set_ino_iiblock (disk s) inodo b) inodo\<rparr>)) paso2
              else paso2 s
         else resto s)"

definition agregarTriple :: "nat \<Rightarrow> u32 \<Rightarrow> rfs \<Rightarrow> (rfs \<Rightarrow> (int \<times> rfs) option) \<Rightarrow> (int \<times> rfs) option" where
  "agregarTriple inodo nro s resto =
     (let c = cantPtr (disk s); cd = cantPtrDoble (disk s); base = 12 + c + cd;
          paso3 = (\<lambda>s. if (nro - base) mod c = 0
            then do {
              p \<leftarrow> getPtrBloqueIndTriple (disk s) (ino_iiiblock (disk s) inodo) nro;
              (_, relativo) \<leftarrow> sub_loop cd 0 (nro - base);
              let ptrBloque = desplazarme (disk s) (rd32 (disk s) p) (relativo div c * 4);
              pedir s (\<lambda>s b. Some (s\<lparr>disk := nr_blocks_mas (wr32 (disk s) ptrBloque b) inodo\<rparr>)) resto }
            else resto s);
          paso2 = (\<lambda>s. if (nro - base) mod cd = 0
            then let ptrBloque = desplazarme (disk s) (ino_iiiblock (disk s) inodo) ((nro - base) div cd * 4)
                 in pedir s (\<lambda>s b. Some (s\<lparr>disk := nr_blocks_mas (wr32 (disk s) ptrBloque b) inodo\<rparr>)) paso3
            else paso3 s)
      in if esIndireccionTriple (disk s) nro
         then if nro = base
              then pedir s (\<lambda>s b. Some (s\<lparr>disk := nr_blocks_mas (set_ino_iiiblock (disk s) inodo b) inodo\<rparr>)) paso2
              else paso2 s
         else resto s)"

definition manejarBloquesIndireccionesParaAgregar :: "rfs \<Rightarrow> nat \<Rightarrow> u32 \<Rightarrow> (int \<times> rfs) option" where
  "manejarBloquesIndireccionesParaAgregar s inodoPath nroBloqueLogico =
     agregarSimple inodoPath nroBloqueLogico s (\<lambda>s. agregarDoble inodoPath nroBloqueLogico s (\<lambda>s.
       agregarTriple inodoPath nroBloqueLogico s (\<lambda>s. Some (0, s))))"

definition agregarBloqueNuevo :: "rfs \<Rightarrow> nat \<Rightarrow> (int \<times> rfs) option" where
  "agregarBloqueNuevo s inodo = do {
     (_, s1) \<leftarrow> manejarBloquesIndireccionesParaAgregar s inodo (cantidadDeBloques (disk s) inodo);
     (bloqueLibre, s2) \<leftarrow> getBloqueLibre s1;
     (if bloqueLibre = 0 then Some (ENOSPC, s2)
      else do {
        p \<leftarrow> getPtrNroBloqueLogicoDentroInodo (disk s2) inodo (cantidadDeBloques (disk s2) inodo);
        Some (0, s2\<lparr>disk := nr_blocks_mas (wr32 (disk s2) p bloqueLibre) inodo\<rparr>) }) }"

text \<open>\<open>liberarBloque(ptr); inodo->nr_blocks -= tamanioDeBloque() / 512;\<close> when the condition holds.\<close>

definition soltar :: "bool \<Rightarrow> nat \<Rightarrow> nat \<Rightarrow> mem \<Rightarrow> mem option" where
  "soltar cond inodo p d = (if cond then do { d1 \<leftarrow> liberarBloque d p; Some (nr_blocks_menos d1 inodo) } else Some d)"

definition manejarBloquesIndireccionesParaEliminar :: "mem \<Rightarrow> nat \<Rightarrow> u32 \<Rightarrow> mem option" where
  "manejarBloquesIndireccionesParaEliminar d inodoPath nroBloqueLogico = do {
     let c = cantPtr d;
     let cd = cantPtrDoble d;
     d1 \<leftarrow> soltar (esIndireccionSimple d nroBloqueLogico \<and> nroBloqueLogico = 12) inodoPath (inodoPath + 88) d;
     d2 \<leftarrow> (if esIndireccionDoble d1 nroBloqueLogico
       then do {
         e1 \<leftarrow> soltar ((nroBloqueLogico - 12) mod c = 0) inodoPath
                (desplazarme d1 (ino_iiblock d1 inodoPath) ((nroBloqueLogico - (12 + c)) div c * 4)) d1;
         soltar (nroBloqueLogico = 12 + c) inodoPath (inodoPath + 92) e1 }
       else Some d1);
     (if esIndireccionTriple d2 nroBloqueLogico
      then do {
        pDoble \<leftarrow> getPtrBloqueIndDoble d2 (ino_iiiblock d2 inodoPath) nroBloqueLogico;
        pTriple \<leftarrow> getPtrBloqueIndTriple d2 (ino_iiiblock d2 inodoPath) nroBloqueLogico;
        e1 \<leftarrow> soltar ((nroBloqueLogico - (12 + c + cd)) mod c = 0) inodoPath pDoble d2;
        e2 \<leftarrow> soltar ((nroBloqueLogico - (12 + c + cd)) mod cd = 0) inodoPath pTriple e1;
        soltar (nroBloqueLogico = 12 + c + cd) inodoPath (inodoPath + 96) e2 }
      else Some d2) }"

definition removerUltimoBloque :: "mem \<Rightarrow> nat \<Rightarrow> (int \<times> mem) option" where
  "removerUltimoBloque d inodo =
     (if ino_nr_blocks d inodo = 0 then Some (ESPIPE, d)
      else do {
        p \<leftarrow> getPtrNroBloqueLogicoDentroInodo d inodo (cantidadDeBloques d inodo - 1);
        d1 \<leftarrow> liberarBloque d p;
        let d2 = nr_blocks_menos d1 inodo;
        Some (0, set_ino_size d2 inodo ((ino_size d2 inodo - 1) div tamanioDeBloque d2 * tamanioDeBloque d2)) })"

section \<open>Truncation\<close>

text \<open>The shrinking loop of \<open>truncarArchivo\<close>; \<open>size\<close> is negative while there is something to cut.\<close>

partial_function (option) achicar_loop :: "mem \<Rightarrow> nat \<Rightarrow> u32 \<Rightarrow> u32 \<Rightarrow> (u32 \<times> mem) option" where
  [code]: "achicar_loop d inodo offsetEOF sz =
     (if sint sz < 0
      then let nroBloqueLogico = nroBloqueDentroDelInodo d (offsetEOF - 1);
               desplazamiento = desplazamientoDentroDelBloque d (offsetEOF - 1) + 1 in
        if desplazamiento \<le> - sz
        then Option.bind (getPtrNroBloqueLogicoDentroInodo d inodo nroBloqueLogico) (\<lambda>p.
          Option.bind (liberarBloque d p) (\<lambda>d1.
          Option.bind (manejarBloquesIndireccionesParaEliminar (nr_blocks_menos d1 inodo) inodo nroBloqueLogico) (\<lambda>d2.
          achicar_loop d2 inodo (offsetEOF - desplazamiento) (sz + desplazamiento))))
        else achicar_loop d inodo (offsetEOF + sz) 0
      else Some (offsetEOF, d))"

text \<open>
  The blocks of indirections of the growing loop. Unlike \<open>manejarBloquesIndireccionesParaAgregar\<close> it does not
  look at the block number 0 that \<open>getBloqueLibre\<close> returns on a full disk, and does not count the block of the
  simple indirection.
\<close>

definition agrandar_simple :: "rfs \<Rightarrow> nat \<Rightarrow> u32 \<Rightarrow> rfs option" where
  "agrandar_simple s inodo nro =
     (if esIndireccionSimple (disk s) nro \<and> nro = 12
      then do { (b, s1) \<leftarrow> getBloqueLibre s; Some (s1\<lparr>disk := set_ino_iblock (disk s1) inodo b\<rparr>) }
      else Some s)"

definition agrandar_doble :: "rfs \<Rightarrow> nat \<Rightarrow> u32 \<Rightarrow> rfs option" where
  "agrandar_doble s inodo nro = (let c = cantPtr (disk s) in
     if esIndireccionDoble (disk s) nro
     then do {
       s1 \<leftarrow> (if nro = 12 + c
         then do { (b, s1) \<leftarrow> getBloqueLibre s;
                   Some (s1\<lparr>disk := nr_blocks_mas (set_ino_iiblock (disk s1) inodo b) inodo\<rparr>) }
         else Some s);
       (if (nro - 12) mod c = 0
        then do {
          let ptrBloque = desplazarme (disk s1) (ino_iiblock (disk s1) inodo) ((nro - (12 + c)) div c * 4);
          (b, s2) \<leftarrow> getBloqueLibre s1;
          Some (s2\<lparr>disk := wr32 (nr_blocks_mas (disk s2) inodo) ptrBloque b\<rparr>) }
        else Some s1) }
     else Some s)"

definition agrandar_triple :: "rfs \<Rightarrow> nat \<Rightarrow> u32 \<Rightarrow> rfs option" where
  "agrandar_triple s inodo nro = (let c = cantPtr (disk s); cd = cantPtrDoble (disk s); base = 12 + c + cd in
     if esIndireccionTriple (disk s) nro
     then do {
       s1 \<leftarrow> (if nro = base
         then do { (b, s1) \<leftarrow> getBloqueLibre s;
                   Some (s1\<lparr>disk := nr_blocks_mas (set_ino_iiiblock (disk s1) inodo b) inodo\<rparr>) }
         else Some s);
       s2 \<leftarrow> (if (nro - base) mod cd = 0
         then do {
           let ptrBloque = desplazarme (disk s1) (ino_iiiblock (disk s1) inodo) ((nro - base) div cd * 4);
           (b, s2) \<leftarrow> getBloqueLibre s1;
           Some (s2\<lparr>disk := wr32 (nr_blocks_mas (disk s2) inodo) ptrBloque b\<rparr>) }
         else Some s1);
       (if (nro - base) mod c = 0
        then do {
          p \<leftarrow> getPtrBloqueIndTriple (disk s2) (ino_iiiblock (disk s2) inodo) nro;
          (_, relativo) \<leftarrow> sub_loop cd 0 (nro - base);
          let ptrBloque = desplazarme (disk s2) (rd32 (disk s2) p) (relativo div c * 4);
          (b, s3) \<leftarrow> getBloqueLibre s2;
          Some (s3\<lparr>disk := wr32 (nr_blocks_mas (disk s3) inodo) ptrBloque b\<rparr>) }
        else Some s2) }
     else Some s)"

definition agrandar_bloque :: "rfs \<Rightarrow> nat \<Rightarrow> u32 \<Rightarrow> rfs option" where
  "agrandar_bloque s inodo nroBloqueLogico = do {
     (nroBloqueDeDato, s1) \<leftarrow> getBloqueLibre s;
     let s2 = s1\<lparr>disk := nr_blocks_mas (disk s1) inodo\<rparr>;
     s3 \<leftarrow> agrandar_simple s2 inodo nroBloqueLogico;
     s4 \<leftarrow> agrandar_doble s3 inodo nroBloqueLogico;
     s5 \<leftarrow> agrandar_triple s4 inodo nroBloqueLogico;
     on_disk s5 (agregarAInodo (disk s5) inodo nroBloqueLogico nroBloqueDeDato) }"

partial_function (option) agrandar_loop :: "rfs \<Rightarrow> nat \<Rightarrow> u32 \<Rightarrow> u32 \<Rightarrow> (u32 \<times> rfs) option" where
  [code]: "agrandar_loop s inodo offsetEOF sz =
     (if sint sz > 0
      then let resto = tamanioDeBloque (disk s) - desplazamientoDentroDelBloque (disk s) offsetEOF in
        Option.bind (if resto = tamanioDeBloque (disk s)
                     then agrandar_bloque s inodo (nroBloqueDentroDelInodo (disk s) offsetEOF) else Some s) (\<lambda>s1.
        let n = (if resto \<ge> sz then sz else resto) in
        Option.bind (on_disk s1 (completarBloque (disk s1) inodo offsetEOF n)) (\<lambda>s2.
        agrandar_loop s2 inodo (offsetEOF + n) (sz - n)))
      else Some (offsetEOF, s))"

definition truncarInodo :: "rfs \<Rightarrow> nat \<Rightarrow> u32 \<Rightarrow> (int \<times> rfs) option" where
  "truncarInodo s inodoPath offset = (let offsetEOF = ino_size (disk s) inodoPath; sz = offset - offsetEOF in
     if sint sz < 0
     then if offsetEOF < - sz then Some (EINVAL, s)
          else do {
            (e, d) \<leftarrow> achicar_loop (disk s) inodoPath offsetEOF sz;
            Some (0, s\<lparr>disk := set_ino_size d inodoPath e\<rparr>) }
     else if hayEspacioSuficiente (disk s) sz
          then do {
            (e, s1) \<leftarrow> agrandar_loop s inodoPath offsetEOF sz;
            Some (0, s1\<lparr>disk := set_ino_size (disk s1) inodoPath e\<rparr>) }
          else Some (ENOSPC, s))"

definition truncarArchivo :: "rfs \<Rightarrow> cstr \<Rightarrow> u32 \<Rightarrow> (int \<times> rfs) option" where
  "truncarArchivo s path offset = do {
     nroInodoRuta \<leftarrow> getNroInodoDeLaDireccionDelPath (disk s) (ruta (separarPathParaNewDirEntry path));
     (if nroInodoRuta \<noteq> 0
      then do {
        nro \<leftarrow> getNroInodoDeLaDireccionDelPath (disk s) path;
        (if nro \<noteq> 0
         then do {
           p \<leftarrow> getInodoDeLaDireccionDelPath (disk s) path;
           inodoPath \<leftarrow> p;
           truncarInodo s inodoPath offset }
         else Some (ENOENT, s)) }
      else Some (ENOENT, s)) }"

section \<open>Creation and removal\<close>

definition setearInodo :: "rfs \<Rightarrow> nat \<Rightarrow> u32 \<Rightarrow> (int \<times> rfs) option" where
  "setearInodo s inodo mode =
     (let d1 = set_ino_mode (disk s) inodo (ucast mode) in
      if EXT2_INODE_HAS_MODE_FLAG d1 inodo EXT2_S_IFDIR
      then do {
        (numeroBloqueLibre, s1) \<leftarrow> getBloqueLibre (s\<lparr>disk := set_ino_links d1 inodo 2\<rparr>);
        (if numeroBloqueLibre = 0 then Some (ENOSPC, s1)
         else do {
           let d2 = set_ino_block0 (disk s1) inodo numeroBloqueLibre;
           Some (0, s1\<lparr>disk := set_ino_size d2 inodo (tamanioDeBloque d2)\<rparr>) }) }
      else Some (0, s\<lparr>disk := set_ino_size (set_ino_links d1 inodo 1) inodo 0\<rparr>))"

definition S_IFDIR :: u32 where "S_IFDIR = 0x4000"
definition S_IFREG :: u32 where "S_IFREG = 0x8000"

definition crearArchivo :: "byte \<Rightarrow> rfs \<Rightarrow> cstr \<Rightarrow> u32 \<Rightarrow> (int \<times> rfs) option" where
  "crearArchivo basura s path mode = do {
     let r = separarPathParaNewDirEntry path;
     nroInodoRuta \<leftarrow> getNroInodoDeLaDireccionDelPath (disk s) (ruta r);
     (if nroInodoRuta \<noteq> 0
      then do {
        inodoDirectorio \<leftarrow> inodo_at (disk s) nroInodoRuta;
        existe \<leftarrow> getNroInodoDeLaDireccionDelPath (disk s) path;
        (if existe = 0
         then do {
           (resultado, s1) \<leftarrow> agregarEntradaDirectorio basura s inodoDirectorio (nombre r);
           (if resultado = 0
            then do {
              nro \<leftarrow> getNroInodoDeLaDireccionDelPath (disk s1) path;
              inodoDeArchivo \<leftarrow> inodo_at (disk s1) nro;
              setearInodo s1 inodoDeArchivo (mode OR S_IFREG) }
            else Some (resultado, s1)) }
         else Some (EEXIST, s)) }
      else Some (ENOENT, s)) }"

text \<open>The end of \<open>crearDirectorio\<close>: the entries of the new directory and the group's count of directories.\<close>

definition iniciarDirectorio :: "byte \<Rightarrow> byte \<Rightarrow> rfs \<Rightarrow> cstr \<Rightarrow> cstr \<Rightarrow> nat \<Rightarrow> rfs option" where
  "iniciarDirectorio basura1 basura2 s path rut inodoNuevoDir = do {
     nroInodoEntradaNueva \<leftarrow> getNroInodoDeLaDireccionDelPath (disk s) path;
     nroInodoRuta \<leftarrow> getNroInodoDeLaDireccionDelPath (disk s) rut;
     d \<leftarrow> inicializarEntradasNuevoDir basura1 basura2 (disk s) inodoNuevoDir nroInodoEntradaNueva nroInodoRuta;
     grupo \<leftarrow> leerGroupDescriptor d ((nroInodoRuta - 1) div sb_inodes_per_group d);
     Some (s\<lparr>disk := set_gd_used_dirs_count d grupo (gd_used_dirs_count d grupo + 1)\<rparr>) }"

definition crearDirectorio :: "byte \<Rightarrow> byte \<Rightarrow> byte \<Rightarrow> rfs \<Rightarrow> cstr \<Rightarrow> u32 \<Rightarrow> (int \<times> rfs) option" where
  "crearDirectorio basura basura1 basura2 s path mode = do {
     let r = separarPathParaNewDirEntry path;
     nroInodoRuta \<leftarrow> getNroInodoDeLaDireccionDelPath (disk s) (ruta r);
     inodoRuta \<leftarrow> getInodo (disk s) nroInodoRuta;
     (if nroInodoRuta \<noteq> 0
      then do {
        existe \<leftarrow> getNroInodoDeLaDireccionDelPath (disk s) path;
        (if existe = 0
         then do {
           inodo \<leftarrow> inodoRuta;
           (resultado, s1) \<leftarrow> agregarEntradaDirectorio basura s inodo (nombre r);
           (if resultado = 0
            then do {
              p \<leftarrow> getInodoDeLaDireccionDelPath (disk s1) path;
              inodoNuevoDir \<leftarrow> p;
              (resultado2, s2) \<leftarrow> setearInodo s1 inodoNuevoDir (mode OR S_IFDIR);
              (if resultado2 = 0
               then do {
                 s3 \<leftarrow> iniciarDirectorio basura1 basura2 s2 path (ruta r) inodoNuevoDir;
                 Some (0, s3) }
               else Some (resultado2, s2)) }
            else Some (resultado, s1)) }
         else Some (EEXIST, s)) }
      else Some (ENOENT, s)) }"

definition eliminarDirectorio :: "rfs \<Rightarrow> cstr \<Rightarrow> (int \<times> rfs) option" where
  "eliminarDirectorio s path = do {
     let r = separarPathParaNewDirEntry path;
     nroInodoRuta \<leftarrow> getNroInodoDeLaDireccionDelPath (disk s) (ruta r);
     inodoRuta \<leftarrow> getInodo (disk s) nroInodoRuta;
     (if nroInodoRuta \<noteq> 0
      then do {
        nroInodoDirectorio \<leftarrow> getNroInodoDeLaDireccionDelPath (disk s) path;
        (if nroInodoDirectorio \<noteq> 0
         then do {
           vacio \<leftarrow> directorioVacio (disk s) nroInodoDirectorio;
           (if vacio
            then do {
              inodo \<leftarrow> inodoRuta;
              d1 \<leftarrow> eliminarEntradaDirectorio (disk s) inodo (nombre r);
              d2 \<leftarrow> liberarInodo d1 nroInodoDirectorio;
              grupo \<leftarrow> leerGroupDescriptor d2 ((nroInodoRuta - 1) div sb_inodes_per_group d2);
              Some (0, s\<lparr>disk := set_gd_used_dirs_count d2 grupo (gd_used_dirs_count d2 grupo - 1)\<rparr>) }
            else Some (ENOTEMPTY, s)) }
         else Some (ENOENT, s)) }
      else Some (ENOENT, s)) }"

definition eliminarArchivo :: "rfs \<Rightarrow> cstr \<Rightarrow> (int \<times> rfs) option" where
  "eliminarArchivo s path = do {
     let r = separarPathParaNewDirEntry path;
     nroInodoRuta \<leftarrow> getNroInodoDeLaDireccionDelPath (disk s) (ruta r);
     inodoRuta \<leftarrow> getInodo (disk s) nroInodoRuta;
     (if nroInodoRuta \<noteq> 0
      then do {
        nroInodoArchivo \<leftarrow> getNroInodoDeLaDireccionDelPath (disk s) path;
        (if nroInodoArchivo \<noteq> 0
         then do {
           (_, s1) \<leftarrow> truncarArchivo s path 0;
           d2 \<leftarrow> liberarInodo (disk s1) nroInodoArchivo;
           inodo \<leftarrow> inodoRuta;
           d3 \<leftarrow> eliminarEntradaDirectorio d2 inodo (nombre r);
           Some (0, s1\<lparr>disk := d3\<rparr>) }
         else Some (ENOENT, s)) }
      else Some (ENOENT, s)) }"

section \<open>Blocks of a range\<close>

text \<open>The loop of \<open>numerosDeBloques\<close>: the block numbers of the logical blocks up to \<open>fin\<close>.\<close>

partial_function (option) numeros_loop :: "mem \<Rightarrow> nat \<Rightarrow> u32 \<Rightarrow> u32 \<Rightarrow> u32 list \<Rightarrow> u32 list option" where
  [code]: "numeros_loop d inodo n fin acc =
     (if n \<le> fin
      then Option.bind (getPtrNroBloqueLogicoDentroInodo d inodo n) (\<lambda>p.
        numeros_loop d inodo (n + 1) fin (acc @ [rd32 d p]))
      else Some acc)"

definition numerosDeBloques :: "mem \<Rightarrow> nat \<Rightarrow> u32 \<Rightarrow> u32 \<Rightarrow> u32 list option" where
  "numerosDeBloques d inodo offset sz =
     numeros_loop d inodo (nroBloqueDentroDelInodo d offset) (nroBloqueDentroDelInodo d (offset + sz - 1)) []"

definition traerBloqueDeDisco :: "mem \<Rightarrow> u32 \<Rightarrow> buffer" where
  "traerBloqueDeDisco d numero_bloque = mem_read d (obtenerBloque d numero_bloque) (unat (tamanioDeBloque d))"

definition grabarInodo :: "mem \<Rightarrow> u32 \<Rightarrow> nat \<Rightarrow> mem option" where
  "grabarInodo d numero_inodo inodo = do {
     p \<leftarrow> inodo_at d numero_inodo;
     Some (mem_write d p (mem_read d inodo 128)) }"

end
