(* ===== verification/RemoteCache.thy ===== *)
theory RemoteCache
  imports Files
begin

text \<open>
  The block cache of the file server: \<open>traerBloqueDeCache\<close>, \<open>guardarBloqueEnCache\<close>, \<open>traerBloque\<close>, \<open>grabarBloque\<close> and
  the functions of \<open>rfs/src/memcached_uses.c\<close>. The memcached client library is a parameter: the record of its
  three operations on a connection of any type, where \<open>mc_get\<close> answers \<open>None\<close> on a miss. What the code relies
  on is \<open>memcached_laws\<close> of \<open>Reads\<close>.
\<close>

record 'c memcached =
  mc_get :: "'c \<Rightarrow> buffer \<Rightarrow> buffer option"
  mc_add :: "'c \<Rightarrow> buffer \<Rightarrow> buffer \<Rightarrow> 'c"
  mc_delete :: "'c \<Rightarrow> buffer \<Rightarrow> 'c"

text \<open>\<open>Some mc\<close> when the cache is active.\<close>

record 'c cache_state =
  lib :: "'c memcached option"
  conn :: 'c

section \<open>Blocks\<close>

definition traerBloqueDeCache :: "'c memcached \<Rightarrow> 'c \<Rightarrow> u32 \<Rightarrow> buffer option" where
  "traerBloqueDeCache mc c numero_bloque = mc_get mc c (string_from_uint32 numero_bloque)"

definition guardarBloqueEnCache :: "'c memcached \<Rightarrow> mem \<Rightarrow> 'c \<Rightarrow> u32 \<Rightarrow> buffer \<Rightarrow> 'c option" where
  "guardarBloqueEnCache mc d c numero_bloque bloque = do {
     bytes \<leftarrow> read_buf bloque 0 (unat (tamanioDeBloque d));
     Some (mc_add mc c (string_from_uint32 numero_bloque) bytes) }"

definition traerBloque :: "'c cache_state \<Rightarrow> mem \<Rightarrow> u32 \<Rightarrow> buffer" where
  "traerBloque k d numero_bloque =
     (case (case lib k of None \<Rightarrow> None | Some mc \<Rightarrow> traerBloqueDeCache mc (conn k) numero_bloque) of
        None \<Rightarrow> traerBloqueDeDisco d numero_bloque
      | Some bloque \<Rightarrow> bloque)"

definition grabarBloque :: "'c cache_state \<Rightarrow> mem \<Rightarrow> u32 \<Rightarrow> buffer \<Rightarrow> ('c cache_state \<times> mem) option" where
  "grabarBloque k d numero_bloque bloque = do {
     k' \<leftarrow> (case lib k of
        None \<Rightarrow> Some k
      | Some mc \<Rightarrow> do { c \<leftarrow> guardarBloqueEnCache mc d (conn k) numero_bloque bloque; Some (k\<lparr>conn := c\<rparr>) });
     bytes \<leftarrow> read_buf bloque 0 (unat (tamanioDeBloque d));
     Some (k', mem_write d (obtenerBloque d numero_bloque) bytes) }"

section \<open>The functions of \<open>memcached_uses.c\<close>\<close>

definition BLOQUE_SIZE :: nat where "BLOQUE_SIZE = 1024"

record memcached_response =
  tamanioDato :: u32
  nroBloqueInicial :: u32
  nroBloqueFinal :: u32
  cantBloques :: u32

text \<open>\<open>Some None\<close> is the null pointer returned for a missing path or an offset past the end.\<close>

definition transform_query :: "mem \<Rightarrow> cstr \<Rightarrow> u32 \<Rightarrow> u32 \<Rightarrow> memcached_response option option" where
  "transform_query d path offset sz = do {
     p \<leftarrow> getInodoDeLaDireccionDelPath d path;
     (case p of
        None \<Rightarrow> Some None
      | Some inodo \<Rightarrow>
          (if ino_size d inodo > offset
           then do {
             let n = (if offset + sz > ino_size d inodo then ino_size d inodo - offset else sz);
             pI \<leftarrow> getPtrNroBloqueLogicoDentroInodo d inodo (nroBloqueDentroDelInodo d offset);
             pF \<leftarrow> getPtrNroBloqueLogicoDentroInodo d inodo (nroBloqueDentroDelInodo d (offset + n - 1));
             Some (Some \<lparr>tamanioDato = n, nroBloqueInicial = rd32 d pI, nroBloqueFinal = rd32 d pF,
                         cantBloques = rd32 d pF - rd32 d pI + 1\<rparr>) }
           else Some None)) }"

text \<open>The key of the query is one byte longer than the key of the store: it includes the NUL.\<close>

definition query_memcached :: "'c memcached \<Rightarrow> 'c \<Rightarrow> u32 \<Rightarrow> buffer option" where
  "query_memcached mc c nroBloque = mc_get mc c (string_from_uint32 nroBloque @ [0])"

definition store_memcached :: "'c memcached \<Rightarrow> 'c \<Rightarrow> u32 \<Rightarrow> buffer \<Rightarrow> 'c option" where
  "store_memcached mc c nroBloque buf = do {
     bytes \<leftarrow> read_buf buf 0 BLOQUE_SIZE;
     Some (mc_add mc c (string_from_uint32 nroBloque) bytes) }"

partial_function (option) delete_loop :: "'c memcached \<Rightarrow> 'c \<Rightarrow> u32 \<Rightarrow> u32 \<Rightarrow> 'c option" where
  [code]: "delete_loop mc c bloqueBorrado final =
     (if bloqueBorrado \<le> final
      then delete_loop mc (mc_delete mc c (string_from_uint32 bloqueBorrado)) (bloqueBorrado + 1) final
      else Some c)"

text \<open>A missing file or an empty one is a null pointer the code dereferences.\<close>

definition delete_memcached :: "'c memcached \<Rightarrow> mem \<Rightarrow> 'c \<Rightarrow> cstr \<Rightarrow> u32 \<Rightarrow> 'c option" where
  "delete_memcached mc d c path offset = do {
     p \<leftarrow> getInodoDeLaDireccionDelPath d path;
     inodo \<leftarrow> p;
     r \<leftarrow> transform_query d path offset (ino_size d inodo);
     respuesta \<leftarrow> r;
     delete_loop mc c (nroBloqueInicial respuesta) (nroBloqueFinal respuesta) }"

text \<open>\<open>i=+BLOQUE_SIZE\<close> assigns: all blocks but the first are stored with the second block's bytes.\<close>

partial_function (option) almacenar_loop :: "'c memcached \<Rightarrow> buffer \<Rightarrow> 'c \<Rightarrow> nat \<Rightarrow> u32 \<Rightarrow> u32 \<Rightarrow> ('c \<times> u32) option" where
  [code]: "almacenar_loop mc buf c i bloqueEscrito final =
     (if bloqueEscrito \<le> final
      then Option.bind (store_memcached mc c bloqueEscrito (drop i buf)) (\<lambda>c'.
        almacenar_loop mc buf c' BLOQUE_SIZE (bloqueEscrito + 1) final)
      else Some (c, bloqueEscrito))"

definition almacenar_memcached :: "'c memcached \<Rightarrow> mem \<Rightarrow> 'c \<Rightarrow> cstr \<Rightarrow> u32 \<Rightarrow> u32 \<Rightarrow> buffer \<Rightarrow> (int \<times> 'c) option" where
  "almacenar_memcached mc d c path offset sz buf = do {
     r \<leftarrow> transform_query d path offset sz;
     respuesta \<leftarrow> r;
     (c', bloqueEscrito) \<leftarrow> almacenar_loop mc buf c 0 (nroBloqueInicial respuesta) (nroBloqueFinal respuesta);
     Some (if bloqueEscrito * 1024 > 0 then 0 else -1, c') }"

text \<open>The destination is a local block of \<open>size\<close> bytes; what is read there is lost.\<close>

partial_function (option) leer_cache_loop :: "'c memcached \<Rightarrow> 'c \<Rightarrow> nat \<Rightarrow> nat \<Rightarrow> u32 \<Rightarrow> u32 \<Rightarrow> nat option" where
  [code]: "leer_cache_loop mc c sz bytes_leidos bloquesLeidos final =
     (if bloquesLeidos \<le> final
      then (case query_memcached mc c bloquesLeidos of
          None \<Rightarrow> Some bytes_leidos
        | Some datos \<Rightarrow>
            Option.bind (ensure (BLOQUE_SIZE \<le> length datos \<and> bytes_leidos + BLOQUE_SIZE \<le> sz)) (\<lambda>_.
            leer_cache_loop mc c sz BLOQUE_SIZE (bloquesLeidos + 1) final))
      else Some bytes_leidos)"

definition read_from_memcached :: "'c memcached \<Rightarrow> mem \<Rightarrow> 'c \<Rightarrow> cstr \<Rightarrow> u32 \<Rightarrow> u32 \<Rightarrow> nat option" where
  "read_from_memcached mc d c path offset sz = do {
     r \<leftarrow> transform_query d path offset sz;
     (case r of
        None \<Rightarrow> Some 0
      | Some respuesta \<Rightarrow>
          leer_cache_loop mc c (unat sz) 0 (nroBloqueInicial respuesta) (nroBloqueFinal respuesta)) }"

end
