(* ===== verification/Client.thy ===== *)
theory Client
  imports Sockets RemoteCache
begin

text \<open>
  The client of the file server, \<open>fsc/src/fileSystemClient.c\<close> and \<open>memcached_utils.c\<close>: the callbacks of FUSE. The
  state is the client id, the largest size of a read or write request, the connection to the cache and the state of
  the network. A callback returns its result (0 or a count, or a negative error), what it writes through its
  pointers, and the new state. The offset is the 64-bit \<open>off_t\<close>. Logging and the start of the program are left out.
\<close>

section \<open>State\<close>

record ('n, 'c) client =
  client_id :: u32
  maximumReadWriteSize :: u32
  remote_cache :: "'c cache_state"
  cl_net :: 'n

record stat =
  st_mode :: u32
  st_nlink :: u32
  st_size :: int
  st_blocks :: u32

type_synonym ('n, 'c) result = "(int \<times> ('n, 'c) client) option"

section \<open>The cache of attributes and directories\<close>

definition key_for_memcached :: "cstr \<Rightarrow> tipo_nipc \<Rightarrow> buffer" where
  "key_for_memcached path nipc_type = (if nipc_type = nipc_getattr_response then str ''A'' else str ''D'') @ path"

text \<open>The key of a query is one byte longer than the key of a store: it has the NUL.\<close>

definition query_memcached :: "'c memcached \<Rightarrow> 'c \<Rightarrow> cstr \<Rightarrow> tipo_nipc \<Rightarrow> u32 \<Rightarrow> nipc_packet option" where
  "query_memcached mc c path nipc_type cid = do {
     cached_data \<leftarrow> mc_get mc c (key_for_memcached path nipc_type @ [0]);
     Some \<lparr>pkt_type = tipo_code nipc_type, pkt_data_length = of_nat (length cached_data), pkt_client_id = cid,
           pkt_data = Some cached_data\<rparr> }"

text \<open>The type of the packet decides the key, as in the query.\<close>

definition store_memcached :: "'c memcached \<Rightarrow> 'c \<Rightarrow> cstr \<Rightarrow> nipc_packet \<Rightarrow> 'c option" where
  "store_memcached mc c path packet = do {
     bytes \<leftarrow> (case pkt_data packet of None \<Rightarrow> (if pkt_data_length packet = 0 then Some [] else None)
       | Some d \<Rightarrow> read_buf d 0 (unat (pkt_data_length packet)));
     Some (mc_add mc c (key_for_memcached path
       (if pkt_type packet = tipo_code nipc_getattr_response then nipc_getattr_response else nipc_readdir_response)) bytes) }"

definition delete_memcached :: "'c memcached \<Rightarrow> 'c \<Rightarrow> cstr \<Rightarrow> tipo_nipc \<Rightarrow> 'c" where
  "delete_memcached mc c path nipc_type = mc_delete mc c (key_for_memcached path nipc_type)"

text \<open>\<open>if (cache_active) delete_memcached(remote_cache, path, type);\<close>\<close>

definition olvidar :: "('n, 'c) client \<Rightarrow> cstr \<Rightarrow> tipo_nipc \<Rightarrow> ('n, 'c) client" where
  "olvidar cl path nipc_type = (case lib (remote_cache cl) of
      None \<Rightarrow> cl
    | Some mc \<Rightarrow> cl\<lparr>remote_cache := (remote_cache cl)\<lparr>conn := delete_memcached mc (conn (remote_cache cl)) path nipc_type\<rparr>\<rparr>)"

text \<open>\<open>dirname\<close> of the C library: the path without its last component and the slashes around it.\<close>

definition strip_slashes :: "cstr \<Rightarrow> cstr" where
  "strip_slashes p = rev (dropWhile (\<lambda>c. c = 47) (rev p))"

definition dirname :: "cstr \<Rightarrow> cstr" where
  "dirname p = (let s = strip_slashes p in
     if s = [] then (if p = [] then str ''.'' else str ''/'')
     else if 47 \<notin> set s then str ''.''
     else let t = strip_slashes (rev (dropWhile (\<lambda>c. c \<noteq> 47) (rev s))) in
       if t = [] then str ''/'' else t)"

section \<open>Queries and errors\<close>

definition consultar :: "'n network \<Rightarrow> ('n, 'c) client \<Rightarrow> nipc_packet option \<Rightarrow> (nipc_packet \<times> ('n, 'c) client) option" where
  "consultar net cl packet = do {
     p \<leftarrow> packet;
     (response, n) \<leftarrow> nipc_query net p (cl_net cl);
     Some (response, cl\<lparr>cl_net := n\<rparr>) }"

definition check_error :: "nipc_packet \<Rightarrow> int option" where
  "check_error packet =
     (if pkt_type packet \<noteq> tipo_code nipc_error then Some (-1)
      else do {
        response \<leftarrow> deserialize_error packet;
        Some (if er_errorCode response = 0 then -1 else sint (er_errorCode response)) })"

definition check_ok_error :: "nipc_packet \<Rightarrow> int option" where
  "check_ok_error response = (if pkt_type response = tipo_code nipc_ok then Some 0 else check_error response)"

section \<open>The callbacks that ask and check\<close>

definition remote_create :: "'n network \<Rightarrow> ('n, 'c) client \<Rightarrow> cstr \<Rightarrow> u32 \<Rightarrow> ('n, 'c) result" where
  "remote_create net cl path mode = do {
     (response, cl1) \<leftarrow> consultar net cl (serialize_create (new_nipc_create (client_id cl) path mode));
     let cl2 = (if pkt_type response = tipo_code nipc_ok then olvidar cl1 (dirname path) nipc_readdir_response else cl1);
     r \<leftarrow> check_ok_error response;
     Some (r, cl2) }"

definition remote_open :: "'n network \<Rightarrow> ('n, 'c) client \<Rightarrow> cstr \<Rightarrow> u32 \<Rightarrow> ('n, 'c) result" where
  "remote_open net cl path flags = do {
     (response, cl1) \<leftarrow> consultar net cl (serialize_open (new_nipc_open (client_id cl) path flags));
     r \<leftarrow> check_ok_error response;
     Some (r, cl1) }"

definition remote_release :: "'n network \<Rightarrow> ('n, 'c) client \<Rightarrow> cstr \<Rightarrow> u32 \<Rightarrow> ('n, 'c) result" where
  "remote_release net cl path flags = do {
     (response, cl1) \<leftarrow> consultar net cl (serialize_release (new_nipc_release (client_id cl) path flags));
     r \<leftarrow> check_ok_error response;
     Some (r, cl1) }"

definition remote_unlink :: "'n network \<Rightarrow> ('n, 'c) client \<Rightarrow> cstr \<Rightarrow> ('n, 'c) result" where
  "remote_unlink net cl path = do {
     (response, cl1) \<leftarrow> consultar net cl (serialize_unlink (new_nipc_unlink (client_id cl) path));
     let cl2 = (if pkt_type response = tipo_code nipc_ok
       then olvidar (olvidar cl1 path nipc_getattr_response) (dirname path) nipc_readdir_response else cl1);
     r \<leftarrow> check_ok_error response;
     Some (r, cl2) }"

definition remote_mkdir :: "'n network \<Rightarrow> ('n, 'c) client \<Rightarrow> cstr \<Rightarrow> u32 \<Rightarrow> ('n, 'c) result" where
  "remote_mkdir net cl path mode = do {
     (response, cl1) \<leftarrow> consultar net cl (serialize_mkdir (new_nipc_mkdir (client_id cl) path mode));
     let cl2 = (if pkt_type response = tipo_code nipc_ok then olvidar cl1 (dirname path) nipc_readdir_response else cl1);
     r \<leftarrow> check_ok_error response;
     Some (r, cl2) }"

definition remote_rmdir :: "'n network \<Rightarrow> ('n, 'c) client \<Rightarrow> cstr \<Rightarrow> ('n, 'c) result" where
  "remote_rmdir net cl path = do {
     (response, cl1) \<leftarrow> consultar net cl (serialize_rmdir (new_nipc_rmdir (client_id cl) path));
     let cl2 = (if pkt_type response = tipo_code nipc_ok
       then olvidar (olvidar cl1 path nipc_getattr_response) (dirname path) nipc_readdir_response else cl1);
     r \<leftarrow> check_ok_error response;
     Some (r, cl2) }"

text \<open>The attributes are forgotten whatever the server answers.\<close>

definition remote_truncate :: "'n network \<Rightarrow> ('n, 'c) client \<Rightarrow> cstr \<Rightarrow> int \<Rightarrow> ('n, 'c) result" where
  "remote_truncate net cl path offset = do {
     (response, cl1) \<leftarrow> consultar net cl (serialize_truncate (new_nipc_truncate (client_id cl) path (word_of_int offset)));
     r \<leftarrow> check_ok_error response;
     Some (r, olvidar cl1 path nipc_getattr_response) }"

definition dummy_utimens :: "cstr \<Rightarrow> int" where
  "dummy_utimens path = 0"

section \<open>Attributes and directories\<close>

text \<open>
  The part \<open>remote_getattr\<close> and \<open>remote_readdir\<close> share: the packet from the cache, or from the server and then into the
  cache; an answer of another type is an error.
\<close>

definition pedir_con_cache ::
    "'n network \<Rightarrow> ('n, 'c) client \<Rightarrow> cstr \<Rightarrow> tipo_nipc \<Rightarrow> nipc_packet option \<Rightarrow> ((int + nipc_packet) \<times> ('n, 'c) client) option" where
  "pedir_con_cache net cl path nipc_type pedido =
     (case (case lib (remote_cache cl) of None \<Rightarrow> None
        | Some mc \<Rightarrow> query_memcached mc (conn (remote_cache cl)) path nipc_type (client_id cl)) of
        Some response \<Rightarrow> Some (Inr response, cl)
      | None \<Rightarrow> do {
          (response, cl1) \<leftarrow> consultar net cl pedido;
          (if pkt_type response \<noteq> tipo_code nipc_type
           then do { e \<leftarrow> check_error response; Some (Inl e, cl1) }
           else (case lib (remote_cache cl1) of
               None \<Rightarrow> Some (Inr response, cl1)
             | Some mc \<Rightarrow> do {
                 c \<leftarrow> store_memcached mc (conn (remote_cache cl1)) path response;
                 Some (Inr response, cl1\<lparr>remote_cache := (remote_cache cl1)\<lparr>conn := c\<rparr>\<rparr>) })) })"

definition remote_getattr :: "u32 \<Rightarrow> 'n network \<Rightarrow> ('n, 'c) client \<Rightarrow> cstr \<Rightarrow> (int \<times> stat option \<times> ('n, 'c) client) option" where
  "remote_getattr basura net cl path = do {
     (r, cl1) \<leftarrow> pedir_con_cache net cl path nipc_getattr_response (serialize_getattr (new_nipc_getattr (client_id cl) path));
     (case r of
        Inl e \<Rightarrow> Some (e, None, cl1)
      | Inr response \<Rightarrow> do {
          getattr \<leftarrow> deserialize_getattr_response basura response;
          let e = gr_entry getattr;
          Some (0, Some \<lparr>st_mode = re_mode e, st_nlink = re_n_link e, st_size = uint (re_size e),
                         st_blocks = re_blocks e\<rparr>, cl1) }) }"

text \<open>
  The callback \<open>filler\<close> of FUSE adds a name with its attributes to the output and says whether the buffer is full.
\<close>

fun fill_loop :: "('o \<Rightarrow> cstr option \<Rightarrow> u32 \<times> u32 \<times> u32 \<Rightarrow> 'o \<times> bool) \<Rightarrow> 'o \<Rightarrow> readdir_entry list \<Rightarrow> 'o \<times> bool" where
  "fill_loop filler output [] = (output, False)"
| "fill_loop filler output (e # entries) =
     (let (output1, bufferIsFull) = filler output (re_path e) (re_n_link e, re_mode e, re_size e) in
      if bufferIsFull then (output1, True) else fill_loop filler output1 entries)"

definition ENOMEM :: int where "ENOMEM = 12"

definition remote_readdir :: "u32 \<Rightarrow> 'n network \<Rightarrow> ('n, 'c) client \<Rightarrow> cstr \<Rightarrow> 'o \<Rightarrow>
    ('o \<Rightarrow> cstr option \<Rightarrow> u32 \<times> u32 \<times> u32 \<Rightarrow> 'o \<times> bool) \<Rightarrow> int \<Rightarrow> (int \<times> 'o \<times> ('n, 'c) client) option" where
  "remote_readdir basura net cl path output filler offset = do {
     (r, cl1) \<leftarrow> pedir_con_cache net cl path nipc_readdir_response
        (serialize_readdir (new_nipc_readdir (client_id cl) path (word_of_int offset)));
     (case r of
        Inl e \<Rightarrow> Some (e, output, cl1)
      | Inr response \<Rightarrow> do {
          readdirData \<leftarrow> deserialize_readdir_response basura response;
          let (output1, bufferIsFull) = fill_loop filler output (rr_entries readdirData);
          Some (if bufferIsFull then - ENOMEM else 0, output1, cl1) }) }"

section \<open>Reading and writing\<close>

text \<open>The size of the next request: a signed comparison with the largest size.\<close>

definition request_size :: "('n, 'c) client \<Rightarrow> u32 \<Rightarrow> u32 \<Rightarrow> u32" where
  "request_size cl sz hecho =
     (if sint (sz - hecho) > sint (maximumReadWriteSize cl) then maximumReadWriteSize cl else sz - hecho)"

text \<open>The result, the bytes copied to the output, and the state.\<close>

partial_function (option) read_loop ::
    "'n network \<Rightarrow> ('n, 'c) client \<Rightarrow> cstr \<Rightarrow> u32 \<Rightarrow> int \<Rightarrow> u32 \<Rightarrow> buffer \<Rightarrow> (int \<times> buffer \<times> ('n, 'c) client) option" where
  [code]: "read_loop net cl path sz offset bytesRead output =
     (if bytesRead < sz
      then Option.bind (consultar net cl (serialize_read (new_nipc_read (client_id cl) path (request_size cl sz bytesRead)
          (word_of_int (offset + sint bytesRead))))) (\<lambda>(response, cl1).
        if pkt_type response = tipo_code nipc_read_response
        then if pkt_data_length response = 0 then Some (sint bytesRead, output, cl1)
          else Option.bind (pkt_data response) (\<lambda>d.
            Option.bind (read_buf d 0 (unat (pkt_data_length response))) (\<lambda>bytes.
            Option.bind (ensure (length output + length bytes \<le> unat sz)) (\<lambda>_.
            read_loop net cl1 path sz offset (bytesRead + pkt_data_length response) (output @ bytes))))
        else Option.bind (check_error response) (\<lambda>e. Some (e, output, cl1)))
      else Some (sint bytesRead, output, cl))"

definition remote_read :: "'n network \<Rightarrow> ('n, 'c) client \<Rightarrow> cstr \<Rightarrow> u32 \<Rightarrow> int \<Rightarrow> (int \<times> buffer \<times> ('n, 'c) client) option" where
  "remote_read net cl path sz offset = read_loop net cl path sz offset 0 []"

text \<open>Every request carries the bytes from the front of the input: \<open>input\<close> is never advanced.\<close>

partial_function (option) write_loop ::
    "'n network \<Rightarrow> ('n, 'c) client \<Rightarrow> cstr \<Rightarrow> buffer \<Rightarrow> u32 \<Rightarrow> int \<Rightarrow> u32 \<Rightarrow> ((int + u32) \<times> ('n, 'c) client) option" where
  [code]: "write_loop net cl path input sz offset bytesWrote =
     (if bytesWrote < sz
      then Option.bind (new_nipc_write (client_id cl) path input (request_size cl sz bytesWrote)
          (word_of_int (offset + sint bytesWrote))) (\<lambda>writeData.
        Option.bind (consultar net cl (serialize_write writeData)) (\<lambda>(response, cl1).
        if pkt_type response = tipo_code nipc_ok
        then write_loop net cl1 path input sz offset (bytesWrote + request_size cl sz bytesWrote)
        else Option.bind (check_error response) (\<lambda>e. Some (Inl e, cl1))))
      else Some (Inr bytesWrote, cl))"

definition remote_write :: "u32 \<Rightarrow> 'n network \<Rightarrow> ('n, 'c) client \<Rightarrow> cstr \<Rightarrow> buffer \<Rightarrow> u32 \<Rightarrow> int \<Rightarrow> ('n, 'c) result" where
  "remote_write basura net cl path input sz offset = do {
     (errorCode, stats, cl1) \<leftarrow> remote_getattr basura net cl path;
     (if errorCode \<noteq> 0 then Some (errorCode, cl1)
      else do {
        st \<leftarrow> stats;
        (errorCode2, cl2) \<leftarrow> (if st_size st < offset + uint sz then remote_truncate net cl1 path (offset + uint sz)
           else Some (0, cl1));
        (if errorCode2 \<noteq> 0 then Some (errorCode2, cl2)
         else do {
           (r, cl3) \<leftarrow> write_loop net cl2 path input sz offset 0;
           (case r of
              Inl e \<Rightarrow> Some (e, cl3)
            | Inr bytesWrote \<Rightarrow> Some (sint bytesWrote, olvidar cl3 path nipc_getattr_response)) }) }) }"

section \<open>Handshake\<close>

definition remote_handshake :: "'n network \<Rightarrow> ('n, 'c) client \<Rightarrow> ('n, 'c) result" where
  "remote_handshake net cl = do {
     (response, cl1) \<leftarrow> consultar net cl (Some new_nipc_handshake_hello);
     (if pkt_type response = tipo_code nipc_handshake
      then do {
        b \<leftarrow> pkt_data response;
        m \<leftarrow> c_str b;
        Some (if m \<noteq> HANDSHAKE_OK then (-1, cl1) else (0, cl1\<lparr>client_id := pkt_client_id response\<rparr>)) }
      else do { r \<leftarrow> check_error response; Some (r, cl1) }) }"

end
