(* ===== verification/CList.thy ===== *)
theory CList
  imports Base
begin

text \<open>
  The singly linked list of \<open>commons/src/commons/collections/list.c\<close> on an explicit heap, and
  the queue of \<open>queue.c\<close> built on it. A heap maps addresses to cells; \<open>malloc\<close> returns an
  address never used before and \<open>free\<close> removes the cell, so that every access to a freed cell
  is undefined behaviour (\<open>None\<close>). The data pointers are of type \<open>'a option\<close> (\<open>None\<close> is the
  null pointer). \<open>list_rep\<close> relates a list on the heap to the HOL list it represents; the
  lemmas say that each operation implements the operation on HOL lists. The locale
  \<open>fifo\<close> is the contract of a queue.
\<close>

section \<open>Heap and list\<close>

record 'a link_element =
  el_data :: "'a option"
  el_next :: "nat option"

record 'a lheap =
  cells :: "nat \<rightharpoonup> 'a link_element"
  brk :: nat

record t_list =
  head :: "nat option"
  elements_count :: int

definition heap_free :: "'a lheap \<Rightarrow> nat \<Rightarrow> 'a lheap option" where
  "heap_free h a = (case cells h a of None \<Rightarrow> None | Some _ \<Rightarrow> Some (h\<lparr>cells := (cells h)(a := None)\<rparr>))"

definition list_create_element :: "'a lheap \<Rightarrow> 'a option \<Rightarrow> nat \<times> 'a lheap" where
  "list_create_element h data =
     (brk h, h\<lparr>cells := (cells h)(brk h \<mapsto> \<lparr>el_data = data, el_next = None\<rparr>), brk := brk h + 1\<rparr>)"

definition list_link_element :: "'a lheap \<Rightarrow> nat option \<Rightarrow> nat option \<Rightarrow> 'a lheap option" where
  "list_link_element h previous nxt = (case previous of
      None \<Rightarrow> Some h
    | Some a \<Rightarrow> do {
        e \<leftarrow> cells h a;
        Some (h\<lparr>cells := (cells h)(a \<mapsto> e\<lparr>el_next := nxt\<rparr>)\<rparr>) })"

text \<open>The loop of \<open>list_get_element\<close>: follow \<open>next\<close> \<open>index\<close> times.\<close>

fun walk :: "'a lheap \<Rightarrow> nat option \<Rightarrow> nat \<Rightarrow> nat option option" where
  "walk h element 0 = Some element"
| "walk h element (Suc n) = do {
     a \<leftarrow> element;
     e \<leftarrow> cells h a;
     walk h (el_next e) n }"

definition list_get_element :: "'a lheap \<Rightarrow> t_list \<Rightarrow> int \<Rightarrow> nat option option" where
  "list_get_element h self index =
     (if elements_count self > index \<and> index \<ge> 0 then walk h (head self) (nat index) else Some None)"

section \<open>Operations\<close>

definition list_create :: t_list where
  "list_create = \<lparr>head = None, elements_count = 0\<rparr>"

definition list_add :: "'a lheap \<Rightarrow> t_list \<Rightarrow> 'a option \<Rightarrow> (int \<times> 'a lheap \<times> t_list) option" where
  "list_add h self data = (let (a, h1) = list_create_element h data in
     if elements_count self = 0
     then Some (elements_count self + 1 - 1, h1,
            self\<lparr>head := Some a, elements_count := elements_count self + 1\<rparr>)
     else do {
       prev \<leftarrow> list_get_element h1 self (elements_count self - 1);
       h2 \<leftarrow> list_link_element h1 prev (Some a);
       Some (elements_count self + 1 - 1, h2, self\<lparr>elements_count := elements_count self + 1\<rparr>) })"

definition deref_data :: "'a lheap \<Rightarrow> nat option \<Rightarrow> 'a option option" where
  "deref_data h p = (case p of None \<Rightarrow> Some None | Some a \<Rightarrow> map_option el_data (cells h a))"

definition list_get :: "'a lheap \<Rightarrow> t_list \<Rightarrow> int \<Rightarrow> 'a option option" where
  "list_get h self index = do {
     p \<leftarrow> list_get_element h self index;
     deref_data h p }"

definition list_add_in_index ::
    "'a lheap \<Rightarrow> t_list \<Rightarrow> int \<Rightarrow> 'a option \<Rightarrow> ('a lheap \<times> t_list) option" where
  "list_add_in_index h self index data =
     (if elements_count self > index \<and> index \<ge> 0
      then let (a, h1) = list_create_element h data in
        if index = 0
        then do {
          h2 \<leftarrow> list_link_element h1 (Some a) (head self);
          Some (h2, self\<lparr>head := Some a, elements_count := elements_count self + 1\<rparr>) }
        else do {
          nxt \<leftarrow> list_get_element h1 self index;
          previous \<leftarrow> list_get_element h1 self (index - 1);
          h2 \<leftarrow> list_link_element h1 previous (Some a);
          h3 \<leftarrow> list_link_element h2 (Some a) nxt;
          Some (h3, self\<lparr>elements_count := elements_count self + 1\<rparr>) }
      else Some (h, self))"

definition list_replace ::
    "'a lheap \<Rightarrow> t_list \<Rightarrow> int \<Rightarrow> 'a option \<Rightarrow> ('a option \<times> 'a lheap) option" where
  "list_replace h self index data = do {
     p \<leftarrow> list_get_element h self index;
     (case p of None \<Rightarrow> Some (None, h)
      | Some a \<Rightarrow> do {
          e \<leftarrow> cells h a;
          Some (el_data e, h\<lparr>cells := (cells h)(a \<mapsto> e\<lparr>el_data := data\<rparr>)\<rparr>) }) }"

text \<open>The loops over the elements may not end on a cyclic chain.\<close>

partial_function (option) find_loop ::
    "'a lheap \<Rightarrow> ('a option \<Rightarrow> bool) \<Rightarrow> nat option \<Rightarrow> int \<Rightarrow> (nat option \<times> int) option" where
  [code]: "find_loop h condition element position = (case element of
      None \<Rightarrow> Some (None, position)
    | Some a \<Rightarrow> Option.bind (cells h a) (\<lambda>e.
        if condition (el_data e) then Some (Some a, position)
        else find_loop h condition (el_next e) (position + 1)))"

definition list_find_element ::
    "'a lheap \<Rightarrow> t_list \<Rightarrow> ('a option \<Rightarrow> bool) \<Rightarrow> (nat option \<times> int) option" where
  "list_find_element h self condition = find_loop h condition (head self) 0"

definition list_find :: "'a lheap \<Rightarrow> t_list \<Rightarrow> ('a option \<Rightarrow> bool) \<Rightarrow> 'a option option" where
  "list_find h self condition = do {
     (p, i) \<leftarrow> list_find_element h self condition;
     deref_data h p }"

text \<open>The closure of \<open>list_iterate\<close> may change the heap and its own state \<open>'s\<close>.\<close>

partial_function (option) iterate_loop ::
    "('a option \<Rightarrow> 'a lheap \<times> 's \<Rightarrow> ('a lheap \<times> 's) option) \<Rightarrow> nat option \<Rightarrow> 'a lheap \<times> 's
      \<Rightarrow> ('a lheap \<times> 's) option" where
  [code]: "iterate_loop closure element st = (case element of
      None \<Rightarrow> Some st
    | Some a \<Rightarrow> Option.bind (cells (fst st) a) (\<lambda>e.
        Option.bind (closure (el_data e) st) (\<lambda>st'.
        Option.bind (cells (fst st') a) (\<lambda>e'. iterate_loop closure (el_next e') st'))))"

definition list_iterate ::
    "t_list \<Rightarrow> ('a option \<Rightarrow> 'a lheap \<times> 's \<Rightarrow> ('a lheap \<times> 's) option) \<Rightarrow> 'a lheap \<times> 's
      \<Rightarrow> ('a lheap \<times> 's) option" where
  "list_iterate self closure st = iterate_loop closure (head self) st"

definition add_closure :: "'a option \<Rightarrow> 'a lheap \<times> t_list \<Rightarrow> ('a lheap \<times> t_list) option" where
  "add_closure d st = map_option snd (list_add (fst st) (snd st) d)"

definition list_add_all :: "'a lheap \<Rightarrow> t_list \<Rightarrow> t_list \<Rightarrow> ('a lheap \<times> t_list) option" where
  "list_add_all h self other = list_iterate other add_closure (h, self)"

definition list_remove :: "'a lheap \<Rightarrow> t_list \<Rightarrow> int \<Rightarrow> ('a option \<times> 'a lheap \<times> t_list) option" where
  "list_remove h self index = (case head self of
      None \<Rightarrow> Some (None, h, self)
    | Some _ \<Rightarrow> do {
        p \<leftarrow> list_get_element h self index;
        a \<leftarrow> p;
        e \<leftarrow> cells h a;
        (h1, self1) \<leftarrow>
          (if index = 0 then Some (h, self\<lparr>head := el_next e\<rparr>)
           else do {
             previous \<leftarrow> list_get_element h self (index - 1);
             h' \<leftarrow> list_link_element h previous (el_next e);
             Some (h', self) });
        h2 \<leftarrow> heap_free h1 a;
        Some (el_data e, h2, self1\<lparr>elements_count := elements_count self - 1\<rparr>) })"

definition list_remove_by_condition ::
    "'a lheap \<Rightarrow> t_list \<Rightarrow> ('a option \<Rightarrow> bool) \<Rightarrow> ('a option \<times> 'a lheap \<times> t_list) option" where
  "list_remove_by_condition h self condition = do {
     (p, index) \<leftarrow> list_find_element h self condition;
     (case p of None \<Rightarrow> Some (None, h, self) | Some _ \<Rightarrow> list_remove h self index) }"

definition list_size :: "t_list \<Rightarrow> int" where
  "list_size l = elements_count l"

definition list_is_empty :: "t_list \<Rightarrow> bool" where
  "list_is_empty l \<longleftrightarrow> list_size l = 0"

partial_function (option) clean_loop :: "'a lheap \<Rightarrow> nat option \<Rightarrow> 'a lheap option" where
  [code]: "clean_loop h p = (case p of
      None \<Rightarrow> Some h
    | Some a \<Rightarrow> Option.bind (cells h a) (\<lambda>e.
        Option.bind (heap_free h a) (\<lambda>h'. clean_loop h' (el_next e))))"

definition list_clean :: "'a lheap \<Rightarrow> t_list \<Rightarrow> ('a lheap \<times> t_list) option" where
  "list_clean h self = map_option (\<lambda>h'. (h', \<lparr>head = None, elements_count = 0\<rparr>)) (clean_loop h (head self))"

fun take_loop :: "nat \<Rightarrow> int \<Rightarrow> 'a lheap \<Rightarrow> t_list \<Rightarrow> t_list \<Rightarrow> ('a lheap \<times> t_list) option" where
  "take_loop 0 i h self sublist = Some (h, sublist)"
| "take_loop (Suc n) i h self sublist = do {
     element \<leftarrow> list_get h self i;
     (_, h', sublist') \<leftarrow> list_add h sublist element;
     take_loop n (i + 1) h' self sublist' }"

definition list_take :: "'a lheap \<Rightarrow> t_list \<Rightarrow> nat \<Rightarrow> ('a lheap \<times> t_list) option" where
  "list_take h self count = take_loop count 0 h self list_create"

fun take_remove_loop :: "nat \<Rightarrow> 'a lheap \<Rightarrow> t_list \<Rightarrow> t_list \<Rightarrow> ('a lheap \<times> t_list \<times> t_list) option" where
  "take_remove_loop 0 h self sublist = Some (h, self, sublist)"
| "take_remove_loop (Suc n) h self sublist = do {
     (element, h1, self1) \<leftarrow> list_remove h self 0;
     (_, h2, sublist1) \<leftarrow> list_add h1 sublist element;
     take_remove_loop n h2 self1 sublist1 }"

definition list_take_and_remove :: "'a lheap \<Rightarrow> t_list \<Rightarrow> nat \<Rightarrow> ('a lheap \<times> t_list \<times> t_list) option" where
  "list_take_and_remove h self count = take_remove_loop count h self list_create"

definition list_filter :: "'a lheap \<Rightarrow> t_list \<Rightarrow> ('a option \<Rightarrow> bool) \<Rightarrow> ('a lheap \<times> t_list) option" where
  "list_filter h self condition =
     list_iterate self (\<lambda>d st. if condition d then add_closure d st else Some st) (h, list_create)"

definition list_map :: "'a lheap \<Rightarrow> t_list \<Rightarrow> ('a option \<Rightarrow> 'a option) \<Rightarrow> ('a lheap \<times> t_list) option" where
  "list_map h self transformer =
     list_iterate self (\<lambda>d st. add_closure (transformer d) st) (h, list_create)"

section \<open>Chains\<close>

text \<open>\<open>chain h p axs q\<close>: from \<open>p\<close>, the cells \<open>axs\<close> (address and data) lead to \<open>q\<close>.\<close>

fun chain :: "(nat \<rightharpoonup> 'a link_element) \<Rightarrow> nat option \<Rightarrow> (nat \<times> 'a option) list \<Rightarrow> nat option \<Rightarrow> bool" where
  "chain c p [] q \<longleftrightarrow> p = q"
| "chain c p ((a, d) # axs) q \<longleftrightarrow>
     p = Some a \<and> (\<exists>n. c a = Some \<lparr>el_data = d, el_next = n\<rparr> \<and> chain c n axs q)"

definition heap_ok :: "'a lheap \<Rightarrow> bool" where
  "heap_ok h \<longleftrightarrow> (\<forall>a \<ge> brk h. cells h a = None)"

definition list_at :: "'a lheap \<Rightarrow> t_list \<Rightarrow> (nat \<times> 'a option) list \<Rightarrow> bool" where
  "list_at h l axs \<longleftrightarrow> chain (cells h) (head l) axs None \<and> distinct (map fst axs) \<and>
     elements_count l = int (length axs)"

definition list_rep :: "'a lheap \<Rightarrow> t_list \<Rightarrow> 'a option list \<Rightarrow> bool" where
  "list_rep h l xs \<longleftrightarrow> heap_ok h \<and> (\<exists>axs. list_at h l axs \<and> map snd axs = xs)"

lemma chain_append:
  "chain c p (axs @ bys) q \<longleftrightarrow> (\<exists>r. chain c p axs r \<and> chain c r bys q)"
proof (induction axs arbitrary: p)
  case Nil
  then show ?case by simp
next
  case (Cons ax axs)
  then show ?case by (cases ax) auto
qed

lemma chain_upd: "a \<notin> fst ` set axs \<Longrightarrow> chain (c(a := e)) p axs q \<longleftrightarrow> chain c p axs q"
  by (induction axs arbitrary: p) auto

lemma chain_cell: "chain c p axs q \<Longrightarrow> (a, d) \<in> set axs \<Longrightarrow> \<exists>n. c a = Some \<lparr>el_data = d, el_next = n\<rparr>"
  by (induction axs arbitrary: p) auto

lemma chain_walk:
  "chain (cells h) p (axs @ bys) None \<Longrightarrow> walk h p (length axs) = Some (case bys of [] \<Rightarrow> None | b # _ \<Rightarrow> Some (fst b))"
proof (induction axs arbitrary: p)
  case Nil
  then show ?case by (cases bys) auto
next
  case (Cons ax axs)
  then show ?case by (cases ax) auto
qed

lemma list_at_get_element:
  assumes "list_at h l (axs @ (a, d) # bys)"
  shows "list_get_element h l (int (length axs)) = Some (Some a)"
    and "cells h a = Some \<lparr>el_data = d, el_next = (case bys of [] \<Rightarrow> None | b # _ \<Rightarrow> Some (fst b))\<rparr>"
proof -
  have c: "chain (cells h) (head l) (axs @ (a, d) # bys) None" using assms by (simp add: list_at_def)
  show "list_get_element h l (int (length axs)) = Some (Some a)"
    using assms chain_walk [OF c] by (simp add: list_get_element_def list_at_def)
  from c obtain n where "cells h a = Some \<lparr>el_data = d, el_next = n\<rparr>" "chain (cells h) n bys None"
    by (auto simp: chain_append)
  moreover from this(2) have "n = (case bys of [] \<Rightarrow> None | b # _ \<Rightarrow> Some (fst b))"
    by (cases bys) auto
  ultimately show "cells h a = Some \<lparr>el_data = d, el_next = (case bys of [] \<Rightarrow> None | b # _ \<Rightarrow> Some (fst b))\<rparr>"
    by simp
qed

lemma list_at_out_of_range:
  "list_at h l axs \<Longrightarrow> i < 0 \<or> int (length axs) \<le> i \<Longrightarrow> list_get_element h l i = Some None"
  by (auto simp: list_get_element_def list_at_def)

lemma nth_split: "i < length axs \<Longrightarrow> \<exists>us a d vs. axs = us @ (a, d) # vs \<and> length us = i"
  by (metis id_take_nth_drop length_take less_imp_le min.absorb2 surj_pair)

section \<open>Refinement of each operation\<close>

text \<open>
  \<open>keeps h h' used\<close>: the step from \<open>h\<close> to \<open>h'\<close> changed no live cell outside \<open>used\<close>, so that
  every other list of the heap is as before.
\<close>

definition keeps :: "'a lheap \<Rightarrow> 'a lheap \<Rightarrow> nat set \<Rightarrow> bool" where
  "keeps h h' used \<longleftrightarrow> brk h \<le> brk h' \<and> (\<forall>a. a < brk h \<and> a \<notin> used \<longrightarrow> cells h' a = cells h a)"

abbreviation addrs :: "(nat \<times> 'a option) list \<Rightarrow> nat set" where
  "addrs axs \<equiv> fst ` set axs"

lemma chain_cong: "(\<forall>a \<in> addrs axs. c' a = c a) \<Longrightarrow> chain c' p axs q = chain c p axs q"
proof (induction axs arbitrary: p)
  case (Cons ax axs)
  then show ?case by (cases ax) auto
qed simp

lemma chain_live: "chain c p axs q \<Longrightarrow> a \<in> addrs axs \<Longrightarrow> c a \<noteq> None"
  using chain_cell by fastforce

lemma list_at_below: "heap_ok h \<Longrightarrow> list_at h l axs \<Longrightarrow> a \<in> addrs axs \<Longrightarrow> a < brk h"
  unfolding heap_ok_def list_at_def by (meson chain_live linorder_not_less)

lemma list_at_keeps:
  assumes "keeps h h' used" and "heap_ok h" and "list_at h l axs" and "addrs axs \<inter> used = {}"
  shows "list_at h' l axs"
proof -
  have "\<forall>a \<in> addrs axs. cells h' a = cells h a"
    using assms list_at_below [OF assms(2,3)] unfolding keeps_def by blast
  then show ?thesis using assms(3) chain_cong unfolding list_at_def by metis
qed

lemma list_create_at: "list_at h list_create []"
  by (simp add: list_at_def list_create_def)

lemma list_add_at:
  assumes h: "heap_ok h" and l: "list_at h l axs"
  shows "\<exists>h' l'. list_add h l d = Some (int (length axs), h', l') \<and> heap_ok h' \<and>
     list_at h' l' (axs @ [(brk h, d)]) \<and> keeps h h' (addrs axs)"
proof -
  let ?c = "(cells h)(brk h \<mapsto> \<lparr>el_data = d, el_next = None\<rparr>)"
  let ?h1 = "h\<lparr>cells := ?c, brk := brk h + 1\<rparr>"
  have fresh: "brk h \<notin> addrs axs" using list_at_below [OF h l] by blast
  show ?thesis
  proof (cases axs rule: rev_cases)
    case Nil
    then show ?thesis using h l
      by (auto simp: list_add_def list_create_element_def list_at_def heap_ok_def keeps_def)
  next
    case (snoc us ad)
    obtain a e where ad: "ad = (a, e)" by (cases ad)
    have l1: "list_at ?h1 l (us @ (a, e) # [])"
      using l fresh snoc ad by (simp add: list_at_def chain_upd)
    have g: "list_get_element ?h1 l (elements_count l - 1) = Some (Some a)"
      using list_at_get_element(1) [OF l1] l snoc by (simp add: list_at_def)
    have ca: "?c a = Some \<lparr>el_data = e, el_next = None\<rparr>"
      using list_at_get_element(2) [OF l1] by simp
    have ne: "a \<noteq> brk h" "a \<notin> addrs us" "brk h \<notin> addrs us"
      using fresh snoc ad l by (auto simp: list_at_def)
    have ab: "a < brk h" using list_at_below [OF h l] snoc ad by auto
    let ?h2 = "?h1\<lparr>cells := ?c(a \<mapsto> \<lparr>el_data = e, el_next = Some (brk h)\<rparr>)\<rparr>"
    have add: "list_add h l d = Some (int (length axs), ?h2, l\<lparr>elements_count := elements_count l + 1\<rparr>)"
      using g ca l snoc
      by (simp add: list_add_def list_create_element_def list_link_element_def list_at_def)
    have "chain (cells h) (head l) us (Some a)"
      using l snoc ad by (auto simp: list_at_def chain_append)
    then have "list_at ?h2 (l\<lparr>elements_count := elements_count l + 1\<rparr>) (axs @ [(brk h, d)])"
      using l snoc ad ne fresh by (auto simp: list_at_def chain_append chain_upd)
    then show ?thesis using add h snoc ad ab
      by (intro exI conjI) (auto simp: heap_ok_def keeps_def)
  qed
qed

text \<open>The two writes of an insertion before position \<open>length us > 0\<close>.\<close>

lemma chain_insert:
  assumes "chain c p (us @ [(a, e)] @ (b, f) # vs) None" and "x \<notin> addrs (us @ [(a, e)] @ (b, f) # vs)"
    and "distinct (map fst (us @ [(a, e)] @ (b, f) # vs))"
  shows "chain (c(x \<mapsto> \<lparr>el_data = d, el_next = Some b\<rparr>, a \<mapsto> \<lparr>el_data = e, el_next = Some x\<rparr>)) p
     (us @ [(a, e), (x, d)] @ (b, f) # vs) None"
proof -
  from assms(1) obtain n where "chain c p us (Some a)" "c b = Some \<lparr>el_data = f, el_next = n\<rparr>" "chain c n vs None"
    by (auto simp: chain_append)
  moreover have "x \<notin> addrs us" "x \<notin> addrs vs" using assms(2) by auto
  ultimately show ?thesis using assms(2,3) by (auto simp: chain_append chain_upd)
qed

lemma list_add_in_index_at:
  assumes h: "heap_ok h" and l: "list_at h l (us @ vs)" and v: "vs \<noteq> []"
  shows "\<exists>h' l'. list_add_in_index h l (int (length us)) d = Some (h', l') \<and> heap_ok h' \<and>
     list_at h' l' (us @ (brk h, d) # vs) \<and> keeps h h' (addrs (us @ vs))"
proof -
  let ?c = "(cells h)(brk h \<mapsto> \<lparr>el_data = d, el_next = None\<rparr>)"
  let ?h1 = "h\<lparr>cells := ?c, brk := brk h + 1\<rparr>"
  have fresh: "brk h \<notin> addrs (us @ vs)" using list_at_below [OF h l] by blast
  obtain b f ws where vs: "vs = (b, f) # ws" using v by (cases vs) auto
  show ?thesis
  proof (cases us rule: rev_cases)
    case Nil
    then show ?thesis using h l vs fresh
      by (auto simp: list_add_in_index_def list_create_element_def list_link_element_def list_at_def
          heap_ok_def keeps_def chain_upd)
  next
    case (snoc ts ae)
    obtain a e where ae: "ae = (a, e)" by (cases ae)
    have l1: "list_at ?h1 l (us @ vs)" using l fresh by (simp add: list_at_def chain_upd)
    have g: "list_get_element ?h1 l (int (length us)) = Some (Some b)"
      using list_at_get_element(1) [of ?h1 l us b f ws] l1 vs by simp
    have g1: "list_get_element ?h1 l (int (length us) - 1) = Some (Some a)"
      using list_at_get_element(1) [of ?h1 l ts a e vs] l1 snoc ae by simp
    have ca: "?c a = Some \<lparr>el_data = e, el_next = Some b\<rparr>"
      using list_at_get_element(2) [of ?h1 l ts a e vs] l1 snoc ae vs by simp
    have ne: "a \<noteq> brk h" "a < brk h" using fresh snoc ae list_at_below [OF h l] by auto
    let ?c2 = "(cells h)(brk h \<mapsto> \<lparr>el_data = d, el_next = Some b\<rparr>, a \<mapsto> \<lparr>el_data = e, el_next = Some (brk h)\<rparr>)"
    let ?l2 = "l\<lparr>elements_count := elements_count l + 1\<rparr>"
    have "list_add_in_index h l (int (length us)) d = Some (?h1\<lparr>cells := ?c2\<rparr>, ?l2)"
      using g g1 ca ne l snoc vs
      by (simp add: list_add_in_index_def list_create_element_def list_link_element_def list_at_def
          fun_upd_twist)
    moreover have "list_at (?h1\<lparr>cells := ?c2\<rparr>) ?l2 (us @ (brk h, d) # vs)"
      using chain_insert [of "cells h" "head l" ts a e b f ws "brk h" d] l fresh snoc ae vs
      by (auto simp: list_at_def)
    moreover have "heap_ok (?h1\<lparr>cells := ?c2\<rparr>)" using h ne by (auto simp: heap_ok_def)
    moreover have "keeps h (?h1\<lparr>cells := ?c2\<rparr>) (addrs (us @ vs))"
      using snoc ae by (auto simp: keeps_def)
    ultimately show ?thesis by blast
  qed
qed

lemma list_replace_at:
  assumes h: "heap_ok h" and l: "list_at h l (us @ (a, e) # vs)"
  shows "\<exists>h'. list_replace h l (int (length us)) d = Some (e, h') \<and> heap_ok h' \<and>
     list_at h' l (us @ (a, d) # vs) \<and> keeps h h' {a}"
proof -
  note g = list_at_get_element [OF l]
  from l obtain n where "chain (cells h) (head l) us (Some a)" "cells h a = Some \<lparr>el_data = e, el_next = n\<rparr>"
    "chain (cells h) n vs None" by (auto simp: list_at_def chain_append)
  with h l g(1) list_at_below [OF h l, of a] show ?thesis
    by (auto simp: list_replace_def list_at_def heap_ok_def keeps_def chain_append chain_upd)
qed

lemma list_remove_at:
  assumes h: "heap_ok h" and l: "list_at h l (us @ (a, e) # vs)"
  shows "\<exists>h' l'. list_remove h l (int (length us)) = Some (e, h', l') \<and> heap_ok h' \<and>
     list_at h' l' (us @ vs) \<and> keeps h h' (addrs (us @ (a, e) # vs)) \<and> cells h' a = None"
proof (cases us rule: rev_cases)
  case Nil
  then show ?thesis using h l
    by (auto simp: list_remove_def heap_free_def list_get_element_def list_at_def heap_ok_def keeps_def chain_upd)
next
  case (snoc ts bf)
  obtain b f where bf: "bf = (b, f)" by (cases bf)
  note g = list_at_get_element [OF l]
  have g1: "list_get_element h l (int (length us) - 1) = Some (Some b)"
    using list_at_get_element(1) [of h l ts b f "(a, e) # vs"] l snoc bf by simp
  have cb: "cells h b = Some \<lparr>el_data = f, el_next = Some a\<rparr>"
    using list_at_get_element(2) [of h l ts b f "(a, e) # vs"] l snoc bf by simp
  from l obtain n where n: "chain (cells h) (head l) ts (Some b)"
    "cells h a = Some \<lparr>el_data = e, el_next = n\<rparr>" "chain (cells h) n vs None"
    using snoc bf by (auto simp: list_at_def chain_append)
  have ne: "a \<noteq> b" "b < brk h" using l snoc bf list_at_below [OF h l] by (auto simp: list_at_def)
  have hd: "head l \<noteq> None" using l snoc bf by (cases ts) (auto simp: list_at_def)
  let ?h' = "h\<lparr>cells := (cells h)(b \<mapsto> \<lparr>el_data = f, el_next = n\<rparr>, a := None)\<rparr>"
  let ?l' = "l\<lparr>elements_count := elements_count l - 1\<rparr>"
  have "list_remove h l (int (length us)) = Some (e, ?h', ?l')"
    using g(1) g1 cb n(2) ne hd snoc
    by (auto simp: list_remove_def list_link_element_def heap_free_def)
  moreover have "list_at ?h' ?l' (us @ vs)"
    using l snoc bf n ne by (auto simp: list_at_def chain_append chain_upd)
  moreover have "heap_ok ?h'" using h ne by (auto simp: heap_ok_def)
  moreover have "keeps h ?h' (addrs (us @ (a, e) # vs))" using snoc bf by (auto simp: keeps_def)
  ultimately show ?thesis by (intro exI conjI) auto
qed

lemma list_remove_out_of_range:
  assumes "list_at h l axs" and "i < 0 \<or> int (length axs) \<le> i"
  shows "list_remove h l i = (if axs = [] then Some (None, h, l) else None)"
proof (cases axs)
  case Nil
  then show ?thesis using assms by (simp add: list_remove_def list_at_def)
next
  case (Cons ad ads)
  then have "head l \<noteq> None" using assms by (cases ad) (auto simp: list_at_def)
  then show ?thesis using list_at_out_of_range [OF assms] Cons by (auto simp: list_remove_def)
qed

text \<open>The loops end on a chain.\<close>

lemma find_loop_chain:
  "chain (cells h) p axs None \<Longrightarrow> find_loop h P p i = Some (case dropWhile (\<lambda>ad. \<not> P (snd ad)) axs of
      [] \<Rightarrow> (None, i + int (length axs))
    | ad # _ \<Rightarrow> (Some (fst ad), i + int (length (takeWhile (\<lambda>ad. \<not> P (snd ad)) axs))))"
proof (induction axs arbitrary: p i)
  case Nil
  then show ?case by (simp add: find_loop.simps)
next
  case (Cons ad axs)
  then show ?case
    by (cases ad) (auto simp: find_loop.simps [of h P "Some _"] simp del: dropWhile_eq_Nil_conv split: list.splits)
qed

lemma clean_loop_chain:
  assumes "heap_ok h" and "chain (cells h) p axs None" and "distinct (map fst axs)"
  shows "\<exists>h'. clean_loop h p = Some h' \<and> heap_ok h' \<and> keeps h h' (addrs axs) \<and> (\<forall>a \<in> addrs axs. cells h' a = None)"
  using assms
proof (induction axs arbitrary: h p)
  case Nil
  then show ?case by (simp add: clean_loop.simps keeps_def)
next
  case (Cons ad axs)
  obtain a d where ad: "ad = (a, d)" by (cases ad)
  then obtain n where n: "p = Some a" "cells h a = Some \<lparr>el_data = d, el_next = n\<rparr>" "chain (cells h) n axs None"
    using Cons.prems by auto
  let ?h1 = "h\<lparr>cells := (cells h)(a := None)\<rparr>"
  have 1: "heap_ok ?h1" "chain (cells ?h1) n axs None" "distinct (map fst axs)"
    using Cons.prems n ad by (auto simp: heap_ok_def chain_upd)
  from Cons.IH [OF this] obtain h' where h': "clean_loop ?h1 n = Some h'" "heap_ok h'" "keeps ?h1 h' (addrs axs)"
    "\<forall>a \<in> addrs axs. cells h' a = None" by blast
  have "clean_loop h p = Some h'" using n h'(1) by (simp add: clean_loop.simps [of h] heap_free_def)
  moreover have "a < brk h" using Cons.prems(1) n(2) unfolding heap_ok_def by (metis linorder_not_less option.distinct(1))
  moreover have "a \<notin> addrs axs" using Cons.prems(3) ad by auto
  ultimately show ?case using h' ad by (auto simp: keeps_def)
qed

text \<open>
  The closures of \<open>list_filter\<close>, \<open>list_map\<close> and \<open>list_add_all\<close> append to a second list of
  the heap; \<open>g\<close> is what they append for one element.
\<close>

lemma iterate_loop_add:
  assumes cl: "\<And>d st. closure d st = (case g d of None \<Rightarrow> Some st | Some x \<Rightarrow> add_closure x st)"
  shows "heap_ok h \<Longrightarrow> list_at h l bys \<Longrightarrow> chain (cells h) p axs None \<Longrightarrow> addrs axs \<inter> addrs bys = {} \<Longrightarrow>
    \<exists>h' l' cys. iterate_loop closure p (h, l) = Some (h', l') \<and> heap_ok h' \<and> keeps h h' (addrs bys) \<and>
      list_at h' l' (bys @ cys) \<and> map snd cys = List.map_filter g (map snd axs) \<and>
      (\<forall>a \<in> addrs cys. brk h \<le> a)"
proof (induction axs arbitrary: h l bys p)
  case Nil
  then show ?case
    by (intro exI [of _ h] exI [of _ l] exI [of _ "[]"]) (simp add: iterate_loop.simps keeps_def map_filter_simps)
next
  case (Cons ad axs)
  obtain a d where ad: "ad = (a, d)" by (cases ad)
  then obtain n where n: "p = Some a" "cells h a = Some \<lparr>el_data = d, el_next = n\<rparr>" "chain (cells h) n axs None"
    using Cons.prems by auto
  show ?case
  proof (cases "g d")
    case None
    then have "iterate_loop closure p (h, l) = iterate_loop closure n (h, l)"
      using n by (simp add: iterate_loop.simps [of closure "Some a"] cl)
    moreover have "addrs axs \<inter> addrs bys = {}" using Cons.prems(4) by auto
    ultimately show ?thesis using Cons.IH [OF Cons.prems(1,2) n(3)] None ad by (simp add: map_filter_simps)
  next
    case (Some x)
    obtain h1 l1 where s1: "list_add h l x = Some (int (length bys), h1, l1)" "heap_ok h1"
      "list_at h1 l1 (bys @ [(brk h, x)])" "keeps h h1 (addrs bys)"
      using list_add_at [OF Cons.prems(1,2)] by metis
    have live: "\<forall>b \<in> addrs (ad # axs). b < brk h \<and> b \<notin> addrs bys"
      using Cons.prems(1,3,4) chain_live unfolding heap_ok_def
      by (metis disjoint_iff linorder_not_less)
    then have same: "\<forall>b \<in> addrs (ad # axs). cells h1 b = cells h b"
      using s1(4) by (auto simp: keeps_def)
    then have c1: "chain (cells h1) n axs None" using n(3) chain_cong [of axs "cells h1" "cells h"] by auto
    have step: "iterate_loop closure p (h, l) = iterate_loop closure n (h1, l1)"
      using n s1(1) same Some ad by (simp add: iterate_loop.simps [of closure "Some a"] cl add_closure_def)
    have "brk h \<notin> addrs axs" "addrs axs \<inter> addrs bys = {}"
      using live Cons.prems(4) by auto
    then have dj: "addrs axs \<inter> addrs (bys @ [(brk h, x)]) = {}" by simp
    obtain h' l' cys where r: "iterate_loop closure n (h1, l1) = Some (h', l')" "heap_ok h'"
      "keeps h1 h' (addrs (bys @ [(brk h, x)]))" "list_at h' l' ((bys @ [(brk h, x)]) @ cys)"
      "map snd cys = List.map_filter g (map snd axs)" "\<forall>a \<in> addrs cys. brk h1 \<le> a"
      using Cons.IH [OF s1(2,3) c1 dj] by metis
    have "keeps h h' (addrs bys)" using s1(4) r(3) by (auto simp: keeps_def)
    moreover have "\<forall>a \<in> addrs ((brk h, x) # cys). brk h \<le> a"
      using r(6) s1(4) unfolding keeps_def by force
    moreover have "iterate_loop closure p (h, l) = Some (h', l')" using step r(1) by simp
    moreover have "map snd ((brk h, x) # cys) = List.map_filter g (map snd (ad # axs))"
      using r(5) Some ad by (simp add: map_filter_simps)
    moreover have "list_at h' l' (bys @ (brk h, x) # cys)" using r(4) by simp
    ultimately show ?thesis using r(2) by blast
  qed
qed

section \<open>The interface of a list\<close>

text \<open>
  What the clients of \<open>list.c\<close> rely on: a list stands for a sequence, and each operation is the
  operation on sequences.
\<close>

locale sequence_impl =
  fixes rep :: "'h \<Rightarrow> 'l \<Rightarrow> 'a option list \<Rightarrow> bool"
    and create :: 'l
    and add :: "'h \<Rightarrow> 'l \<Rightarrow> 'a option \<Rightarrow> (int \<times> 'h \<times> 'l) option"
    and get :: "'h \<Rightarrow> 'l \<Rightarrow> int \<Rightarrow> 'a option option"
    and remove :: "'h \<Rightarrow> 'l \<Rightarrow> int \<Rightarrow> ('a option \<times> 'h \<times> 'l) option"
    and count :: "'l \<Rightarrow> int"
    and heap_inv :: "'h \<Rightarrow> bool"
  assumes create_rep: "heap_inv h \<Longrightarrow> rep h create []"
    and add_rep: "rep h l xs \<Longrightarrow> \<exists>h' l'. add h l d = Some (int (length xs), h', l') \<and> rep h' l' (xs @ [d])"
    and get_rep: "rep h l xs \<Longrightarrow>
      get h l i = Some (if 0 \<le> i \<and> i < int (length xs) then xs ! nat i else None)"
    and remove_rep: "rep h l xs \<Longrightarrow> n < length xs \<Longrightarrow>
      \<exists>h' l'. remove h l (int n) = Some (xs ! n, h', l') \<and> rep h' l' (take n xs @ drop (Suc n) xs)"
    and remove_empty: "rep h l [] \<Longrightarrow> remove h l i = Some (None, h, l)"
    and count_rep: "rep h l xs \<Longrightarrow> count l = int (length xs)"
begin

lemma remove_first: "rep h l (x # xs) \<Longrightarrow> \<exists>h' l'. remove h l 0 = Some (x, h', l') \<and> rep h' l' xs"
  using remove_rep [of h l "x # xs" 0] by simp

end

text \<open>The contract of a queue, on a trace of operations.\<close>

datatype 'a queue_op = Push "'a option" | Pop | Peek | Size

datatype 'a queue_out = Nothing | Data "'a option" | Count int

fun fifo_step :: "'a option list \<Rightarrow> 'a queue_op \<Rightarrow> 'a queue_out \<times> 'a option list" where
  "fifo_step xs (Push d) = (Nothing, xs @ [d])"
| "fifo_step xs Pop = (case xs of [] \<Rightarrow> (Data None, []) | x # xs' \<Rightarrow> (Data x, xs'))"
| "fifo_step xs Peek = (case xs of [] \<Rightarrow> (Data None, []) | x # _ \<Rightarrow> (Data x, xs))"
| "fifo_step xs Size = (Count (int (length xs)), xs)"

fun fifo_run :: "'a option list \<Rightarrow> 'a queue_op list \<Rightarrow> 'a queue_out list \<times> 'a option list" where
  "fifo_run xs [] = ([], xs)"
| "fifo_run xs (op # ops) = (let (r, xs') = fifo_step xs op; (rs, xs'') = fifo_run xs' ops in (r # rs, xs''))"

locale fifo_impl =
  fixes rep :: "'h \<Rightarrow> 'q \<Rightarrow> 'a option list \<Rightarrow> bool"
    and push :: "'h \<Rightarrow> 'q \<Rightarrow> 'a option \<Rightarrow> ('h \<times> 'q) option"
    and pop :: "'h \<Rightarrow> 'q \<Rightarrow> ('a option \<times> 'h \<times> 'q) option"
    and peek :: "'h \<Rightarrow> 'q \<Rightarrow> 'a option option"
    and count :: "'q \<Rightarrow> int"
  assumes push_rep: "rep h q xs \<Longrightarrow> \<exists>h' q'. push h q d = Some (h', q') \<and> rep h' q' (xs @ [d])"
    and pop_rep: "rep h q (x # xs) \<Longrightarrow> \<exists>h' q'. pop h q = Some (x, h', q') \<and> rep h' q' xs"
    and pop_empty: "rep h q [] \<Longrightarrow> pop h q = Some (None, h, q)"
    and peek_rep: "rep h q xs \<Longrightarrow> peek h q = Some (case xs of [] \<Rightarrow> None | x # _ \<Rightarrow> x)"
    and size_rep: "rep h q xs \<Longrightarrow> count q = int (length xs)"
begin

fun impl_step :: "'h \<Rightarrow> 'q \<Rightarrow> 'a queue_op \<Rightarrow> ('a queue_out \<times> 'h \<times> 'q) option" where
  "impl_step h q (Push d) = map_option (\<lambda>(h', q'). (Nothing, h', q')) (push h q d)"
| "impl_step h q Pop = map_option (\<lambda>(x, h', q'). (Data x, h', q')) (pop h q)"
| "impl_step h q Peek = map_option (\<lambda>x. (Data x, h, q)) (peek h q)"
| "impl_step h q Size = Some (Count (count q), h, q)"

lemma impl_step_refines:
  "rep h q xs \<Longrightarrow> \<exists>h' q'. impl_step h q op = Some (fst (fifo_step xs op), h', q') \<and> rep h' q' (snd (fifo_step xs op))"
  by (cases op) (auto simp: peek_rep pop_empty size_rep split: list.split dest: push_rep pop_rep)

end

sublocale sequence_impl \<subseteq> fifo: fifo_impl rep "\<lambda>h q d. map_option snd (add h q d)"
    "\<lambda>h q. remove h q 0" "\<lambda>h q. get h q 0" count
proof
  fix h q d xs
  assume "rep h q xs"
  from add_rep [OF this, of d] obtain h' q' where "add h q d = Some (int (length xs), h', q')" "rep h' q' (xs @ [d])"
    by blast
  then show "\<exists>h' q'. map_option snd (add h q d) = Some (h', q') \<and> rep h' q' (xs @ [d])" by simp
next
  fix h q xs
  assume "rep h q xs"
  then show "get h q 0 = Some (case xs of [] \<Rightarrow> None | x # _ \<Rightarrow> x)"
    by (auto simp: get_rep split: list.split)
qed (auto simp: remove_first remove_empty count_rep)

section \<open>The list implements the interface\<close>

lemma list_repE:
  assumes "list_rep h l xs"
  obtains axs where "heap_ok h" "list_at h l axs" "xs = map snd axs"
  using assms by (auto simp: list_rep_def)

lemma list_repI [intro]: "heap_ok h \<Longrightarrow> list_at h l axs \<Longrightarrow> map snd axs = xs \<Longrightarrow> list_rep h l xs"
  by (auto simp: list_rep_def)

lemma list_get_at:
  "list_at h l axs \<Longrightarrow>
    list_get h l i = Some (if 0 \<le> i \<and> i < int (length axs) then map snd axs ! nat i else None)"
proof (cases "0 \<le> i \<and> i < int (length axs)")
  case True
  assume l: "list_at h l axs"
  from True have "nat i < length axs" by linarith
  then obtain us a d vs where "axs = us @ (a, d) # vs" "length us = nat i"
    using nth_split by blast
  then show ?thesis using True list_at_get_element [of h l us a d vs] l
    by (simp add: list_get_def deref_data_def nth_append)
next
  case False
  assume "list_at h l axs"
  then show ?thesis using False list_at_out_of_range [of h l axs i] by (auto simp: list_get_def deref_data_def)
qed

lemma list_remove_rep:
  assumes "list_rep h l xs" and "n < length xs"
  shows "\<exists>h' l'. list_remove h l (int n) = Some (xs ! n, h', l') \<and> list_rep h' l' (take n xs @ drop (Suc n) xs)"
proof -
  from assms(1) obtain axs where a: "heap_ok h" "list_at h l axs" "xs = map snd axs" by (rule list_repE)
  with assms(2) obtain us b d vs where s: "axs = us @ (b, d) # vs" "length us = n"
    using nth_split [of n axs] by auto
  obtain h' l' where "list_remove h l (int n) = Some (d, h', l')" "heap_ok h'" "list_at h' l' (us @ vs)"
    using list_remove_at [of h l us b d vs] a s by auto
  then show ?thesis using a(3) s by (auto simp: nth_append)
qed

interpretation lst: sequence_impl list_rep list_create list_add list_get list_remove list_size heap_ok
proof
  fix h :: "'a lheap" and l :: t_list and xs :: "'a option list" and d :: "'a option" and i :: int and n :: nat
  show "list_rep h list_create []" if "heap_ok h"
    using that list_create_at by auto
  show "\<exists>h' l'. list_add h l d = Some (int (length xs), h', l') \<and> list_rep h' l' (xs @ [d])" if "list_rep h l xs"
    using that
  proof (rule list_repE)
    fix axs assume "heap_ok h" "list_at h l axs" "xs = map snd axs"
    moreover from this list_add_at [of h l axs d] obtain h' l' where
      "list_add h l d = Some (int (length axs), h', l')" "heap_ok h'" "list_at h' l' (axs @ [(brk h, d)])" by blast
    moreover from this(2,3) have "list_rep h' l' (map snd (axs @ [(brk h, d)]))" by blast
    ultimately show ?thesis by simp
  qed
  show "list_get h l i = Some (if 0 \<le> i \<and> i < int (length xs) then xs ! nat i else None)" if "list_rep h l xs"
    using that by (elim list_repE) (simp add: list_get_at)
  show "\<exists>h' l'. list_remove h l (int n) = Some (xs ! n, h', l') \<and> list_rep h' l' (take n xs @ drop (Suc n) xs)"
    if "list_rep h l xs" "n < length xs" using that by (rule list_remove_rep)
  show "list_remove h l i = Some (None, h, l)" if "list_rep h l []"
    using that by (auto simp: list_remove_def list_at_def elim!: list_repE)
  show "list_size l = int (length xs)" if "list_rep h l xs"
    using that by (auto simp: list_size_def list_at_def elim!: list_repE)
qed

section \<open>Queue\<close>

record t_queue =
  elements :: t_list

definition queue_create :: t_queue where
  "queue_create = \<lparr>elements = list_create\<rparr>"

definition queue_clean :: "'a lheap \<Rightarrow> t_queue \<Rightarrow> ('a lheap \<times> t_queue) option" where
  "queue_clean h self = do { (h', l) \<leftarrow> list_clean h (elements self); Some (h', self\<lparr>elements := l\<rparr>) }"

definition queue_push :: "'a lheap \<Rightarrow> t_queue \<Rightarrow> 'a option \<Rightarrow> ('a lheap \<times> t_queue) option" where
  "queue_push h self element = do {
     (_, h', l) \<leftarrow> list_add h (elements self) element;
     Some (h', self\<lparr>elements := l\<rparr>) }"

definition queue_pop :: "'a lheap \<Rightarrow> t_queue \<Rightarrow> ('a option \<times> 'a lheap \<times> t_queue) option" where
  "queue_pop h self = do {
     (d, h', l) \<leftarrow> list_remove h (elements self) 0;
     Some (d, h', self\<lparr>elements := l\<rparr>) }"

definition queue_peek :: "'a lheap \<Rightarrow> t_queue \<Rightarrow> 'a option option" where
  "queue_peek h self = list_get h (elements self) 0"

definition queue_size :: "t_queue \<Rightarrow> int" where
  "queue_size self = list_size (elements self)"

definition queue_is_empty :: "t_queue \<Rightarrow> bool" where
  "queue_is_empty self = list_is_empty (elements self)"

definition queue_rep :: "'a lheap \<Rightarrow> t_queue \<Rightarrow> 'a option list \<Rightarrow> bool" where
  "queue_rep h q xs = list_rep h (elements q) xs"

interpretation qu: fifo_impl queue_rep queue_push queue_pop queue_peek queue_size
proof
  fix h :: "'a lheap" and q :: t_queue and xs :: "'a option list" and d x :: "'a option"
  show "\<exists>h' q'. queue_push h q d = Some (h', q') \<and> queue_rep h' q' (xs @ [d])" if "queue_rep h q xs"
    using that lst.add_rep [of h "elements q" xs d] by (auto simp: queue_rep_def queue_push_def)
  show "\<exists>h' q'. queue_pop h q = Some (x, h', q') \<and> queue_rep h' q' xs" if "queue_rep h q (x # xs)"
    using that lst.remove_first [of h "elements q" x xs] by (auto simp: queue_rep_def queue_pop_def)
qed (auto simp: queue_rep_def queue_pop_def queue_peek_def queue_size_def lst.remove_empty lst.get_rep
    lst.count_rep split: list.split)

text \<open>A trace of queue operations on the heap.\<close>

fun queue_run :: "'a lheap \<Rightarrow> t_queue \<Rightarrow> 'a queue_op list \<Rightarrow> ('a queue_out list \<times> 'a lheap \<times> t_queue) option" where
  "queue_run h q [] = Some ([], h, q)"
| "queue_run h q (op # ops) = do {
     (r, h', q') \<leftarrow> qu.impl_step h q op;
     (rs, h'', q'') \<leftarrow> queue_run h' q' ops;
     Some (r # rs, h'', q'') }"

lemma queue_run_rep:
  "queue_rep h q xs \<Longrightarrow>
    \<exists>h' q'. queue_run h q ops = Some (fst (fifo_run xs ops), h', q') \<and> queue_rep h' q' (snd (fifo_run xs ops))"
proof (induction ops arbitrary: h q xs)
  case (Cons op ops)
  from qu.impl_step_refines [OF Cons.prems, of op] obtain h1 q1 where
    s: "qu.impl_step h q op = Some (fst (fifo_step xs op), h1, q1)" "queue_rep h1 q1 (snd (fifo_step xs op))" by blast
  from Cons.IH [OF s(2)] obtain h2 q2 where
    "queue_run h1 q1 ops = Some (fst (fifo_run (snd (fifo_step xs op)) ops), h2, q2)"
    "queue_rep h2 q2 (snd (fifo_run (snd (fifo_step xs op)) ops))" by blast
  with s(1) show ?case by (simp add: case_prod_unfold Let_def)
qed simp

section \<open>Properties\<close>

lemma list_at_nthE:
  assumes "list_rep h l xs" and "n < length xs"
  obtains us a d vs where "heap_ok h" "list_at h l (us @ (a, d) # vs)" "length us = n"
    "xs = map snd us @ d # map snd vs"
proof -
  from assms(1) obtain axs where "heap_ok h" "list_at h l axs" "xs = map snd axs" by (rule list_repE)
  moreover from this assms(2) obtain us a d vs where "axs = us @ (a, d) # vs" "length us = n"
    using nth_split [of n axs] by auto
  ultimately show ?thesis using that by simp
qed

definition demo_heap :: "nat lheap" where
  "demo_heap = \<lparr>cells = [0 \<mapsto> \<lparr>el_data = Some 7, el_next = Some 1\<rparr>, 1 \<mapsto> \<lparr>el_data = Some 9, el_next = None\<rparr>],
     brk = 2\<rparr>"

definition demo_list :: t_list where
  "demo_list = \<lparr>head = Some 0, elements_count = 2\<rparr>"

lemma demo_rep: "list_rep demo_heap demo_list [Some 7, Some 9]"
proof -
  have "heap_ok demo_heap" "list_at demo_heap demo_list [(0, Some 7), (1, Some 9)]"
    by (simp_all add: heap_ok_def list_at_def demo_heap_def demo_list_def)
  then show ?thesis by fastforce
qed

text \<open>
  C38. On a list that represents a sequence, at a position inside it: \<open>list_add_in_index\<close> inserts
  before the position, \<open>list_replace\<close> returns the old element and stores the new one,
  \<open>list_remove\<close> returns the element and takes it out; each leaves a list that represents the
  changed sequence.
\<close>

theorem list_position_operations:
  assumes "list_rep h l xs" and "n < length xs"
  shows "(\<exists>h' l'. list_add_in_index h l (int n) d = Some (h', l') \<and> list_rep h' l' (take n xs @ d # drop n xs)) \<and>
    (\<exists>h'. list_replace h l (int n) d = Some (xs ! n, h') \<and> list_rep h' l (xs[n := d])) \<and>
    (\<exists>h' l'. list_remove h l (int n) = Some (xs ! n, h', l') \<and> list_rep h' l' (take n xs @ drop (Suc n) xs))"
proof (intro conjI)
  obtain us a e vs where s: "heap_ok h" "list_at h l (us @ (a, e) # vs)" "length us = n"
    "xs = map snd us @ e # map snd vs" using assms by (rule list_at_nthE)
  obtain h' l' where "list_add_in_index h l (int n) d = Some (h', l')" "heap_ok h'"
    "list_at h' l' (us @ (brk h, d) # (a, e) # vs)"
    using list_add_in_index_at [OF s(1,2), of d] s(3) by auto
  moreover from this(2,3) have "list_rep h' l' (map snd (us @ (brk h, d) # (a, e) # vs))" by blast
  ultimately show "\<exists>h' l'. list_add_in_index h l (int n) d = Some (h', l') \<and> list_rep h' l' (take n xs @ d # drop n xs)"
    using s(3,4) by auto
  obtain h' where "list_replace h l (int n) d = Some (e, h')" "heap_ok h'" "list_at h' l (us @ (a, d) # vs)"
    using list_replace_at [OF s(1,2), of d] s(3) by auto
  moreover from this(2,3) have "list_rep h' l (map snd (us @ (a, d) # vs))" by blast
  ultimately show "\<exists>h'. list_replace h l (int n) d = Some (xs ! n, h') \<and> list_rep h' l (xs[n := d])"
    using s(3,4) by (auto simp: nth_append list_update_append)
  show "\<exists>h' l'. list_remove h l (int n) = Some (xs ! n, h', l') \<and> list_rep h' l' (take n xs @ drop (Suc n) xs)"
    using assms by (rule list_remove_rep)
qed

theorem list_position_operations_witness:
  "\<exists>h' l'. list_add_in_index demo_heap demo_list 1 (Some 8) = Some (h', l') \<and>
     list_rep h' l' [Some 7, Some 8, Some 9]"
  using list_position_operations [OF demo_rep, of 1 "Some 8"] by simp

text \<open>
  \<open>list_remove\<close> does not check its index: outside the bounds of a non-empty list it dereferences the null
  pointer that \<open>list_get_element\<close> returns; only on the empty list does it return null, for every
  index. \<open>list_get\<close> and \<open>list_replace\<close> return null out of bounds and change nothing.
\<close>

theorem list_out_of_bounds:
  assumes "list_rep h l xs" and "i < 0 \<or> int (length xs) \<le> i"
  shows "(list_remove h l i = (if xs = [] then Some (None, h, l) else None)) \<and>
    (list_get h l i = Some None) \<and>
    (list_replace h l i d = Some (None, h)) \<and>
    (list_add_in_index h l i d = Some (h, l))"
proof (intro conjI)
  obtain axs where a: "list_at h l axs" "xs = map snd axs" using assms(1) by (rule list_repE)
  with assms(2) have i: "i < 0 \<or> int (length axs) \<le> i" by simp
  note g = list_at_out_of_range [OF a(1) i]
  show "list_remove h l i = (if xs = [] then Some (None, h, l) else None)"
    using list_remove_out_of_range [OF a(1) i] a(2) by simp
  show "list_get h l i = Some None" "list_replace h l i d = Some (None, h)"
    using g by (simp_all add: list_get_def deref_data_def list_replace_def)
  show "list_add_in_index h l i d = Some (h, l)"
    using a(1) i by (auto simp: list_add_in_index_def list_at_def)
qed

theorem list_out_of_bounds_witness: "list_remove demo_heap demo_list 2 = None"
  using list_out_of_bounds [OF demo_rep, of 2] by simp

text \<open>
  \<open>list_find\<close> returns the first element with the condition (null when there is none),
  \<open>list_remove_by_condition\<close> takes exactly that element out, and \<open>list_clean\<close> ends and leaves the empty list.
\<close>

theorem list_search_operations:
  assumes "list_rep h l xs"
  shows "(list_find h l P = Some (case dropWhile (\<lambda>d. \<not> P d) xs of [] \<Rightarrow> None | d # _ \<Rightarrow> d)) \<and>
    (\<exists>h' l'. list_remove_by_condition h l P =
           Some (case dropWhile (\<lambda>d. \<not> P d) xs of [] \<Rightarrow> None | d # _ \<Rightarrow> d, h', l') \<and>
         list_rep h' l' (takeWhile (\<lambda>d. \<not> P d) xs @ tl (dropWhile (\<lambda>d. \<not> P d) xs))) \<and>
    (\<exists>h' l'. list_clean h l = Some (h', l') \<and> list_rep h' l' [] \<and> list_is_empty l')"
proof (intro conjI)
  obtain axs where a: "heap_ok h" "list_at h l axs" "xs = map snd axs" using assms by (rule list_repE)
  let ?Q = "\<lambda>ad. \<not> P (snd ad)"
  have c: "chain (cells h) (head l) axs None" "distinct (map fst axs)" using a(2) by (auto simp: list_at_def)
  note f = find_loop_chain [OF c(1), of P 0]
  have dw: "dropWhile (\<lambda>d. \<not> P d) xs = map snd (dropWhile ?Q axs)"
    "takeWhile (\<lambda>d. \<not> P d) xs = map snd (takeWhile ?Q axs)"
    by (simp_all add: a(3) dropWhile_map takeWhile_map comp_def)
  have "list_find h l P = Some (case dropWhile (\<lambda>d. \<not> P d) xs of [] \<Rightarrow> None | d # _ \<Rightarrow> d) \<and>
     (\<exists>h' l'. list_remove_by_condition h l P =
           Some (case dropWhile (\<lambda>d. \<not> P d) xs of [] \<Rightarrow> None | d # _ \<Rightarrow> d, h', l') \<and>
         list_rep h' l' (takeWhile (\<lambda>d. \<not> P d) xs @ tl (dropWhile (\<lambda>d. \<not> P d) xs)))"
  proof (cases "dropWhile ?Q axs")
    case Nil
    then have "takeWhile ?Q axs = axs" by (metis append_Nil2 takeWhile_dropWhile_id)
    then have "dropWhile (\<lambda>d. \<not> P d) xs = []" "takeWhile (\<lambda>d. \<not> P d) xs = xs"
      using Nil a(3) dw by (metis list.map(1))+
    then show ?thesis using Nil f assms
      by (simp add: list_find_def list_find_element_def deref_data_def list_remove_by_condition_def
          del: dropWhile_eq_Nil_conv takeWhile_eq_all_conv)
  next
    case (Cons ad vs)
    obtain b e where ad: "ad = (b, e)" by (cases ad)
    let ?us = "takeWhile ?Q axs"
    have s: "axs = ?us @ (b, e) # vs" by (metis Cons ad takeWhile_dropWhile_id)
    obtain h' l' where "list_remove h l (int (length ?us)) = Some (e, h', l')" "heap_ok h'" "list_at h' l' (?us @ vs)"
      using list_remove_at [of h l ?us b e vs] a(1,2) s by metis
    moreover from this(2,3) have "list_rep h' l' (map snd ?us @ map snd vs)" by auto
    ultimately show ?thesis using list_at_get_element(2) [of h l ?us b e vs] s a(2) f Cons ad
      by (simp add: dw list_find_def list_find_element_def deref_data_def list_remove_by_condition_def)
  qed
  then show "list_find h l P = Some (case dropWhile (\<lambda>d. \<not> P d) xs of [] \<Rightarrow> None | d # _ \<Rightarrow> d)"
    and "\<exists>h' l'. list_remove_by_condition h l P =
           Some (case dropWhile (\<lambda>d. \<not> P d) xs of [] \<Rightarrow> None | d # _ \<Rightarrow> d, h', l') \<and>
         list_rep h' l' (takeWhile (\<lambda>d. \<not> P d) xs @ tl (dropWhile (\<lambda>d. \<not> P d) xs))" by blast+
  show "\<exists>h' l'. list_clean h l = Some (h', l') \<and> list_rep h' l' [] \<and> list_is_empty l'"
    using clean_loop_chain [OF a(1) c] lst.create_rep
    by (auto simp: list_clean_def list_is_empty_def list_size_def list_create_def)
qed

theorem list_search_operations_witness: "list_find demo_heap demo_list (\<lambda>d. d = Some 9) = Some (Some 9)"
  using list_search_operations [OF demo_rep, of "\<lambda>d. d = Some 9"] by simp

text \<open>
  \<open>list_filter\<close> and \<open>list_map\<close> end, build a new list of the filtered and of the mapped
  sequence, and leave the list they read as it was.
\<close>

theorem list_transformers:
  assumes "list_rep h l xs"
  shows "(\<exists>h' l'. list_filter h l P = Some (h', l') \<and> list_rep h' l' (filter P xs) \<and> list_rep h' l xs) \<and>
    (\<exists>h' l'. list_map h l f = Some (h', l') \<and> list_rep h' l' (map f xs) \<and> list_rep h' l xs)"
proof (intro conjI)
  obtain axs where a: "heap_ok h" "list_at h l axs" "xs = map snd axs" using assms by (rule list_repE)
  have c: "chain (cells h) (head l) axs None" using a(2) by (auto simp: list_at_def)
  have it: "\<exists>h' l'. iterate_loop closure (head l) (h, list_create) = Some (h', l') \<and>
      list_rep h' l' (List.map_filter g xs) \<and> list_rep h' l xs"
    if "\<And>d st. closure d st = (case g d of None \<Rightarrow> Some st | Some x \<Rightarrow> add_closure x st)" for closure g
    using iterate_loop_add [OF that a(1) list_create_at c] a(3) list_at_keeps [OF _ a(1,2)]
    by (force simp: list_rep_def)
  have "List.map_filter (\<lambda>d. if P d then Some d else None) xs = filter P xs"
    by (induction xs) (simp_all add: map_filter_simps)
  moreover have "\<exists>h' l'. iterate_loop (\<lambda>d st. if P d then add_closure d st else Some st) (head l) (h, list_create) =
      Some (h', l') \<and> list_rep h' l' (List.map_filter (\<lambda>d. if P d then Some d else None) xs) \<and> list_rep h' l xs"
    by (rule it) simp
  ultimately show "\<exists>h' l'. list_filter h l P = Some (h', l') \<and> list_rep h' l' (filter P xs) \<and> list_rep h' l xs"
    by (simp add: list_filter_def list_iterate_def)
  have "List.map_filter (\<lambda>d. Some (f d)) xs = map f xs"
    by (induction xs) (simp_all add: map_filter_simps)
  then show "\<exists>h' l'. list_map h l f = Some (h', l') \<and> list_rep h' l' (map f xs) \<and> list_rep h' l xs"
    using it [of "\<lambda>d st. add_closure (f d) st" "\<lambda>d. Some (f d)"]
    by (simp add: list_map_def list_iterate_def)
qed

theorem list_transformers_witness:
  "\<exists>h' l'. list_filter demo_heap demo_list (\<lambda>d. d = Some 9) = Some (h', l') \<and> list_rep h' l' [Some 9] \<and>
     list_rep h' demo_list [Some 7, Some 9]"
  using list_transformers [OF demo_rep, of "\<lambda>d. d = Some 9"] by simp

text \<open>
  C37. The queue is first in, first out: from an empty queue, every trace of \<open>queue_push\<close>,
  \<open>queue_pop\<close>, \<open>queue_peek\<close> and \<open>queue_size\<close> runs without undefined behaviour and gives the answers of the
  trace on a sequence.
\<close>

theorem queue_refines_fifo:
  assumes "heap_ok h"
  shows "\<exists>h' q'. queue_run h queue_create ops = Some (fst (fifo_run [] ops), h', q') \<and>
     queue_rep h' q' (snd (fifo_run [] ops))"
  using queue_run_rep [of h queue_create "[]" ops] lst.create_rep [OF assms]
  by (simp add: queue_rep_def queue_create_def)

theorem queue_refines_fifo_witness:
  "\<exists>h' q'. queue_run demo_heap queue_create [Push (Some 1), Push (Some 2), Pop, Peek, Size] =
     Some ([Nothing, Nothing, Data (Some 1), Data (Some 2), Count 1], h', q')"
  using queue_refines_fifo [of demo_heap "[Push (Some 1), Push (Some 2), Pop, Peek, Size]"] demo_rep
  by (auto simp: list_rep_def)

end
