(* ===== verification/Dictionary.thy ===== *)
theory Dictionary
  imports Base
begin

unbundle bit_operations_syntax

text \<open>
  The hash table of \<open>commons/src/commons/collections/dictionary.c\<close>. A chain of \<open>t_hash_element\<close>
  hangs from one bucket and is reached from nowhere else, so that a bucket is the list of its
  elements in chain order; data pointers are \<open>'a option\<close> (\<open>None\<close> is null). Keys are compared by
  their 32-bit hash only, and \<open>dictionary_put\<close> never looks for the key: the table is a map
  from hashes to sequences of data, which is what \<open>dict_seq\<close> reads off it and what the locale
  \<open>hashed_store\<close> promises to the clients.
\<close>

section \<open>Data and operations\<close>

record 'a hash_element =
  key :: cstr
  hashcode :: u32
  data :: "'a option"

record 'a t_dictionary =
  elements :: "'a hash_element list list"
  table_max_size :: nat
  table_current_size :: int
  elements_amount :: int

definition DEFAULT_DICTIONARY_INITIAL_SIZE :: nat where
  "DEFAULT_DICTIONARY_INITIAL_SIZE = 20"

definition dictionary_create :: "'a t_dictionary" where
  "dictionary_create = \<lparr>elements = replicate DEFAULT_DICTIONARY_INITIAL_SIZE [],
     table_max_size = DEFAULT_DICTIONARY_INITIAL_SIZE, table_current_size = 0, elements_amount = 0\<rparr>"

fun hash_loop :: "cstr \<Rightarrow> u32 \<Rightarrow> u32" where
  "hash_loop [] hash = hash"
| "hash_loop (c # cs) hash =
     (let hash = hash + ucast c;
          hash = hash + push_bit 10 hash;
          hash = hash XOR drop_bit 6 hash
      in hash_loop cs hash)"

definition dictionary_hash :: "cstr \<Rightarrow> u32" where
  "dictionary_hash k =
     (let hash = hash_loop k 0;
          hash = hash + push_bit 3 hash;
          hash = hash XOR drop_bit 11 hash
      in hash + push_bit 15 hash)"

definition dictionary_create_element :: "cstr \<Rightarrow> u32 \<Rightarrow> 'a option \<Rightarrow> 'a hash_element" where
  "dictionary_create_element k h d = \<lparr>key = k, hashcode = h, data = d\<rparr>"

text \<open>The rehashing of one old chain: every element goes to the end of its new chain.\<close>

fun resize_chain :: "nat \<Rightarrow> 'a hash_element list \<Rightarrow> 'a hash_element list list \<times> int
    \<Rightarrow> 'a hash_element list list \<times> int" where
  "resize_chain n [] st = st"
| "resize_chain n (e # es) (new_table, current) =
     (let i = unat (hashcode e) mod n in
      resize_chain n es (new_table[i := new_table ! i @ [e]],
        if new_table ! i = [] then current + 1 else current))"

definition dictionary_resize :: "'a t_dictionary \<Rightarrow> nat \<Rightarrow> 'a t_dictionary" where
  "dictionary_resize self new_max_size =
     (let (new_table, current) =
        fold (resize_chain new_max_size) (take (table_max_size self) (elements self))
          (replicate new_max_size [], 0)
      in self\<lparr>elements := new_table, table_current_size := current, table_max_size := new_max_size\<rparr>)"

definition dictionary_put :: "'a t_dictionary \<Rightarrow> cstr \<Rightarrow> 'a option \<Rightarrow> 'a t_dictionary" where
  "dictionary_put self k d =
     (let key_hash = dictionary_hash k;
          index = unat key_hash mod table_max_size self;
          new_element = dictionary_create_element k key_hash d;
          chain = elements self ! index;
          self1 = self\<lparr>elements := (elements self)[index := chain @ [new_element]]\<rparr>;
          self2 =
            (if chain = []
             then let s = self1\<lparr>table_current_size := table_current_size self + 1\<rparr> in
               if table_current_size s \<ge> int (table_max_size s)
               then dictionary_resize s (table_max_size s * 2) else s
             else self1)
      in self2\<lparr>elements_amount := elements_amount self + 1\<rparr>)"

definition dictionary_get_element :: "'a t_dictionary \<Rightarrow> cstr \<Rightarrow> 'a hash_element option" where
  "dictionary_get_element self k =
     (let key_hash = dictionary_hash k;
          index = unat key_hash mod table_max_size self
      in List.find (\<lambda>e. hashcode e = key_hash) (elements self ! index))"

definition dictionary_get :: "'a t_dictionary \<Rightarrow> cstr \<Rightarrow> 'a option" where
  "dictionary_get self k =
     (case dictionary_get_element self k of Some e \<Rightarrow> data e | None \<Rightarrow> None)"

text \<open>Unlink the first element of the hash: the data and the rest of the chain.\<close>

fun unlink_hash :: "u32 \<Rightarrow> 'a hash_element list \<Rightarrow> ('a option \<times> 'a hash_element list) option" where
  "unlink_hash h [] = None"
| "unlink_hash h (e # es) =
     (if hashcode e = h then Some (data e, es)
      else map_option (\<lambda>(d, es'). (d, e # es')) (unlink_hash h es))"

definition dictionary_remove_element :: "'a t_dictionary \<Rightarrow> cstr \<Rightarrow> 'a option \<times> 'a t_dictionary" where
  "dictionary_remove_element self k =
     (let key_hash = dictionary_hash k;
          index = unat key_hash mod table_max_size self
      in case unlink_hash key_hash (elements self ! index) of
          None \<Rightarrow> (None, self)
        | Some (d, chain) \<Rightarrow>
            (d, self\<lparr>elements := (elements self)[index := chain],
                 table_current_size := (if chain = [] then table_current_size self - 1
                                        else table_current_size self)\<rparr>))"

definition dictionary_remove :: "'a t_dictionary \<Rightarrow> cstr \<Rightarrow> 'a option \<times> 'a t_dictionary" where
  "dictionary_remove self k =
     (let (d, self1) = dictionary_remove_element self k
      in (d, if d \<noteq> None then self1\<lparr>elements_amount := elements_amount self1 - 1\<rparr> else self1))"

text \<open>
  \<open>dictionary_iterator\<close> calls the closure on \<open>element\<close>, and \<open>element\<close> is never advanced: on a
  chain of one element the closure is called once, on a longer one for ever. The result is
  the state after the calls of the closure (which is given the key and the element).
\<close>

fun iterator_loop :: "(cstr \<Rightarrow> 'a hash_element \<Rightarrow> 's \<Rightarrow> 's) \<Rightarrow> 'a hash_element list list \<Rightarrow> 's \<Rightarrow> 's option" where
  "iterator_loop closure [] s = Some s"
| "iterator_loop closure (c # cs) s = (case c of
      [] \<Rightarrow> iterator_loop closure cs s
    | [e] \<Rightarrow> iterator_loop closure cs (closure (key e) e s)
    | _ # _ # _ \<Rightarrow> None)"

definition dictionary_iterator :: "'a t_dictionary \<Rightarrow> (cstr \<Rightarrow> 'a hash_element \<Rightarrow> 's \<Rightarrow> 's) \<Rightarrow> 's \<Rightarrow> 's option" where
  "dictionary_iterator self closure s = iterator_loop closure (take (table_max_size self) (elements self)) s"

text \<open>\<open>dictionary_clean\<close>: the second component is the data given to the destroyer, in order.\<close>

definition dictionary_clean :: "'a t_dictionary \<Rightarrow> 'a t_dictionary \<times> 'a option list" where
  "dictionary_clean self =
     (self\<lparr>elements := replicate (table_max_size self) [] @ drop (table_max_size self) (elements self),
        table_current_size := 0, elements_amount := 0\<rparr>,
      map data (concat (take (table_max_size self) (elements self))))"

definition dictionary_has_key :: "'a t_dictionary \<Rightarrow> cstr \<Rightarrow> bool" where
  "dictionary_has_key self k \<longleftrightarrow> dictionary_get_element self k \<noteq> None"

definition dictionary_is_empty :: "'a t_dictionary \<Rightarrow> bool" where
  "dictionary_is_empty self \<longleftrightarrow> elements_amount self = 0"

definition dictionary_size :: "'a t_dictionary \<Rightarrow> int" where
  "dictionary_size self = elements_amount self"

section \<open>Invariant and abstraction\<close>

text \<open>An element carries the hash of its key and hangs from the bucket of the hash.\<close>

definition placed :: "nat \<Rightarrow> nat \<Rightarrow> 'a hash_element \<Rightarrow> bool" where
  "placed n i e \<longleftrightarrow> hashcode e = dictionary_hash (key e) \<and> unat (hashcode e) mod n = i"

definition table_ok :: "nat \<Rightarrow> 'a hash_element list list \<Rightarrow> bool" where
  "table_ok n t \<longleftrightarrow> length t = n \<and> 0 < n \<and>
     (\<forall>i < n. \<forall>e \<in> set (t ! i). placed n i e)"

definition used :: "'a hash_element list list \<Rightarrow> nat" where
  "used t = length (filter (\<lambda>c. c \<noteq> []) t)"

definition total :: "'a hash_element list list \<Rightarrow> nat" where
  "total t = length (concat t)"

definition dict_ok :: "'a t_dictionary \<Rightarrow> bool" where
  "dict_ok d \<longleftrightarrow> table_ok (table_max_size d) (elements d) \<and>
     table_current_size d = int (used (elements d)) \<and> elements_amount d = int (total (elements d))"

text \<open>The data stored under a hash, oldest first.\<close>

definition chain_seq :: "u32 \<Rightarrow> 'a hash_element list \<Rightarrow> 'a option list" where
  "chain_seq h es = map data (filter (\<lambda>e. hashcode e = h) es)"

definition table_seq :: "'a hash_element list list \<Rightarrow> u32 \<Rightarrow> 'a option list" where
  "table_seq t h = chain_seq h (t ! (unat h mod length t))"

definition dict_seq :: "'a t_dictionary \<Rightarrow> u32 \<Rightarrow> 'a option list" where
  "dict_seq d h = chain_seq h (elements d ! (unat h mod table_max_size d))"

lemma chain_seq_simps [simp]:
  "chain_seq h [] = []"
  "chain_seq h (xs @ ys) = chain_seq h xs @ chain_seq h ys"
  "chain_seq h (e # es) = (if hashcode e = h then data e # chain_seq h es else chain_seq h es)"
  by (simp_all add: chain_seq_def)

lemma sum_list_update_change:
  "i < length xs \<Longrightarrow> int (sum_list (xs[i := v])) = int (sum_list xs) - int (xs ! i) + int (v :: nat)"
  by (induction xs arbitrary: i) (auto split: nat.split)

lemma total_update:
  "i < length t \<Longrightarrow> int (total (t[i := c])) = int (total t) - int (length (t ! i)) + int (length c)"
  using sum_list_update_change [of i "map length t" "length c"]
  by (simp add: total_def length_concat map_update)

lemma used_sum: "used t = sum_list (map (\<lambda>c. if c = [] then 0 else 1) t)"
  by (induction t) (auto simp: used_def)

lemma used_update:
  "i < length t \<Longrightarrow>
     int (used (t[i := c])) = int (used t) - (if t ! i = [] then 0 else 1) + (if c = [] then 0 else 1)"
  using sum_list_update_change [of i "map (\<lambda>c. if c = [] then 0 else 1) t" "if c = [] then 0 else 1"]
  by (simp add: used_sum map_update)

lemma table_okD [dest]:
  "table_ok n t \<Longrightarrow> length t = n" "table_ok n t \<Longrightarrow> 0 < n"
  by (simp_all add: table_ok_def)

lemma table_ok_chain: "table_ok n t \<Longrightarrow> i < n \<Longrightarrow> e \<in> set (t ! i) \<Longrightarrow> placed n i e"
  unfolding table_ok_def by blast

lemma table_ok_update:
  "table_ok n t \<Longrightarrow> i < n \<Longrightarrow> \<forall>e \<in> set c. placed n i e \<Longrightarrow> table_ok n (t[i := c])"
  by (auto simp: table_ok_def nth_list_update)

section \<open>Rehashing\<close>

lemma resize_chain_spec:
  assumes "length t = n" and "0 < n" and "resize_chain n es (t, int (used t)) = (t', c')"
  shows "length t' = n \<and> c' = int (used t') \<and> total t' = total t + length es \<and>
    (\<forall>j < n. t' ! j = t ! j @ filter (\<lambda>e. unat (hashcode e) mod n = j) es)"
  using assms
proof (induction es arbitrary: t)
  case (Cons e es)
  let ?i = "unat (hashcode e) mod n"
  let ?t = "t[?i := t ! ?i @ [e]]"
  have i: "?i < length t" using Cons.prems by simp
  have u: "(if t ! ?i = [] then int (used t) + 1 else int (used t)) = int (used ?t)"
    using used_update [OF i, of "t ! ?i @ [e]"] by auto
  have w: "total ?t = total t + 1" using total_update [OF i, of "t ! ?i @ [e]"] by simp
  have r: "resize_chain n es (?t, int (used ?t)) = (t', c')"
    using Cons.prems(3) u by (simp add: Let_def)
  show ?case using Cons.IH [OF _ Cons.prems(2) r] Cons.prems(1) w i
    by (auto simp: nth_list_update)
qed simp

lemma resize_fold_spec:
  assumes "length t = n" and "0 < n" and "fold (resize_chain n) cs (t, int (used t)) = (t', c')"
  shows "length t' = n \<and> c' = int (used t') \<and> total t' = total t + length (concat cs) \<and>
    (\<forall>j < n. t' ! j = t ! j @ filter (\<lambda>e. unat (hashcode e) mod n = j) (concat cs))"
  using assms
proof (induction cs arbitrary: t)
  case (Cons c cs)
  obtain t1 c1 where s1: "resize_chain n c (t, int (used t)) = (t1, c1)" by fastforce
  note p1 = resize_chain_spec [OF Cons.prems(1,2) s1]
  then have "fold (resize_chain n) cs (t1, int (used t1)) = (t', c')" using Cons.prems(3) s1 by simp
  from Cons.IH [OF _ Cons.prems(2) this] p1 show ?case by simp
qed simp

lemma used_replicate [simp]: "used (replicate n []) = 0" "total (replicate n []) = 0"
  by (simp_all add: used_def total_def)

text \<open>In a well-formed table only the chain of a hash holds elements of the hash.\<close>

lemma filter_hash_concat:
  assumes "table_ok n t"
  shows "filter (\<lambda>e. hashcode e = h) (concat t) = filter (\<lambda>e. hashcode e = h) (t ! (unat h mod n))"
proof -
  let ?i = "unat h mod n"
  let ?f = "filter (\<lambda>e. hashcode e = h)"
  have i: "?i < length t" using assms by (auto simp: table_ok_def)
  have "?f (t ! j) = []" if "j < length t" "j \<noteq> ?i" for j
    using that table_ok_chain [OF assms, of j] assms by (auto simp: filter_empty_conv table_ok_def placed_def)
  then have "\<forall>c \<in> set (take ?i t) \<union> set (drop (Suc ?i) t). ?f c = []"
    by (auto simp: in_set_conv_nth simp del: filter_empty_conv)
  then have "concat (map ?f (take ?i t)) = []" "concat (map ?f (drop (Suc ?i) t)) = []"
    by (auto simp del: filter_empty_conv)
  moreover have "t = take ?i t @ t ! ?i # drop (Suc ?i) t" using i by (rule id_take_nth_drop)
  then have "?f (concat t) = concat (map ?f (take ?i t)) @ ?f (t ! ?i) @ concat (map ?f (drop (Suc ?i) t))"
    by (metis concat.simps(2) concat_append filter_append filter_concat)
  ultimately show ?thesis by (simp only: append_Nil append_Nil2)
qed

lemma filter_hash_index:
  "filter (\<lambda>e. hashcode e = h) (filter (\<lambda>e. unat (hashcode e) mod n = unat h mod n) es) =
   filter (\<lambda>e. hashcode e = h) es"
  by (simp add: conj_commute cong: filter_cong) (metis (mono_tags, lifting))

lemma chain_seq_resized:
  "chain_seq h (filter (\<lambda>e. unat (hashcode e) mod n = unat h mod n) es) = chain_seq h es"
  by (simp only: chain_seq_def filter_hash_index)

text \<open>Rehashing keeps the order of the elements of each hash.\<close>

lemma dictionary_resize_ok:
  assumes t: "table_ok (table_max_size d) (elements d)" and n: "0 < n"
  shows "table_ok n (elements (dictionary_resize d n))"
    and "table_max_size (dictionary_resize d n) = n"
    and "table_current_size (dictionary_resize d n) = int (used (elements (dictionary_resize d n)))"
    and "total (elements (dictionary_resize d n)) = total (elements d)"
    and "dict_seq (dictionary_resize d n) h = dict_seq d h"
    and "elements_amount (dictionary_resize d n) = elements_amount d"
proof -
  have tk: "take (table_max_size d) (elements d) = elements d" using t by (auto simp: table_ok_def)
  obtain t' c' where f: "fold (resize_chain n) (elements d) (replicate n [], 0) = (t', c')" by fastforce
  then have "fold (resize_chain n) (elements d) (replicate n [], int (used (replicate n ([] :: 'a hash_element list)))) = (t', c')" by simp
  from resize_fold_spec [OF _ n this] have
    s: "length t' = n" "c' = int (used t')" "total t' = length (concat (elements d))"
    "\<And>j. j < n \<Longrightarrow> t' ! j = filter (\<lambda>e. unat (hashcode e) mod n = j) (concat (elements d))"
    by auto
  have r: "dictionary_resize d n = d\<lparr>elements := t', table_current_size := c', table_max_size := n\<rparr>"
    by (simp add: dictionary_resize_def tk f)
  have "hashcode e = dictionary_hash (key e)" if "e \<in> set (concat (elements d))" for e
  proof -
    from that obtain c where "c \<in> set (elements d)" "e \<in> set c" by auto
    then obtain i where "i < table_max_size d" "e \<in> set (elements d ! i)"
      using table_okD(1) [OF t] by (auto simp: in_set_conv_nth [of c])
    then show ?thesis using table_ok_chain [OF t] by (simp add: placed_def)
  qed
  then have "placed n j e" if "j < n" "e \<in> set (t' ! j)" for j e
    using that(2) unfolding s(4) [OF that(1)] placed_def by (auto simp del: set_concat)
  then show "table_ok n (elements (dictionary_resize d n))"
    using s(1) n by (simp add: r table_ok_def)
  show "table_max_size (dictionary_resize d n) = n"
    and "table_current_size (dictionary_resize d n) = int (used (elements (dictionary_resize d n)))"
    and "elements_amount (dictionary_resize d n) = elements_amount d" by (simp_all add: r s(2))
  show "total (elements (dictionary_resize d n)) = total (elements d)" 
    by (simp add: r s(3) total_def [of "elements d"])
  have "dict_seq (dictionary_resize d n) h = chain_seq h (concat (elements d))"
    using n by (simp add: dict_seq_def r s(4) chain_seq_resized)
  then show "dict_seq (dictionary_resize d n) h = dict_seq d h"
    using filter_hash_concat [OF t, of h] by (simp add: dict_seq_def chain_seq_def)
qed

section \<open>The operations on the abstraction\<close>

lemma dict_seq_upd:
  assumes "length (elements d) = table_max_size d" and "0 < table_max_size d"
    and "\<forall>h. h \<noteq> h0 \<longrightarrow> chain_seq h c = chain_seq h (elements d ! (unat h0 mod table_max_size d))"
  shows "dict_seq (d\<lparr>elements := (elements d)[unat h0 mod table_max_size d := c]\<rparr>) h =
    (if h = h0 then chain_seq h c else dict_seq d h)"
  using assms by (auto simp: dict_seq_def nth_list_update)

lemma dict_seq_cong [simp]:
  "dict_seq (d\<lparr>table_current_size := x\<rparr>) = dict_seq d" "dict_seq (d\<lparr>elements_amount := y\<rparr>) = dict_seq d"
  by (simp_all add: dict_seq_def fun_eq_iff)

lemma dict_okD:
  assumes "dict_ok d"
  shows "table_ok (table_max_size d) (elements d)" "length (elements d) = table_max_size d" "0 < table_max_size d"
    "table_current_size d = int (used (elements d))" "elements_amount d = int (total (elements d))"
  using assms by (auto simp: dict_ok_def)

lemma dict_ok_grow:
  assumes "table_ok (table_max_size d) (elements d)" and "table_current_size d = int (used (elements d))"
    and "elements_amount d + 1 = int (total (elements d))"
  shows "dict_ok (d\<lparr>elements_amount := elements_amount d + 1\<rparr>)"
    and "dict_ok ((dictionary_resize d (table_max_size d * 2))\<lparr>elements_amount := elements_amount d + 1\<rparr>)"
  using assms dictionary_resize_ok [OF assms(1), of "table_max_size d * 2"] by (auto simp: dict_ok_def)

lemma dictionary_put_ok:
  assumes d: "dict_ok d"
  shows "dict_ok (dictionary_put d k v)"
    and "dict_seq (dictionary_put d k v) h = (if h = dictionary_hash k then dict_seq d h @ [v] else dict_seq d h)"
proof -
  note D = dict_okD [OF d]
  define e where "e = \<lparr>key = k, hashcode = dictionary_hash k, data = v\<rparr>"
  define i where "i = unat (dictionary_hash k) mod table_max_size d"
  define c where "c = elements d ! i @ [e]"
  define d1 where "d1 = d\<lparr>elements := (elements d)[i := c]\<rparr>"
  define d2 where "d2 = d1\<lparr>table_current_size := table_current_size d + 1\<rparr>"
  have i: "i < table_max_size d" "i < length (elements d)" using D by (simp_all add: i_def)
  have "placed (table_max_size d) i e" by (simp add: placed_def e_def i_def)
  then have t: "table_ok (table_max_size d) ((elements d)[i := c])"
    using table_ok_update [OF D(1) i(1), of c] table_ok_chain [OF D(1) i(1)] by (auto simp: c_def)
  have u: "int (used ((elements d)[i := c])) = table_current_size d + (if elements d ! i = [] then 1 else 0)"
    using used_update [OF i(2), of c] D(4) by (simp add: c_def)
  have w: "int (total ((elements d)[i := c])) = elements_amount d + 1"
    using total_update [OF i(2), of c] D(5) by (simp add: c_def)
  have q: "dict_seq d1 h = (if h = dictionary_hash k then dict_seq d h @ [v] else dict_seq d h)" for h
    unfolding d1_def i_def by (subst dict_seq_upd) (use D in \<open>auto simp: dict_seq_def c_def e_def i_def\<close>)
  have put: "dictionary_put d k v = (if elements d ! i = []
     then (if int (table_max_size d) \<le> table_current_size d + 1 then dictionary_resize d2 (table_max_size d2 * 2) else d2)
     else d1)\<lparr>elements_amount := elements_amount d + 1\<rparr>"
    by (simp add: dictionary_put_def dictionary_create_element_def Let_def d1_def d2_def c_def e_def i_def)
  have "table_ok (table_max_size d2) (elements d2)" using t by (simp add: d1_def d2_def)
  note R = dictionary_resize_ok(5) [OF this, of "table_max_size d2 * 2"]
  show "dict_ok (dictionary_put d k v)"
    using dict_ok_grow [of d1] dict_ok_grow [of d2] t u w by (auto simp: put d1_def d2_def)
  have "dict_seq d2 = dict_seq d1" by (simp add: d2_def)
  moreover have "table_max_size d2 = table_max_size d" by (simp add: d1_def d2_def)
  ultimately show "dict_seq (dictionary_put d k v) h = (if h = dictionary_hash k then dict_seq d h @ [v] else dict_seq d h)"
    using R D(3) q by (simp add: put)
qed

lemma find_hash:
  "map_option data (List.find (\<lambda>e. hashcode e = h) es) = (case chain_seq h es of [] \<Rightarrow> None | x # _ \<Rightarrow> Some x)"
  by (induction es) auto

lemma dictionary_get_seq:
  "dictionary_get d k = (case dict_seq d (dictionary_hash k) of [] \<Rightarrow> None | x # _ \<Rightarrow> x)"
  "dictionary_has_key d k \<longleftrightarrow> dict_seq d (dictionary_hash k) \<noteq> []"
  using find_hash [of "dictionary_hash k" "elements d ! (unat (dictionary_hash k) mod table_max_size d)"]
  by (auto simp: dictionary_get_def dictionary_has_key_def dictionary_get_element_def Let_def dict_seq_def
      split: option.splits list.splits)

lemma unlink_hash_None: "unlink_hash h es = None \<longleftrightarrow> chain_seq h es = []"
  by (induction es) auto

lemma unlink_hash_Some:
  "unlink_hash h es = Some (d, es') \<Longrightarrow> chain_seq h es = d # chain_seq h es' \<and> length es = length es' + 1 \<and>
     set es' \<subseteq> set es \<and> (\<forall>h'. h' \<noteq> h \<longrightarrow> chain_seq h' es' = chain_seq h' es)"
  by (induction es arbitrary: es') (auto split: if_splits)

lemma dictionary_remove_ok:
  assumes d: "dict_ok d" and nn: "None \<notin> set (dict_seq d (dictionary_hash k))"
  shows "fst (dictionary_remove d k) = dictionary_get d k"
    and "dict_ok (snd (dictionary_remove d k))"
    and "dict_seq (snd (dictionary_remove d k)) h =
      (if h = dictionary_hash k then tl (dict_seq d h) else dict_seq d h)"
proof -
  note D = dict_okD [OF d]
  define i where "i = unat (dictionary_hash k) mod table_max_size d"
  have i: "i < table_max_size d" "i < length (elements d)" using D by (simp_all add: i_def)
  have sq: "dict_seq d (dictionary_hash k) = chain_seq (dictionary_hash k) (elements d ! i)"
    by (simp add: dict_seq_def i_def)
  have "fst (dictionary_remove d k) = dictionary_get d k \<and> dict_ok (snd (dictionary_remove d k)) \<and>
    (\<forall>h. dict_seq (snd (dictionary_remove d k)) h = (if h = dictionary_hash k then tl (dict_seq d h) else dict_seq d h))"
  proof (cases "unlink_hash (dictionary_hash k) (elements d ! i)")
    case None
    then have "dict_seq d (dictionary_hash k) = []" using unlink_hash_None sq by metis
    then show ?thesis using None d
      by (auto simp: dictionary_remove_def dictionary_remove_element_def Let_def i_def dictionary_get_seq)
  next
    case (Some r)
    obtain v c where r: "unlink_hash (dictionary_hash k) (elements d ! i) = Some (v, c)" using Some by (cases r) auto
    note U = unlink_hash_Some [OF r]
    have "v \<in> set (dict_seq d (dictionary_hash k))" using U sq by simp
    then have "v \<noteq> None" using nn by metis
    then obtain x where v: "v = Some x" by blast
    define d1 where "d1 = d\<lparr>elements := (elements d)[i := c]\<rparr>"
    have rem: "dictionary_remove d k = (v, d1\<lparr>table_current_size := (if c = [] then table_current_size d - 1
        else table_current_size d), elements_amount := elements_amount d - 1\<rparr>)"
      using r v by (simp add: dictionary_remove_def dictionary_remove_element_def Let_def i_def d1_def)
    have t: "table_ok (table_max_size d) ((elements d)[i := c])"
      using table_ok_update [OF D(1) i(1), of c] table_ok_chain [OF D(1) i(1)] U by blast
    have u: "int (used ((elements d)[i := c])) = table_current_size d - (if c = [] then 1 else 0)"
      using used_update [OF i(2), of c] D(4) U by auto
    have w: "int (total ((elements d)[i := c])) = elements_amount d - 1"
      using total_update [OF i(2), of c] D(5) U by simp
    have "dict_seq d1 h = (if h = dictionary_hash k then chain_seq h c else dict_seq d h)" for h
      unfolding d1_def i_def by (rule dict_seq_upd) (use D(2,3) U in \<open>simp_all add: i_def\<close>)
    moreover have "chain_seq (dictionary_hash k) c = tl (dict_seq d (dictionary_hash k))" using U sq by simp
    moreover have "dictionary_get d k = v" using U sq by (simp add: dictionary_get_seq)
    ultimately show ?thesis using t u w by (simp add: rem dict_ok_def d1_def)
  qed
  then show "fst (dictionary_remove d k) = dictionary_get d k" "dict_ok (snd (dictionary_remove d k))"
    "dict_seq (snd (dictionary_remove d k)) h = (if h = dictionary_hash k then tl (dict_seq d h) else dict_seq d h)"
    by blast+
qed

section \<open>The interface\<close>

text \<open>
  What \<open>config.c\<close> can rely on: per hash, \<open>put\<close> appends, \<open>get\<close> reads the oldest,
  \<open>remove\<close> takes the oldest.
\<close>

locale hashed_store =
  fixes inv :: "'d \<Rightarrow> bool"
    and seq :: "'d \<Rightarrow> 'h \<Rightarrow> 'a option list"
    and hash :: "'k \<Rightarrow> 'h"
    and empty :: 'd
    and put :: "'d \<Rightarrow> 'k \<Rightarrow> 'a option \<Rightarrow> 'd"
    and get :: "'d \<Rightarrow> 'k \<Rightarrow> 'a option"
    and count :: "'d \<Rightarrow> int"
  assumes empty_inv: "inv empty"
    and empty_seq: "seq empty h = []"
    and empty_count: "count empty = 0"
    and put_inv: "inv d \<Longrightarrow> inv (put d k v)"
    and put_seq: "inv d \<Longrightarrow> seq (put d k v) h = (if h = hash k then seq d h @ [v] else seq d h)"
    and put_count: "count (put d k v) = count d + 1"
    and get_seq: "inv d \<Longrightarrow> get d k = (case seq d (hash k) of [] \<Rightarrow> None | x # _ \<Rightarrow> x)"
begin

lemma put_all_inv: "inv d \<Longrightarrow> inv (fold (\<lambda>(k, v) d. put d k v) kvs d)"
  by (induction kvs arbitrary: d) (auto simp: put_inv)

lemma put_all_count: "count (fold (\<lambda>(k, v) d. put d k v) kvs d) = count d + int (length kvs)"
  by (induction kvs arbitrary: d) (auto simp: put_count)

lemma put_all_seq:
  "inv d \<Longrightarrow> seq (fold (\<lambda>(k, v) d. put d k v) kvs d) h = seq d h @ map snd (filter (\<lambda>(k, v). hash k = h) kvs)"
  by (induction kvs arbitrary: d) (auto simp: put_inv put_seq)

text \<open>The first put of a hash wins.\<close>

lemma get_put_all:
  "get (fold (\<lambda>(k, v) d. put d k v) kvs empty) k =
     (case filter (\<lambda>(k', v). hash k' = hash k) kvs of [] \<Rightarrow> None | kv # _ \<Rightarrow> snd kv)"
  by (simp add: get_seq put_all_inv put_all_seq empty_inv empty_seq split: list.split)

text \<open>Keys with different hashes behave as in a map where the first binding stays.\<close>

lemma get_put_all_map:
  assumes "\<forall>k' \<in> fst ` set kvs. hash k' = hash k \<longrightarrow> k' = k"
  shows "get (fold (\<lambda>(k, v) d. put d k v) kvs empty) k = (case map_of kvs k of None \<Rightarrow> None | Some v \<Rightarrow> v)"
proof -
  have "(case filter (\<lambda>(k', v). hash k' = hash k) kvs of [] \<Rightarrow> None | kv # _ \<Rightarrow> snd kv) =
     (case map_of kvs k of None \<Rightarrow> None | Some v \<Rightarrow> v)"
    using assms
  proof (induction kvs)
    case (Cons kv kvs)
    show ?case
    proof (cases "fst kv = k")
      case True
      then show ?thesis by (cases kv) simp
    next
      case False
      then have "hash (fst kv) \<noteq> hash k" using Cons.prems by auto
      then show ?thesis using False Cons by (cases kv) simp
    qed
  qed simp
  then show ?thesis by (simp add: get_put_all)
qed

end

lemma dictionary_put_amount [simp]: "elements_amount (dictionary_put d k v) = elements_amount d + 1"
  by (simp add: dictionary_put_def Let_def)

lemma dictionary_create_ok: "dict_ok dictionary_create" "dict_seq dictionary_create h = []"
proof -
  have "(20 :: nat) > 0" by simp
  then have "unat h mod 20 < 20" by (rule mod_less_divisor)
  then show "dict_seq dictionary_create h = []"
    by (simp add: dict_seq_def dictionary_create_def DEFAULT_DICTIONARY_INITIAL_SIZE_def del: replicate.simps)
qed (simp add: dict_ok_def dictionary_create_def DEFAULT_DICTIONARY_INITIAL_SIZE_def table_ok_def del: replicate.simps)

interpretation dict: hashed_store dict_ok dict_seq dictionary_hash dictionary_create dictionary_put
  dictionary_get dictionary_size
  by unfold_locales
    (simp_all add: dictionary_create_ok dictionary_put_ok dictionary_get_seq dictionary_size_def
      dictionary_create_def [THEN arg_cong [where f = elements_amount]])

section \<open>Properties\<close>

text \<open>
  C39. Every operation keeps the table well formed (each element in the bucket of the hash of
  its key, \<open>table_current_size\<close> the number of used buckets, \<open>elements_amount\<close> the number of elements)
  and acts per hash, also when \<open>dictionary_put\<close> doubles the table: put appends
  the data, get reads the oldest, remove returns it and takes it out (for non-null data).
\<close>

theorem dictionary_operations:
  assumes "dict_ok d"
  shows "dict_ok (dictionary_put d k v) \<and>
    dict_seq (dictionary_put d k v) = (dict_seq d)(dictionary_hash k := dict_seq d (dictionary_hash k) @ [v]) \<and>
    dictionary_get d k = (case dict_seq d (dictionary_hash k) of [] \<Rightarrow> None | x # _ \<Rightarrow> x) \<and>
    (None \<notin> set (dict_seq d (dictionary_hash k)) \<longrightarrow>
       fst (dictionary_remove d k) = dictionary_get d k \<and> dict_ok (snd (dictionary_remove d k)) \<and>
       dict_seq (snd (dictionary_remove d k)) = (dict_seq d)(dictionary_hash k := tl (dict_seq d (dictionary_hash k))))"
  using dictionary_put_ok [OF assms] dictionary_remove_ok [OF assms] dictionary_get_seq(1) [of d]
  by (auto simp: fun_eq_iff)

theorem dictionary_operations_witness:
  "dict_seq (dictionary_put dictionary_create (str ''Puerto'') (Some (3 :: nat)))
     (dictionary_hash (str ''Puerto'')) = [Some 3]"
  using conjunct1 [OF conjunct2 [OF dictionary_operations [OF dictionary_create_ok(1), of "str ''Puerto''" "Some (3 :: nat)"]]]
  by (simp add: dictionary_create_ok)

text \<open>
  After any sequence of puts into a new dictionary, a key whose hash no other key shares
  reads the value it was first put with: a later put of the same key is
  stored, counted by \<open>dictionary_size\<close> and never seen.
\<close>

theorem dictionary_first_put_wins:
  assumes "\<forall>k' \<in> fst ` set kvs. dictionary_hash k' = dictionary_hash k \<longrightarrow> k' = k"
  shows "dictionary_get (fold (\<lambda>(k, v) d. dictionary_put d k v) kvs dictionary_create) k =
      (case map_of kvs k of None \<Rightarrow> None | Some v \<Rightarrow> v) \<and>
    dictionary_size (fold (\<lambda>(k, v) d. dictionary_put d k v) kvs dictionary_create) = int (length kvs)"
  using dict.get_put_all_map [OF assms] dict.put_all_count [of kvs dictionary_create]
  by (simp add: dict.empty_count)

theorem dictionary_first_put_wins_witness:
  "dictionary_get (fold (\<lambda>(k, v) d. dictionary_put d k v)
     [(str ''k'', Some (1 :: nat)), (str ''k'', Some 2)] dictionary_create) (str ''k'') = Some 1"
  using dictionary_first_put_wins [of "[(str ''k'', Some (1 :: nat)), (str ''k'', Some 2)]" "str ''k''"]
  by simp

text \<open>
  \<open>dictionary_iterator\<close> returns exactly when no chain of the table has two elements: it never
  advances \<open>element\<close>, so the first collision makes it call the closure for ever.
\<close>

theorem dictionary_iterator_returns_iff:
  "(\<exists>s'. dictionary_iterator d closure s = Some s') \<longleftrightarrow>
     list_all (\<lambda>c. length c \<le> 1) (take (table_max_size d) (elements d))"
proof -
  have "(\<exists>s'. iterator_loop closure cs s = Some s') \<longleftrightarrow> (\<forall>c \<in> set cs. length c \<le> 1)" for cs
    by (induction cs arbitrary: s) (auto split: list.split)
  then show ?thesis by (simp add: dictionary_iterator_def list_all_iff)
qed

end
