(* ===== verification/Opened.thy ===== *)
theory Opened
  imports CList Dictionary CString
begin

text \<open>
  The tables of open files of the server, \<open>rfs/src/administracion.c\<close>: the list of open files with a count of
  opens, and the dictionary from client ids to the list of inode numbers the client has open. The lists are
  those of \<open>CList\<close> on a heap, the dictionary that of \<open>Dictionary\<close> with decimal client ids as keys. A
  struct on the C heap is an address and its contents; \<open>free\<close> removes it. Mutexes and read-write locks are
  left out: each operation runs alone.
\<close>

section \<open>State\<close>

record archivo_abierto =
  numero_inodo :: u32
  cantidad_abiertos :: int

record admin =
  lista :: "nat lheap"
  archivos_abiertos :: t_list
  nodos :: "nat \<rightharpoonup> archivo_abierto"
  nodos_brk :: nat
  copias :: "u32 lheap"
  clientes :: "nat \<rightharpoonup> t_list"
  clientes_brk :: nat
  archivos_por_cliente :: "nat t_dictionary"

section \<open>Open files\<close>

text \<open>The search loop: from the element on, the node with the inode number; null at the end of the list.\<close>

partial_function (option) buscar_nodo :: "admin \<Rightarrow> u32 \<Rightarrow> nat option \<Rightarrow> nat option option" where
  [code]: "buscar_nodo st numero element = (case element of
      None \<Rightarrow> Some None
    | Some a \<Rightarrow>
        Option.bind (cells (lista st) a) (\<lambda>e.
        Option.bind (el_data e) (\<lambda>p.
        Option.bind (nodos st p) (\<lambda>n.
        if numero_inodo n \<noteq> numero then buscar_nodo st numero (el_next e) else Some (Some p)))))"

definition obtener_o_crear_archivo_abierto :: "admin \<Rightarrow> u32 \<Rightarrow> (nat \<times> admin) option" where
  "obtener_o_crear_archivo_abierto st numero = do {
     r \<leftarrow> buscar_nodo st numero (head (archivos_abiertos st));
     (case r of
        Some p \<Rightarrow> Some (p, st)
      | None \<Rightarrow> do {
          let p = nodos_brk st;
          let st1 = st\<lparr>nodos := (nodos st)(p \<mapsto> \<lparr>numero_inodo = numero, cantidad_abiertos = 0\<rparr>), nodos_brk := p + 1\<rparr>;
          (_, h, l) \<leftarrow> list_add (lista st1) (archivos_abiertos st1) (Some p);
          Some (p, st1\<lparr>lista := h, archivos_abiertos := l\<rparr>) }) }"

definition INT_MAX :: int where "INT_MAX = 2 ^ 31 - 1"

text \<open>The increment overflows at \<open>INT_MAX\<close>, as a comment of the code admits.\<close>

definition registrar_apertura :: "admin \<Rightarrow> nat \<Rightarrow> admin option" where
  "registrar_apertura st p = do {
     n \<leftarrow> nodos st p;
     ensure (cantidad_abiertos n < INT_MAX);
     Some (st\<lparr>nodos := (nodos st)(p \<mapsto> n\<lparr>cantidad_abiertos := cantidad_abiertos n + 1\<rparr>)\<rparr>) }"

text \<open>The removal loop, \<open>k\<close> elements to go.\<close>

fun cierre_loop :: "admin \<Rightarrow> nat \<Rightarrow> nat \<Rightarrow> int \<Rightarrow> nat option \<Rightarrow> admin option" where
  "cierre_loop st p 0 index element = Some st"
| "cierre_loop st p (Suc k) index element = do {
     a \<leftarrow> element;
     e \<leftarrow> cells (lista st) a;
     (if el_data e = Some p
      then do {
        (r, h, l) \<leftarrow> list_remove (lista st) (archivos_abiertos st) index;
        q \<leftarrow> r;
        Some (st\<lparr>lista := h, archivos_abiertos := l, nodos := (nodos st)(q := None)\<rparr>) }
      else cierre_loop st p k (index + 1) (el_next e)) }"

definition registrar_cierre :: "admin \<Rightarrow> nat \<Rightarrow> admin option" where
  "registrar_cierre st p = do {
     n \<leftarrow> nodos st p;
     (if cantidad_abiertos n > 0
      then do {
        let st1 = st\<lparr>nodos := (nodos st)(p \<mapsto> n\<lparr>cantidad_abiertos := cantidad_abiertos n - 1\<rparr>)\<rparr>;
        (if cantidad_abiertos n - 1 = 0
         then cierre_loop st1 p (nat (elements_count (archivos_abiertos st1))) 0 (head (archivos_abiertos st1))
         else Some st1) }
      else Some st) }"

section \<open>Files of a client\<close>

definition obtener_o_crear_lista_del_cliente :: "admin \<Rightarrow> u32 \<Rightarrow> (nat \<times> admin) option" where
  "obtener_o_crear_lista_del_cliente st client_id =
     (let str_client_id = string_from_uint32 client_id in
      case dictionary_get (archivos_por_cliente st) str_client_id of
        Some c \<Rightarrow> Some (c, st)
      | None \<Rightarrow> (let c = clientes_brk st in
          Some (c, st\<lparr>clientes := (clientes st)(c \<mapsto> list_create), clientes_brk := c + 1,
                  archivos_por_cliente := dictionary_put (archivos_por_cliente st) str_client_id (Some c)\<rparr>)))"

definition registrar_apertura_cliente :: "admin \<Rightarrow> nat \<Rightarrow> u32 \<Rightarrow> admin option" where
  "registrar_apertura_cliente st c numero = do {
     l \<leftarrow> clientes st c;
     (_, h, l') \<leftarrow> list_add (copias st) l (Some numero);
     Some (st\<lparr>copias := h, clientes := (clientes st)(c \<mapsto> l')\<rparr>) }"

text \<open>
  The loop of \<open>registrar_cierre_cliente\<close>: after a removal it goes on with the element that \<open>list_remove\<close> has
  freed, which is undefined as soon as the element is looked at again.
\<close>

partial_function (option) cierre_cliente_loop ::
    "u32 \<Rightarrow> u32 lheap \<Rightarrow> t_list \<Rightarrow> int \<Rightarrow> nat option \<Rightarrow> (u32 lheap \<times> t_list) option" where
  [code]: "cierre_cliente_loop numero h l index element =
     (if index < elements_count l
      then Option.bind element (\<lambda>a.
        Option.bind (cells h a) (\<lambda>e.
        Option.bind (el_data e) (\<lambda>v.
        if v = numero
        then Option.bind (list_remove h l index) (\<lambda>(_, h', l'). cierre_cliente_loop numero h' l' (index + 1) element)
        else cierre_cliente_loop numero h l (index + 1) (el_next e))))
      else Some (h, l))"

definition registrar_cierre_cliente :: "admin \<Rightarrow> u32 \<Rightarrow> u32 \<Rightarrow> admin option" where
  "registrar_cierre_cliente st client_id numero = do {
     let str_client_id = string_from_uint32 client_id;
     c \<leftarrow> dictionary_get (archivos_por_cliente st) str_client_id;
     l \<leftarrow> clientes st c;
     (h, l') \<leftarrow> cierre_cliente_loop numero (copias st) l 0 (head l);
     let st1 = st\<lparr>copias := h, clientes := (clientes st)(c \<mapsto> l')\<rparr>;
     (if elements_count l' < 1
      then do {
        let (r, dict) = dictionary_remove (archivos_por_cliente st1) str_client_id;
        c2 \<leftarrow> r;
        l2 \<leftarrow> clientes st1 c2;
        (h2, _) \<leftarrow> list_clean (copias st1) l2;
        Some (st1\<lparr>copias := h2, clientes := (clientes st1)(c2 := None), archivos_por_cliente := dict\<rparr>) }
      else Some st1) }"

definition inicializar_administracion :: admin where
  "inicializar_administracion = \<lparr>lista = \<lparr>cells = Map.empty, brk = 0\<rparr>, archivos_abiertos = list_create,
     nodos = Map.empty, nodos_brk = 0, copias = \<lparr>cells = Map.empty, brk = 0\<rparr>, clientes = Map.empty, clientes_brk = 0,
     archivos_por_cliente = dictionary_create\<rparr>"

section \<open>Counts of open files\<close>

text \<open>
  The abstract state: how many times each inode is open. \<open>table_rep st ps ns\<close>: the list holds the nodes at the
  addresses \<open>ps\<close> with the contents \<open>ns\<close>, one per inode.
\<close>

definition table_rep :: "admin \<Rightarrow> nat list \<Rightarrow> archivo_abierto list \<Rightarrow> bool" where
  "table_rep st ps ns \<longleftrightarrow> list_rep (lista st) (archivos_abiertos st) (map Some ps) \<and> distinct ps \<and>
     (\<forall>p \<in> set ps. p < nodos_brk st) \<and> map (nodos st) ps = map Some ns \<and> distinct (map numero_inodo ns) \<and>
     (\<forall>n \<in> set ns. 0 \<le> cantidad_abiertos n)"

definition cuenta :: "archivo_abierto list \<Rightarrow> u32 \<Rightarrow> int" where
  "cuenta ns m = sum_list (map (\<lambda>n. if numero_inodo n = m then cantidad_abiertos n else 0) ns)"

definition open_rep :: "admin \<Rightarrow> (u32 \<Rightarrow> int) \<Rightarrow> bool" where
  "open_rep st f \<longleftrightarrow> (\<exists>ps ns. table_rep st ps ns \<and> f = cuenta ns)"

lemma open_repI: "table_rep st ps ns \<Longrightarrow> cuenta ns = f \<Longrightarrow> open_rep st f"
  by (auto simp: open_rep_def)

lemma cuenta_append: "cuenta (ns @ ms) m = cuenta ns m + cuenta ms m"
  by (simp add: cuenta_def)

lemma cuenta_absent: "m \<notin> numero_inodo ` set ns \<Longrightarrow> cuenta ns m = 0"
  by (induction ns) (auto simp: cuenta_def)

lemma cuenta_Cons: "cuenta (n # ns) m = (if numero_inodo n = m then cantidad_abiertos n else 0) + cuenta ns m"
  by (simp add: cuenta_def)

lemma cuenta_nonneg: "\<forall>n \<in> set ns. 0 \<le> cantidad_abiertos n \<Longrightarrow> 0 \<le> cuenta ns m"
  by (induction ns) (auto simp: cuenta_def)

lemma buscar_nodo_chain:
  "chain (cells (lista st)) el axs None \<Longrightarrow> map snd axs = map Some ps \<Longrightarrow> map (nodos st) ps = map Some ns \<Longrightarrow>
    buscar_nodo st m el = Some (map_option fst (find (\<lambda>pn. numero_inodo (snd pn) = m) (zip ps ns)))"
proof (induction axs arbitrary: el ps ns)
  case Nil
  then show ?case by (subst buscar_nodo.simps) simp
next
  case (Cons ax axs)
  then obtain a p qs n ms where s: "ax = (a, Some p)" "ps = p # qs" "ns = n # ms" by (cases ax; cases ps; cases ns) auto
  then obtain nx where "cells (lista st) a = Some \<lparr>el_data = Some p, el_next = nx\<rparr>" "chain (cells (lista st)) nx axs None"
    "el = Some a" using Cons.prems(1) by auto
  then show ?case using Cons.IH [of nx qs ms] Cons.prems s by (subst buscar_nodo.simps) simp
qed

lemma find_append: "find P (xs @ ys) = (case find P xs of None \<Rightarrow> find P ys | Some x \<Rightarrow> Some x)"
  by (induction xs) auto

text \<open>Where the node of an inode is, and what is around it.\<close>

lemma table_node:
  assumes "table_rep st ps ns" and "m \<in> numero_inodo ` set ns"
  obtains us p vs as n bs where "ps = us @ p # vs" "ns = as @ n # bs" "length us = length as" "length vs = length bs"
    "numero_inodo n = m" "m \<notin> numero_inodo ` set (as @ bs)" "nodos st p = Some n" "p \<notin> set (us @ vs)"
    "obtener_o_crear_archivo_abierto st m = Some (p, st)"
proof -
  note T = assms(1) [unfolded table_rep_def]
  have len: "length ps = length ns" using T by (metis length_map)
  obtain n where n: "n \<in> set ns" "numero_inodo n = m" using assms(2) by auto
  then obtain as bs where ns: "ns = as @ n # bs" by (meson split_list)
  let ?i = "length as"
  define us p vs where "us = take ?i ps" and "p = ps ! ?i" and "vs = drop (Suc ?i) ps"
  have i: "?i < length ps" using ns len by simp
  then have ps: "ps = us @ p # vs" by (simp add: us_def p_def vs_def id_take_nth_drop)
  have lu: "length us = ?i" "length vs = length bs" using i len ns by (simp_all add: us_def vs_def)
  have mp: "map (nodos st) us = map Some as" "nodos st p = Some n"
    using T ps ns lu by (auto simp: append_eq_append_conv)
  have d: "m \<notin> numero_inodo ` set (as @ bs)" using T ns n(2) by auto
  have "find (\<lambda>pn. numero_inodo (snd pn) = m) (zip us as) = None"
    using d by (auto simp: find_None_iff dest: set_zip_rightD)
  then have f: "find (\<lambda>pn. numero_inodo (snd pn) = m) (zip ps ns) = Some (p, n)"
    using ps ns lu n(2) by (simp add: find_append)
  obtain axs where "list_at (lista st) (archivos_abiertos st) axs" "map Some ps = map snd axs"
    using T by (auto elim: list_repE)
  then have "buscar_nodo st m (head (archivos_abiertos st)) = Some (Some p)"
    using buscar_nodo_chain [of st "head (archivos_abiertos st)" axs ps ns m] T f by (simp add: list_at_def)
  then show thesis using that [OF ps ns lu(1,2) n(2) d mp(2)] T ps
    by (auto simp: obtener_o_crear_archivo_abierto_def)
qed

lemma table_new:
  assumes "table_rep st ps ns" and "m \<notin> numero_inodo ` set ns"
  shows "\<exists>st'. obtener_o_crear_archivo_abierto st m = Some (nodos_brk st, st') \<and>
    table_rep st' (ps @ [nodos_brk st]) (ns @ [\<lparr>numero_inodo = m, cantidad_abiertos = 0\<rparr>])"
proof -
  note T = assms(1) [unfolded table_rep_def]
  have "find (\<lambda>pn. numero_inodo (snd pn) = m) (zip ps ns) = None"
    using assms(2) by (auto simp: find_None_iff dest: set_zip_rightD)
  moreover obtain axs where "list_at (lista st) (archivos_abiertos st) axs" "map Some ps = map snd axs"
    using T by (auto elim: list_repE)
  ultimately have b: "buscar_nodo st m (head (archivos_abiertos st)) = Some None"
    using buscar_nodo_chain [of st "head (archivos_abiertos st)" axs ps ns m] T by (simp add: list_at_def)
  obtain h l where a: "list_add (lista st) (archivos_abiertos st) (Some (nodos_brk st)) = Some (int (length ps), h, l)"
    "list_rep h l (map Some ps @ [Some (nodos_brk st)])"
    using lst.add_rep [of "lista st" "archivos_abiertos st" "map Some ps"] T by fastforce
  have "nodos_brk st \<notin> set ps" using T by auto
  then show ?thesis using a b T assms(2)
    by (auto simp: obtener_o_crear_archivo_abierto_def table_rep_def Let_def less_SucI)
qed

lemma table_update:
  assumes "table_rep st (us @ p # vs) (as @ n # bs)" and "length us = length as" and "p \<notin> set (us @ vs)" and "0 \<le> c"
  shows "table_rep (st\<lparr>nodos := (nodos st)(p \<mapsto> n\<lparr>cantidad_abiertos := c\<rparr>)\<rparr>) (us @ p # vs) (as @ n\<lparr>cantidad_abiertos := c\<rparr> # bs)"
  using assms by (auto simp: table_rep_def append_eq_append_conv)

lemma cierre_loop_chain:
  "chain (cells (lista st)) el (us @ (a, Some p) # vs) None \<Longrightarrow> Some p \<notin> snd ` set us \<Longrightarrow>
   cierre_loop st p (length us + Suc k) i el = do {
     (r, h, l) \<leftarrow> list_remove (lista st) (archivos_abiertos st) (i + int (length us));
     q \<leftarrow> r;
     Some (st\<lparr>lista := h, archivos_abiertos := l, nodos := (nodos st)(q := None)\<rparr>) }"
proof (induction us arbitrary: el i)
  case (Cons u us)
  then show ?case by (cases u) (auto simp: algebra_simps)
qed auto

lemma table_remove:
  assumes "table_rep st (us @ p # vs) (as @ n # bs)" and "length us = length as" and "p \<notin> set (us @ vs)"
  shows "\<exists>st'. cierre_loop st p (nat (elements_count (archivos_abiertos st))) 0 (head (archivos_abiertos st)) = Some st' \<and>
    table_rep st' (us @ vs) (as @ bs)"
proof -
  note T = assms(1) [unfolded table_rep_def]
  from T obtain axs where l: "list_at (lista st) (archivos_abiertos st) axs" "map Some (us @ p # vs) = map snd axs"
    by (auto elim: list_repE)
  then obtain xs a ys where x: "axs = xs @ (a, Some p) # ys" "map Some us = map snd xs" "map Some vs = map snd ys"
    by (auto simp: map_eq_append_conv map_eq_Cons_conv append_eq_map_conv Cons_eq_map_conv)
  have n: "length xs = length us" using x(2) by (metis length_map)
  have p: "Some p \<notin> snd ` set xs" using x(2) assms(3) by (metis Un_iff image_iff list.set_map option.inject set_append)
  obtain h l' where r: "list_remove (lista st) (archivos_abiertos st) (int (length us)) = Some (Some p, h, l')"
    "list_rep h l' (map Some (us @ vs))"
    using lst.remove_rep [of "lista st" "archivos_abiertos st" "map Some (us @ p # vs)" "length us"] T by (auto simp: nth_append)
  have "nat (elements_count (archivos_abiertos st)) = length xs + Suc (length ys)" using l(1) x(1) by (simp add: list_at_def)
  then have "cierre_loop st p (nat (elements_count (archivos_abiertos st))) 0 (head (archivos_abiertos st)) =
      Some (st\<lparr>lista := h, archivos_abiertos := l', nodos := (nodos st)(p := None)\<rparr>)"
    using cierre_loop_chain [of st "head (archivos_abiertos st)" xs a p ys "length ys" 0] l(1) x(1) p r(1) n
    by (simp add: list_at_def)
  then show ?thesis using T r(2) assms(2,3) by (auto simp: table_rep_def append_eq_append_conv)
qed

section \<open>Traces of opens and closes\<close>

text \<open>What \<open>serve_open\<close> and \<open>serve_release\<close> do to the table, and what they do to the counts.\<close>

datatype table_op = Abrir u32 | Cerrar u32

fun table_step :: "admin \<Rightarrow> table_op \<Rightarrow> admin option" where
  "table_step st (Abrir m) = do { (p, st1) \<leftarrow> obtener_o_crear_archivo_abierto st m; registrar_apertura st1 p }"
| "table_step st (Cerrar m) = do { (p, st1) \<leftarrow> obtener_o_crear_archivo_abierto st m; registrar_cierre st1 p }"

fun table_run :: "admin \<Rightarrow> table_op list \<Rightarrow> admin option" where
  "table_run st [] = Some st"
| "table_run st (x # xs) = do { st1 \<leftarrow> table_step st x; table_run st1 xs }"

fun count_step :: "(u32 \<Rightarrow> int) \<Rightarrow> table_op \<Rightarrow> u32 \<Rightarrow> int" where
  "count_step f (Abrir m) = f(m := f m + 1)"
| "count_step f (Cerrar m) = f(m := max 0 (f m - 1))"

lemma cuenta_middle:
  "m = numero_inodo n \<Longrightarrow> m \<notin> numero_inodo ` set (as @ bs) \<Longrightarrow>
    cuenta (as @ n # bs) = (cuenta (as @ bs))(m := cantidad_abiertos n)"
  using cuenta_absent [of m as] cuenta_absent [of m bs]
  by (auto simp: fun_eq_iff cuenta_append cuenta_Cons image_Un)

text \<open>In every case \<open>obtener_o_crear_archivo_abierto\<close> gives the node of the inode; the counts stay.\<close>

lemma table_entry:
  assumes "table_rep st ps ns"
  obtains st1 us p vs as n bs where "obtener_o_crear_archivo_abierto st m = Some (p, st1)"
    "table_rep st1 (us @ p # vs) (as @ n # bs)" "length us = length as" "p \<notin> set (us @ vs)" "numero_inodo n = m"
    "m \<notin> numero_inodo ` set (as @ bs)" "nodos st1 p = Some n" "cuenta (as @ n # bs) = cuenta ns"
proof (cases "m \<in> numero_inodo ` set ns")
  case True
  show ?thesis
  proof (rule table_node [OF assms True])
    fix us p vs as n bs
    assume "ps = us @ p # vs" "ns = as @ n # bs" "length us = length as" "numero_inodo n = m"
      "m \<notin> numero_inodo ` set (as @ bs)" "nodos st p = Some n" "p \<notin> set (us @ vs)"
      "obtener_o_crear_archivo_abierto st m = Some (p, st)"
    with assms show ?thesis by (intro that) auto
  qed
next
  case False
  let ?n = "\<lparr>numero_inodo = m, cantidad_abiertos = 0\<rparr>"
  obtain st1 where st1: "obtener_o_crear_archivo_abierto st m = Some (nodos_brk st, st1)"
    "table_rep st1 (ps @ [nodos_brk st]) (ns @ [?n])"
    using table_new [OF assms False] by auto
  have l: "length ps = length ns" using assms unfolding table_rep_def by (metis length_map)
  have "nodos st1 (nodos_brk st) = Some ?n" using st1(2) l by (auto simp: table_rep_def append_eq_append_conv)
  moreover have "cuenta (ns @ [?n]) = cuenta ns" by (simp add: fun_eq_iff cuenta_append cuenta_def)
  moreover have "nodos_brk st \<notin> set ps" using assms by (auto simp: table_rep_def)
  ultimately show ?thesis using that [OF st1 l] False by simp
qed

lemma table_step_open:
  assumes "table_rep st ps ns" and "cuenta ns m < INT_MAX"
  shows "\<exists>st'. table_step st (Abrir m) = Some st' \<and> open_rep st' (count_step (cuenta ns) (Abrir m))"
proof -
  obtain st1 us p vs as n bs where t: "obtener_o_crear_archivo_abierto st m = Some (p, st1)"
    "table_rep st1 (us @ p # vs) (as @ n # bs)" "length us = length as" "p \<notin> set (us @ vs)" "numero_inodo n = m"
    "m \<notin> numero_inodo ` set (as @ bs)" "nodos st1 p = Some n" "cuenta (as @ n # bs) = cuenta ns"
    using table_entry [OF assms(1), of m] .
  have f: "cuenta ns = (cuenta (as @ bs))(m := cantidad_abiertos n)"
    using cuenta_middle [OF t(5) [symmetric] t(6)] t(8) by simp
  let ?n = "n\<lparr>cantidad_abiertos := cantidad_abiertos n + 1\<rparr>"
  have "0 \<le> cantidad_abiertos n" using t(2) by (simp add: table_rep_def)
  then have "table_rep (st1\<lparr>nodos := (nodos st1)(p \<mapsto> ?n)\<rparr>) (us @ p # vs) (as @ ?n # bs)"
    by (intro table_update t) simp
  moreover have "cuenta (as @ ?n # bs) = count_step (cuenta ns) (Abrir m)"
    using cuenta_middle [of m ?n as bs] t(5,6) f by simp
  ultimately have "open_rep (st1\<lparr>nodos := (nodos st1)(p \<mapsto> ?n)\<rparr>) (count_step (cuenta ns) (Abrir m))"
    by (rule open_repI)
  then show ?thesis using t(1,7) assms(2) f by (simp add: registrar_apertura_def del: count_step.simps)
qed

lemma table_step_close:
  assumes "table_rep st ps ns"
  shows "\<exists>st'. table_step st (Cerrar m) = Some st' \<and> open_rep st' (count_step (cuenta ns) (Cerrar m))"
proof -
  obtain st1 us p vs as n bs where t: "obtener_o_crear_archivo_abierto st m = Some (p, st1)"
    "table_rep st1 (us @ p # vs) (as @ n # bs)" "length us = length as" "p \<notin> set (us @ vs)" "numero_inodo n = m"
    "m \<notin> numero_inodo ` set (as @ bs)" "nodos st1 p = Some n" "cuenta (as @ n # bs) = cuenta ns"
    using table_entry [OF assms(1), of m] .
  have f: "cuenta ns = (cuenta (as @ bs))(m := cantidad_abiertos n)"
    using cuenta_middle [OF t(5) [symmetric] t(6)] t(8) by simp
  let ?n = "n\<lparr>cantidad_abiertos := cantidad_abiertos n - 1\<rparr>"
  show ?thesis
  proof (cases "0 < cantidad_abiertos n")
    case True
    let ?st2 = "st1\<lparr>nodos := (nodos st1)(p \<mapsto> ?n)\<rparr>"
    have u: "table_rep ?st2 (us @ p # vs) (as @ ?n # bs)" using True by (intro table_update t) simp
    have k: "cuenta (as @ ?n # bs) = count_step (cuenta ns) (Cerrar m)"
      using cuenta_middle [of m ?n as bs] t(5,6) f True by simp
    show ?thesis
    proof (cases "cantidad_abiertos n = 1")
      case one: True
      obtain st' where st': "cierre_loop ?st2 p (nat (elements_count (archivos_abiertos ?st2))) 0
          (head (archivos_abiertos ?st2)) = Some st'" "table_rep st' (us @ vs) (as @ bs)"
        using table_remove [OF u t(3,4)] by blast
      have "cuenta (as @ bs) = count_step (cuenta ns) (Cerrar m)"
        using f one cuenta_absent [OF t(6)] by (auto simp: fun_eq_iff)
      then have "open_rep st' (count_step (cuenta ns) (Cerrar m))" by (rule open_repI [OF st'(2)])
      then show ?thesis using st'(1) t(1,7) one by (simp add: registrar_cierre_def Let_def del: count_step.simps)
    next
      case False
      then show ?thesis using open_repI [OF u k] t(1,7) True
        by (simp add: registrar_cierre_def Let_def del: count_step.simps)
    qed
  next
    case False
    then have "count_step (cuenta ns) (Cerrar m) = cuenta (as @ n # bs)"
      using f t(2,8) by (auto simp: table_rep_def fun_eq_iff)
    then show ?thesis using False t(1,7) open_repI [OF t(2)] by (simp add: registrar_cierre_def del: count_step.simps)
  qed
qed

lemma count_step_le: "count_step f x m \<le> f m + 1" if "\<forall>m. 0 \<le> f m"
  using that by (cases x) (auto simp: max_def)

lemma count_step_nonneg: "\<forall>m. 0 \<le> f m \<Longrightarrow> 0 \<le> count_step f x m"
  by (cases x) auto

lemma table_run_counts:
  "open_rep st f \<Longrightarrow> \<forall>m. f m + int (length xs) \<le> INT_MAX \<Longrightarrow>
    \<exists>st'. table_run st xs = Some st' \<and> open_rep st' (fold (\<lambda>x f. count_step f x) xs f)"
proof (induction xs arbitrary: st f)
  case (Cons x xs)
  from Cons.prems(1) obtain ps ns where t: "table_rep st ps ns" "f = cuenta ns" by (auto simp: open_rep_def)
  have nn: "\<forall>m. 0 \<le> f m" using t by (auto simp: table_rep_def cuenta_nonneg)
  have "f m < INT_MAX" for m using Cons.prems(2) [rule_format, of m] by simp
  then obtain st1 where s: "table_step st x = Some st1" "open_rep st1 (count_step f x)"
    using table_step_open [OF t(1)] table_step_close [OF t(1)] t(2) by (cases x) blast+
  have "\<forall>m. count_step f x m + int (length xs) \<le> INT_MAX"
    using Cons.prems(2) count_step_le [OF nn] by (smt (verit) length_Cons of_nat_Suc)
  then show ?case using Cons.IH [OF s(2)] s(1) by simp
qed simp

lemma inicializar_rep: "open_rep inicializar_administracion (\<lambda>_. 0)"
proof -
  have "table_rep inicializar_administracion [] []"
    using lst.create_rep [of "\<lparr>cells = Map.empty, brk = 0\<rparr>"]
    by (simp add: table_rep_def inicializar_administracion_def heap_ok_def)
  then show ?thesis by (auto simp: open_rep_def cuenta_def fun_eq_iff intro!: exI)
qed

text \<open>
  C17. The table of open files counts: from the start of the server, every trace of opens and closes (of files
  that are open or not) runs without undefined behaviour and leaves for every inode the number of
  its opens that were not closed; a close of a file that is not open changes no count.
\<close>

theorem open_table_refines_counts:
  assumes "int (length ops) \<le> INT_MAX"
  shows "\<exists>st. table_run inicializar_administracion ops = Some st \<and>
    open_rep st (fold (\<lambda>x f. count_step f x) ops (\<lambda>_. 0))"
  using table_run_counts [OF inicializar_rep] assms by simp

theorem open_table_refines_counts_witness:
  "\<exists>st. table_run inicializar_administracion [Abrir 7, Abrir 7, Abrir 9, Cerrar 7, Cerrar 9, Cerrar 5] = Some st \<and>
     open_rep st ((\<lambda>_. 0)(7 := 1))"
proof -
  let ?ops = "[Abrir 7, Abrir 7, Abrir 9, Cerrar 7, Cerrar 9, Cerrar 5]"
  have "fold (\<lambda>x f. count_step f x) ?ops (\<lambda>_. 0) = (\<lambda>_. 0)(7 := 1)" by (simp add: fun_eq_iff)
  then show ?thesis using open_table_refines_counts [of ?ops] by (simp add: INT_MAX_def)
qed

section \<open>Closing a file of a client\<close>

lemma cierre_cliente_skip:
  "chain (cells h) el (us @ bxs) None \<Longrightarrow> map snd us = map Some xs \<Longrightarrow> n \<notin> set xs \<Longrightarrow>
    i + int (length us) \<le> elements_count l \<Longrightarrow>
    \<exists>el'. chain (cells h) el' bxs None \<and>
      cierre_cliente_loop n h l i el = cierre_cliente_loop n h l (i + int (length us)) el'"
proof (induction us arbitrary: el i xs)
  case (Cons u us)
  obtain a y ys where s: "u = (a, Some y)" "xs = y # ys" using Cons.prems(2) by (cases u; cases xs) auto
  with Cons.prems(1) obtain e' where e: "el = Some a" "cells h a = Some \<lparr>el_data = Some y, el_next = e'\<rparr>"
    "chain (cells h) e' (us @ bxs) None" by auto
  have "cierre_cliente_loop n h l i el = cierre_cliente_loop n h l (i + 1) e'"
    unfolding cierre_cliente_loop.simps [of n h l i el] using e s Cons.prems by auto
  then show ?case using Cons.IH [OF e(3), of ys "i + 1"] Cons.prems s by (auto simp: algebra_simps)
qed auto

text \<open>
  Closing a file of a client works only near the end of its list: when the client's list of open files is
  \<open>us\<close>, the file and \<open>vs\<close>, the loop of \<open>registrar_cierre_cliente\<close> takes the first occurrence of the file out when
  \<open>vs\<close> has at most one element; when two or more files were opened after it, the loop goes on with the
  element it has freed (undefined behaviour).
\<close>

theorem client_close:
  assumes "list_rep h l (map Some (us @ n # vs))" and "n \<notin> set us"
  shows "if length vs \<le> 1
    then \<exists>h' l'. cierre_cliente_loop n h l 0 (head l) = Some (h', l') \<and> list_rep h' l' (map Some (us @ vs))
    else cierre_cliente_loop n h l 0 (head l) = None"
proof -
  from assms(1) obtain axs where l: "heap_ok h" "list_at h l axs" "map Some (us @ n # vs) = map snd axs"
    by (rule list_repE)
  then obtain xs a ys where x: "axs = xs @ (a, Some n) # ys" "map Some us = map snd xs" "map Some vs = map snd ys"
    by (auto simp: map_eq_append_conv map_eq_Cons_conv append_eq_map_conv Cons_eq_map_conv)
  have len: "length xs = length us" "length ys = length vs" using x(2,3) by (metis length_map)+
  have c: "elements_count l = int (length us + 1 + length vs)" using l(2) x(1) len by (simp add: list_at_def)
  obtain h' l' where r: "list_remove h l (int (length xs)) = Some (Some n, h', l')" "heap_ok h'"
    "list_at h' l' (xs @ ys)" "cells h' a = None"
    using list_remove_at [of h l xs a "Some n" ys] l x(1) by blast
  have c': "elements_count l' = int (length us + length vs)" using r(3) len by (simp add: list_at_def)
  obtain el where el: "chain (cells h) el ((a, Some n) # ys) None"
    "cierre_cliente_loop n h l 0 (head l) = cierre_cliente_loop n h l (int (length us)) el"
    using cierre_cliente_skip [of h "head l" xs "(a, Some n) # ys" us n 0 l] l(2) x(1,2) assms(2) c len
    by (auto simp: list_at_def)
  have "cierre_cliente_loop n h l 0 (head l) = cierre_cliente_loop n h' l' (int (length us) + 1) (Some a)"
    unfolding el(2) using el(1) r(1) c len by (subst cierre_cliente_loop.simps) auto
  also have "\<dots> = (if length vs \<le> 1 then Some (h', l') else None)"
    using c' r(4) by (subst cierre_cliente_loop.simps) auto
  finally show ?thesis using r(2,3) x(2,3) by (auto simp: list_rep_def)
qed

definition demo_files :: "u32 list \<Rightarrow> (u32 lheap \<times> t_list) option" where
  "demo_files xs = fold (\<lambda>x r. do { (h, l) \<leftarrow> r; (_, h', l') \<leftarrow> list_add h l (Some x); Some (h', l') })
     xs (Some (\<lparr>cells = Map.empty, brk = 0\<rparr>, list_create))"

lemma demo_files_rep:
  assumes "list_rep h l (map Some ys)"
  shows "\<exists>h' l'. fold (\<lambda>x r. do { (h, l) \<leftarrow> r; (_, h', l') \<leftarrow> list_add h l (Some x); Some (h', l') }) xs (Some (h, l)) =
     Some (h', l') \<and> list_rep h' l' (map Some (ys @ xs))"
  using assms
proof (induction xs arbitrary: h l ys)
  case (Cons x xs)
  obtain h' l' where "list_add h l (Some x) = Some (int (length ys), h', l')" "list_rep h' l' (map Some (ys @ [x]))"
    using lst.add_rep [OF Cons.prems, of "Some x"] by auto
  then show ?case using Cons.IH [of h' l' "ys @ [x]"] by simp
qed simp

theorem client_close_witness:
  "\<exists>h l h' l'. demo_files [4, 7, 9] = Some (h, l) \<and> cierre_cliente_loop 4 h l 0 (head l) = None \<and>
     cierre_cliente_loop 7 h l 0 (head l) = Some (h', l') \<and> list_rep h' l' (map Some [4, 9])"
proof -
  obtain h l where d: "demo_files [4, 7, 9] = Some (h, l)" "list_rep h l (map Some [4, 7, 9])"
    using demo_files_rep [of _ _ "[]" "[4, 7, 9]"] lst.create_rep [of "\<lparr>cells = Map.empty, brk = 0\<rparr>"]
    by (fastforce simp: demo_files_def heap_ok_def)
  then show ?thesis using client_close [of h l "[]" 4 "[7, 9]"] client_close [of h l "[4]" 7 "[9]"] by auto
qed

end
