(* ===== verification/Server.thy ===== *)
theory Server
  imports RemoteCache Opened Sockets
begin

unbundle bit_operations_syntax

text \<open>
  The request handlers of the file server, \<open>rfs/src/main_rfs.c\<close>, with the functions of \<open>funciones_rfs.c\<close> that use the
  table of open files. The state joins the disk, the tables of open files, the connection to the cache and the
  last client id. A handler returns the packets it sends, in order, and the new state; \<open>None\<close> is undefined
  behaviour or a handler that never returns. Logging, sleeping and the locks are left out; the bytes of
  uninitialised memory that end up on the disk are the argument \<open>basura\<close>.
\<close>

section \<open>State\<close>

record 'c server =
  fs :: rfs
  adm :: admin
  rcache :: "'c cache_state"
  generated_client_id :: u32

type_synonym 'c reply = "(nipc_packet list \<times> 'c server) option"

definition send_no_ok :: "int \<Rightarrow> u32 \<Rightarrow> nipc_packet list option" where
  "send_no_ok errorCode client_id = do {
     p \<leftarrow> serialize_error (new_nipc_error_code client_id (word_of_int (- errorCode)));
     Some [p] }"

definition send_ok :: "u32 \<Rightarrow> nipc_packet list option" where
  "send_ok client_id = Some [new_nipc_ok client_id]"

text \<open>\<open>if (codError != 0) send_no_ok(...) else send_ok(...)\<close>\<close>

definition responder :: "int \<Rightarrow> u32 \<Rightarrow> nipc_packet list option" where
  "responder codError client_id = (if codError \<noteq> 0 then send_no_ok codError client_id else send_ok client_id)"

section \<open>Locks of files\<close>

text \<open>Taking or giving back the lock of a file makes a node in the table when it has none.\<close>

definition bloquearLectura :: "admin \<Rightarrow> u32 \<Rightarrow> admin option" where
  "bloquearLectura st numero = map_option snd (obtener_o_crear_archivo_abierto st numero)"

definition bloquearEscritura :: "admin \<Rightarrow> u32 \<Rightarrow> admin option" where
  "bloquearEscritura st numero = map_option snd (obtener_o_crear_archivo_abierto st numero)"

definition desbloquear :: "admin \<Rightarrow> u32 \<Rightarrow> admin option" where
  "desbloquear st numero = map_option snd (obtener_o_crear_archivo_abierto st numero)"

definition numeroInodo :: "mem \<Rightarrow> cstr \<Rightarrow> u32 option" where
  "numeroInodo d path = getNroInodoDeLaDireccionDelPath d path"

definition obtenerInodo :: "mem \<Rightarrow> u32 \<Rightarrow> nat option option" where
  "obtenerInodo d numero = getInodo d numero"

text \<open>The search loop of \<open>getRegistroArchivoAbierto\<close>, \<open>k\<close> positions to go: without a match the last node is returned.\<close>

fun registro_loop :: "admin \<Rightarrow> u32 \<Rightarrow> nat \<Rightarrow> int \<Rightarrow> nat option \<Rightarrow> nat option option" where
  "registro_loop st nro 0 indice r = Some r"
| "registro_loop st nro (Suc k) indice r = do {
     p \<leftarrow> list_get (lista st) (archivos_abiertos st) indice;
     q \<leftarrow> p;
     n \<leftarrow> nodos st q;
     (if numero_inodo n = nro then Some (Some q) else registro_loop st nro k (indice + 1) (Some q)) }"

definition getRegistroArchivoAbierto :: "admin \<Rightarrow> u32 \<Rightarrow> nat option option" where
  "getRegistroArchivoAbierto st nro = registro_loop st nro (nat (list_size (archivos_abiertos st))) 0 None"

section \<open>Reading and truncating through the table\<close>

partial_function (option) leer_loop :: "mem \<Rightarrow> nat \<Rightarrow> u32 \<Rightarrow> u32 \<Rightarrow> u32 \<Rightarrow> buffer \<Rightarrow> buffer option" where
  [code]: "leer_loop d inodo offset bytesALeer bytesLeidos buf =
     (if bytesLeidos < bytesALeer
      then let desplazamiento = desplazamientoDentroDelBloque d (offset + bytesLeidos) in
        Option.bind (posicionarme d inodo (nroBloqueDentroDelInodo d (offset + bytesLeidos)) desplazamiento) (\<lambda>ptr.
        if bytesALeer - bytesLeidos > tamanioDeBloque d
        then let resto = tamanioDeBloque d - desplazamiento in
          leer_loop d inodo offset bytesALeer (bytesLeidos + resto) (buf @ mem_read d ptr (unat resto))
        else Some (buf @ mem_read d ptr (unat (bytesALeer - bytesLeidos))))
      else Some buf)"

text \<open>The number of bytes returned and the buffer (null when nothing is read); \<open>ENOENT\<close> is returned as a size.\<close>

definition leerArchivo :: "mem \<Rightarrow> admin \<Rightarrow> cstr \<Rightarrow> u32 \<Rightarrow> u32 \<Rightarrow> (u32 \<times> buffer option) option" where
  "leerArchivo d st path offset bytesALeer = do {
     numero \<leftarrow> getNroInodoDeLaDireccionDelPath d path;
     registro \<leftarrow> getRegistroArchivoAbierto st numero;
     (if registro \<noteq> None
      then do {
        inodo \<leftarrow> inodo_at d numero;
        (if ino_size d inodo \<noteq> 0
         then do {
           let n = (if ino_size d inodo \<le> offset + bytesALeer then ino_size d inodo - offset else bytesALeer);
           buf \<leftarrow> leer_loop d inodo offset n 0 [];
           Some (n, Some buf) }
         else Some (0, None)) }
      else Some (2, None)) }"

partial_function (option) truncar_loop :: "mem \<Rightarrow> nat \<Rightarrow> int \<Rightarrow> (int \<times> mem) option" where
  [code]: "truncar_loop d inodo cantidad_final =
     (if sint (cantidadDeBloques d inodo) > cantidad_final
      then Option.bind (removerUltimoBloque d inodo) (\<lambda>(e, d').
        if e = 0 then truncar_loop d' inodo cantidad_final else Some (e, d'))
      else Some (0, d))"

definition truncar :: "mem \<Rightarrow> admin \<Rightarrow> cstr \<Rightarrow> u32 \<Rightarrow> (int \<times> mem \<times> admin) option" where
  "truncar d st path sz = do {
     numero \<leftarrow> numeroInodo d path;
     inodoP \<leftarrow> obtenerInodo d numero;
     st1 \<leftarrow> bloquearEscritura st numero;
     inodo \<leftarrow> inodoP;
     (codigo_error, d1) \<leftarrow>
       (if sz < ino_size d inodo then truncar_loop d inodo (sint (nroBloqueDentroDelInodo d (sz - 1) + 1))
        else Some (0, d));
     let d2 = (if codigo_error = 0 then set_ino_size d1 inodo sz else d1);
     d3 \<leftarrow> grabarInodo d2 numero inodo;
     st2 \<leftarrow> desbloquear st1 numero;
     Some (codigo_error, d3, st2) }"

section \<open>Open, create, release\<close>

text \<open>The part \<open>serve_open\<close> and \<open>serve_create\<close> share: register the open and answer, or \<open>ENOENT\<close>.\<close>

definition abrir :: "'c server \<Rightarrow> cstr \<Rightarrow> u32 \<Rightarrow> 'c reply" where
  "abrir s path client_id = do {
     numero \<leftarrow> getNroInodoDeLaDireccionDelPath (disk (fs s)) path;
     (if numero \<noteq> 0
      then do {
        (nodo, a1) \<leftarrow> obtener_o_crear_archivo_abierto (adm s) numero;
        a2 \<leftarrow> registrar_apertura a1 nodo;
        (c, a3) \<leftarrow> obtener_o_crear_lista_del_cliente a2 client_id;
        a4 \<leftarrow> registrar_apertura_cliente a3 c numero;
        r \<leftarrow> send_ok client_id;
        Some (r, s\<lparr>adm := a4\<rparr>) }
      else do { r \<leftarrow> send_no_ok ENOENT client_id; Some (r, s) }) }"

definition serve_open :: "'c server \<Rightarrow> nipc_open_t \<Rightarrow> 'c reply" where
  "serve_open s request = abrir s (op_path request) (op_client_id request)"

definition serve_create :: "byte \<Rightarrow> 'c server \<Rightarrow> nipc_create_t \<Rightarrow> 'c reply" where
  "serve_create basura s request = do {
     (codError, f) \<leftarrow> crearArchivo basura (fs s) (cr_path request) (cr_fileMode request);
     let s1 = s\<lparr>fs := f\<rparr>;
     (if codError \<noteq> 0
      then do { r \<leftarrow> send_no_ok codError (cr_client_id request); Some (r, s1) }
      else do {
        (r1, s2) \<leftarrow> abrir s1 (cr_path request) (cr_client_id request);
        r2 \<leftarrow> send_ok (cr_client_id request);
        Some (r1 @ r2, s2) }) }"

definition serve_release :: "'c server \<Rightarrow> nipc_release_t \<Rightarrow> 'c reply" where
  "serve_release s request = do {
     numero \<leftarrow> getNroInodoDeLaDireccionDelPath (disk (fs s)) (rl_path request);
     (if numero \<noteq> 0
      then do {
        (nodo, a1) \<leftarrow> obtener_o_crear_archivo_abierto (adm s) numero;
        a2 \<leftarrow> registrar_cierre a1 nodo;
        a3 \<leftarrow> registrar_cierre_cliente a2 (rl_client_id request) numero;
        r \<leftarrow> send_ok (rl_client_id request);
        Some (r, s\<lparr>adm := a3\<rparr>) }
      else do { r \<leftarrow> send_no_ok ENOENT (rl_client_id request); Some (r, s) }) }"

section \<open>Read\<close>

text \<open>The blocks of the range, from the cache or from the disk; a block from the disk goes into the cache.\<close>

fun traer_bloques :: "mem \<Rightarrow> 'c cache_state \<Rightarrow> u32 list \<Rightarrow> (buffer list \<times> 'c cache_state) option" where
  "traer_bloques d k [] = Some ([], k)"
| "traer_bloques d k (n # ns) = do {
     (bloque, k1) \<leftarrow> (case lib k of
        None \<Rightarrow> Some (traerBloqueDeDisco d n, k)
      | Some mc \<Rightarrow> (case traerBloqueDeCache mc (conn k) n of
            Some bloque \<Rightarrow> Some (bloque, k)
          | None \<Rightarrow> do {
              c \<leftarrow> guardarBloqueEnCache mc d (conn k) n (traerBloqueDeDisco d n);
              Some (traerBloqueDeDisco d n, k\<lparr>conn := c\<rparr>) }));
     (bs, k2) \<leftarrow> traer_bloques d k1 ns;
     Some (bloque # bs, k2) }"

text \<open>
  The copying loop at index \<open>i\<close>: the first block is read from the displacement of the offset, the last one up to
  the displacement of the end, and the others, the first included, for a whole block.
\<close>

fun copiar_bloques :: "mem \<Rightarrow> u32 \<Rightarrow> u32 \<Rightarrow> nat \<Rightarrow> nat \<Rightarrow> buffer list \<Rightarrow> buffer option" where
  "copiar_bloques d offset bytesALeer cant i [] = Some []"
| "copiar_bloques d offset bytesALeer cant i (b # bs) = do {
     let offsetBloque = (if i = 0 then desplazamientoDentroDelBloque d offset else 0);
     let sizeALeer = (if i = cant - 1 then desplazamientoDentroDelBloque d (bytesALeer - 1) + 1 else tamanioDeBloque d);
     x \<leftarrow> read_buf b (unat offsetBloque) (unat sizeALeer);
     rest \<leftarrow> copiar_bloques d offset bytesALeer cant (i + 1) bs;
     Some (x @ rest) }"

definition serve_read :: "'c server \<Rightarrow> nipc_read_t \<Rightarrow> 'c reply" where
  "serve_read s request = (let d = disk (fs s) in do {
     numero \<leftarrow> numeroInodo d (rd_path request);
     a1 \<leftarrow> bloquearLectura (adm s) numero;
     p \<leftarrow> obtenerInodo d numero;
     inodo \<leftarrow> p;
     let bytesALeer = (if ino_size d inodo < rd_offset request + rd_size request
           then ino_size d inodo - rd_offset request else rd_size request);
     (output, k) \<leftarrow> (if bytesALeer \<noteq> 0
       then do {
         numeros \<leftarrow> numerosDeBloques d inodo (rd_offset request) bytesALeer;
         (bloques, k) \<leftarrow> traer_bloques d (rcache s) numeros;
         output \<leftarrow> copiar_bloques d (rd_offset request) bytesALeer (length numeros) 0 bloques;
         Some (Some output, k) }
       else Some (None, rcache s));
     let readBytes = (case output of None \<Rightarrow> 0 | Some b \<Rightarrow> of_nat (length b));
     a2 \<leftarrow> desbloquear a1 numero;
     Some ([new_nipc_read_response output readBytes (rd_client_id request)], s\<lparr>adm := a2, rcache := k\<rparr>) })"

section \<open>Write\<close>

text \<open>\<open>while (cantidadDeBloques(inodo) <= final) agregarBloqueNuevo(inodo);\<close> the error code is not looked at.\<close>

partial_function (option) agrandar_hasta :: "rfs \<Rightarrow> nat \<Rightarrow> u32 \<Rightarrow> rfs option" where
  [code]: "agrandar_hasta f inodo final =
     (if cantidadDeBloques (disk f) inodo \<le> final
      then Option.bind (agregarBloqueNuevo f inodo) (\<lambda>(_, f'). agrandar_hasta f' inodo final)
      else Some f)"

definition sobrescribir :: "buffer \<Rightarrow> nat \<Rightarrow> buffer \<Rightarrow> buffer option" where
  "sobrescribir bloque pos bytes = (if pos + length bytes \<le> length bloque
     then Some (take pos bloque @ bytes @ drop (pos + length bytes) bloque) else None)"

fun escribir_bloques :: "nipc_write_t \<Rightarrow> 'c cache_state \<Rightarrow> mem \<Rightarrow> u32 \<Rightarrow> u32 list \<Rightarrow> ('c cache_state \<times> mem \<times> u32) option" where
  "escribir_bloques request k d bytesEscritos [] = Some (k, d, bytesEscritos)"
| "escribir_bloques request k d bytesEscritos (n # ns) = do {
     let posicion_en_bloque = desplazamientoDentroDelBloque d (wt_offset request + bytesEscritos);
     let resto = tamanioDeBloque d - posicion_en_bloque;
     let bytes_a_escribir = (if bytesEscritos + resto > wt_size request then wt_size request - bytesEscritos else resto);
     let bloque = (if posicion_en_bloque \<noteq> 0 \<or> tamanioDeBloque d - bytes_a_escribir \<noteq> 0 then traerBloque k d n
           else replicate (unat (tamanioDeBloque d)) 0);
     bytes \<leftarrow> read_buf (wt_data request) (unat bytesEscritos) (unat bytes_a_escribir);
     nuevo \<leftarrow> sobrescribir bloque (unat posicion_en_bloque) bytes;
     (k1, d1) \<leftarrow> grabarBloque k d n nuevo;
     escribir_bloques request k1 d1 (bytesEscritos + bytes_a_escribir) ns }"

definition serve_write :: "'c server \<Rightarrow> nipc_write_t \<Rightarrow> 'c reply" where
  "serve_write s request = do {
     numero \<leftarrow> numeroInodo (disk (fs s)) (wt_path request);
     p \<leftarrow> obtenerInodo (disk (fs s)) numero;
     a1 \<leftarrow> bloquearEscritura (adm s) numero;
     inodo \<leftarrow> p;
     let final = nroBloqueDentroDelInodo (disk (fs s)) (wt_offset request + wt_size request - 1);
     f \<leftarrow> agrandar_hasta (fs s) inodo final;
     numeros \<leftarrow> numerosDeBloques (disk f) inodo (wt_offset request) (wt_size request);
     (k, d, bytesEscritos) \<leftarrow> escribir_bloques request (rcache s) (disk f) 0 numeros;
     r \<leftarrow> (if bytesEscritos = wt_size request then send_ok (wt_client_id request)
           else send_no_ok 1 (wt_client_id request));
     a2 \<leftarrow> desbloquear a1 numero;
     Some (r, s\<lparr>fs := f\<lparr>disk := d\<rparr>, adm := a2, rcache := k\<rparr>) }"

section \<open>The other requests\<close>

definition serve_unlink :: "'c server \<Rightarrow> nipc_unlink_t \<Rightarrow> 'c reply" where
  "serve_unlink s request = do {
     k \<leftarrow> (case lib (rcache s) of
        None \<Rightarrow> Some (rcache s)
      | Some mc \<Rightarrow> do {
          c \<leftarrow> delete_memcached mc (disk (fs s)) (conn (rcache s)) (ul_path request) 0;
          Some ((rcache s)\<lparr>conn := c\<rparr>) });
     (codError, f) \<leftarrow> eliminarArchivo (fs s) (ul_path request);
     r \<leftarrow> responder codError (ul_client_id request);
     Some (r, s\<lparr>fs := f, rcache := k\<rparr>) }"

definition serve_mkdir :: "byte \<Rightarrow> byte \<Rightarrow> byte \<Rightarrow> 'c server \<Rightarrow> nipc_mkdir_t \<Rightarrow> 'c reply" where
  "serve_mkdir basura basura1 basura2 s request = do {
     (codError, f) \<leftarrow> crearDirectorio basura basura1 basura2 (fs s) (mk_path request) (mk_fileMode request);
     r \<leftarrow> responder codError (mk_client_id request);
     Some (r, s\<lparr>fs := f\<rparr>) }"

definition serve_readdir :: "'c server \<Rightarrow> nipc_readdir_t \<Rightarrow> 'c reply" where
  "serve_readdir s request = do {
     entradas \<leftarrow> listarDirectorio (disk (fs s)) (dr_path request);
     r \<leftarrow> (if entradas \<noteq> []
       then do {
         p \<leftarrow> serialize_readdir_response
                (new_nipc_readdir_response (of_nat (length entradas)) entradas (dr_client_id request));
         Some [p] }
       else send_no_ok ENOENT (dr_client_id request));
     Some (r, s) }"

definition serve_rmdir :: "'c server \<Rightarrow> nipc_rmdir_t \<Rightarrow> 'c reply" where
  "serve_rmdir s request = do {
     (codError, f) \<leftarrow> eliminarDirectorio (fs s) (rm_path request);
     r \<leftarrow> responder codError (rm_client_id request);
     Some (r, s\<lparr>fs := f\<rparr>) }"

text \<open>The \<open>path\<close> of the attributes is never set: it is not sent.\<close>

definition serve_getattr :: "'c server \<Rightarrow> nipc_getattr_t \<Rightarrow> 'c reply" where
  "serve_getattr s request = (let d = disk (fs s) in do {
     p \<leftarrow> getInodoDeLaDireccionDelPath d (ga_path request);
     r \<leftarrow> (case p of
        None \<Rightarrow> send_no_ok ENOENT (ga_client_id request)
      | Some inodo \<Rightarrow> do {
          q \<leftarrow> serialize_getattr_response (new_nipc_getattr_response
                \<lparr>re_path = None, re_mode = ucast (ino_mode d inodo), re_size = ino_size d inodo,
                 re_n_link = ucast (ino_links d inodo), re_blocks = ino_nr_blocks d inodo\<rparr> (ga_client_id request));
          Some [q] });
     Some (r, s) })"

definition serve_truncate :: "'c server \<Rightarrow> nipc_truncate_t \<Rightarrow> 'c reply" where
  "serve_truncate s request = do {
     (codError, f) \<leftarrow> truncarArchivo (fs s) (tr_path request) (tr_offset request);
     r \<leftarrow> responder codError (tr_client_id request);
     Some (r, s\<lparr>fs := f\<rparr>) }"

definition serve_unknown :: "'c server \<Rightarrow> nipc_packet \<Rightarrow> 'c reply" where
  "serve_unknown s request = do {
     p \<leftarrow> serialize_error (new_nipc_error_message (str ''Paquete desconocido''));
     Some ([p], s) }"

definition generate_client_id :: "'c server \<Rightarrow> u32 \<times> 'c server" where
  "generate_client_id s = (let new_client_id = generated_client_id s + 1
     in (new_client_id, s\<lparr>generated_client_id := new_client_id\<rparr>))"

text \<open>Anything but the greeting closes the connection without an answer.\<close>

definition serve_handshake :: "'c server \<Rightarrow> nipc_packet \<Rightarrow> 'c reply" where
  "serve_handshake s request = do {
     b \<leftarrow> pkt_data request;
     m \<leftarrow> c_str b;
     (if m = HANDSHAKE_HELLO
      then let (new_client_id, s1) = generate_client_id s in Some ([new_nipc_handshake_ok new_client_id], s1)
      else Some ([], s)) }"

definition serve_error :: "'c server \<Rightarrow> nipc_error_t \<Rightarrow> 'c reply" where
  "serve_error s request =
     (if er_errorCode request \<noteq> - EBADF
      then do { p \<leftarrow> serialize_error request; Some ([p], s) }
      else Some ([], s))"

section \<open>The switch\<close>

definition serve :: "byte \<Rightarrow> byte \<Rightarrow> byte \<Rightarrow> 'c server \<Rightarrow> request \<Rightarrow> 'c reply" where
  "serve basura basura1 basura2 s r = (case r of
      Req_open m \<Rightarrow> serve_open s m
    | Req_create m \<Rightarrow> serve_create basura s m
    | Req_read m \<Rightarrow> serve_read s m
    | Req_write m \<Rightarrow> serve_write s m
    | Req_release m \<Rightarrow> serve_release s m
    | Req_unlink m \<Rightarrow> serve_unlink s m
    | Req_mkdir m \<Rightarrow> serve_mkdir basura basura1 basura2 s m
    | Req_readdir m \<Rightarrow> serve_readdir s m
    | Req_rmdir m \<Rightarrow> serve_rmdir s m
    | Req_getattr m \<Rightarrow> serve_getattr s m
    | Req_truncate m \<Rightarrow> serve_truncate s m)"

definition serveRequest :: "byte \<Rightarrow> byte \<Rightarrow> byte \<Rightarrow> 'c server \<Rightarrow> nipc_packet \<Rightarrow> 'c reply" where
  "serveRequest basura basura1 basura2 s request = do {
     nombre_log \<leftarrow> nombre_del_enum_nipc (pkt_type request);
     decoded \<leftarrow> decode_request request;
     (case decoded of
        Some r \<Rightarrow> serve basura basura1 basura2 s r
      | None \<Rightarrow>
          (if pkt_type request = tipo_code nipc_handshake then serve_handshake s request
           else if pkt_type request = tipo_code nipc_error
           then do { e \<leftarrow> deserialize_error request; serve_error s e }
           else serve_unknown s request)) }"

end
