(* ===== verification/Requests.thy ===== *)
theory Requests
  imports Server
begin

text \<open>
  What the request handlers of \<open>Server\<close> do: dispatch of every request, answers for missing paths, and the write that
  never returns on a full disk.
\<close>

section \<open>Dispatch\<close>

lemma decode_request_type: "decode_request p = Some (Some r) \<Longrightarrow> \<exists>t. pkt_type p = tipo_code t"
  by (auto simp: decode_request_def Let_def simp del: tipo_code.simps split: if_splits)

lemma name_of_type: "\<exists>name. nombre_del_enum_nipc (tipo_code t) = Some name"
  by (cases t) (simp_all add: nombre_del_enum_nipc_def enum_nipc_names_def)

lemma dispatch_ok:
  assumes "request_ok r"
  shows "\<exists>p. serialize_request r = Some p \<and> packet_ok p \<and>
    serveRequest basura basura1 basura2 s p = serve basura basura1 basura2 s r"
proof -
  obtain p where p: "serialize_request r = Some p" "packet_ok p" "decode_request p = Some (Some r)"
    using serialize_request_ok [OF assms] by blast
  obtain t where "pkt_type p = tipo_code t" using decode_request_type [OF p(3)] by blast
  moreover obtain name where "nombre_del_enum_nipc (tipo_code t) = Some name" using name_of_type by blast
  ultimately show ?thesis using p by (simp add: serveRequest_def)
qed

section \<open>Missing paths\<close>

definition error_packet :: "int \<Rightarrow> u32 \<Rightarrow> nipc_packet" where
  "error_packet e client_id = \<lparr>pkt_type = tipo_code nipc_error, pkt_data_length = 8, pkt_client_id = client_id,
     pkt_data = Some (le32 (word_of_int (- e)) @ le32 0)\<rparr>"

lemma send_no_ok_packet: "send_no_ok e c = Some [error_packet e c]"
  by (simp add: send_no_ok_def serialize_error_def new_nipc_error_code_def empty_nipc_error_def error_packet_def
      fill_packet_def)

lemma path_parent:
  assumes "fs_tree d t I"
  obtains n p where "getNroInodoDeLaDireccionDelPath d path = Some n" "getInodo d n = Some p" "n \<noteq> 0 \<Longrightarrow> p \<noteq> None"
proof -
  let ?n = "resolve t 2 (string_split path SEPARADOR)"
  have "\<exists>p. getInodo d ?n = Some p \<and> (?n \<noteq> 0 \<longrightarrow> p \<noteq> None)"
  proof (cases "?n = 0")
    case False
    then have "?n \<in> I" using resolve_in [OF assms] assms by (simp add: fs_tree_def)
    then show ?thesis using assms by (force simp: fs_tree_def node_ok_def inodo_at_def split: bind_splits)
  qed (simp add: getInodo_def)
  then show thesis using that path_number [OF assms] by blast
qed

text \<open>
  C18. Missing paths: on a disk that holds a tree, for a path that names nothing, open, release, getattr, truncate,
  readdir and rmdir answer one error packet with \<open>- ENOENT\<close> and change nothing, and so does unlink when the
  cache is not active. Read, write, and unlink with an active cache dereference the null inode instead.
\<close>

theorem missing_path:
  assumes "fs_tree (disk (fs s)) t I" and "resolve t 2 (string_split path SEPARADOR) = 0"
  shows "(\<forall>m. op_path m = path \<longrightarrow> serve_open s m = Some ([error_packet ENOENT (op_client_id m)], s)) \<and>
    (\<forall>m. rl_path m = path \<longrightarrow> serve_release s m = Some ([error_packet ENOENT (rl_client_id m)], s)) \<and>
    (\<forall>m. ga_path m = path \<longrightarrow> serve_getattr s m = Some ([error_packet ENOENT (ga_client_id m)], s)) \<and>
    (\<forall>m. tr_path m = path \<longrightarrow> serve_truncate s m = Some ([error_packet ENOENT (tr_client_id m)], s)) \<and>
    (\<forall>m. dr_path m = path \<longrightarrow> serve_readdir s m = Some ([error_packet ENOENT (dr_client_id m)], s)) \<and>
    (\<forall>m. rm_path m = path \<longrightarrow> serve_rmdir s m = Some ([error_packet ENOENT (rm_client_id m)], s)) \<and>
    (\<forall>m. ul_path m = path \<longrightarrow> serve_unlink s m =
       (if lib (rcache s) = None then Some ([error_packet ENOENT (ul_client_id m)], s) else None)) \<and>
    (\<forall>m. rd_path m = path \<longrightarrow> serve_read s m = None) \<and>
    (\<forall>m. wt_path m = path \<longrightarrow> serve_write s m = None)"
proof -
  let ?d = "disk (fs s)"
  have n: "getNroInodoDeLaDireccionDelPath ?d path = Some 0" using path_number [OF assms(1)] assms(2) by simp
  have i: "getInodoDeLaDireccionDelPath ?d path = Some None" using n by (simp add: getInodoDeLaDireccionDelPath_def)
  obtain r p where r: "getNroInodoDeLaDireccionDelPath ?d (ruta (separarPathParaNewDirEntry path)) = Some r"
    "getInodo ?d r = Some p" "r \<noteq> 0 \<Longrightarrow> p \<noteq> None"
    using path_parent [OF assms(1), of "ruta (separarPathParaNewDirEntry path)"] by metis
  have l: "listarDirectorio ?d path = Some []" using n r by (simp add: listarDirectorio_def)
  have tr: "truncarArchivo (fs s) path z = Some (ENOENT, fs s)" for z using n r by (simp add: truncarArchivo_def)
  have e: "eliminarDirectorio (fs s) path = Some (ENOENT, fs s)" "eliminarArchivo (fs s) path = Some (ENOENT, fs s)"
    using n r by (simp_all add: eliminarDirectorio_def eliminarArchivo_def)
  have rs: "responder ENOENT c = Some [error_packet ENOENT c]" for c
    by (simp add: responder_def send_no_ok_packet ENOENT_def)
  have g: "getInodo ?d 0 = Some None" by (simp add: getInodo_def)
  show ?thesis
    by (auto simp: serve_open_def abrir_def serve_release_def serve_getattr_def serve_truncate_def serve_readdir_def
        serve_rmdir_def serve_unlink_def serve_read_def serve_write_def numeroInodo_def obtenerInodo_def delete_memcached_def
        n i l tr e rs g send_no_ok_packet split: option.splits bind_splits)
qed

section \<open>Writing on a full disk\<close>

definition disk_full :: "mem \<Rightarrow> bool" where
  "disk_full d \<longleftrightarrow> (\<forall>n g. leerGroupDescriptor d n = Some g \<longrightarrow> gd_free_blocks_count d g = 0)"

lemma grupo_loop_hay:
  assumes "grupo_loop d n v = Some r"
  shows "disk_full d \<longrightarrow> \<not> fst r"
proof (rule grupo_loop.raw_induct [OF _ assms])
  fix loop d n v r
  assume IH: "\<And>d n v r. loop d n v = Some r \<Longrightarrow> disk_full d \<longrightarrow> \<not> fst r"
    and "(let lleno = (case leerGroupDescriptor d n of None \<Rightarrow> True | Some gd \<Rightarrow> gd_free_blocks_count d gd = 0) in
      if lleno
      then let nro1 = n + 1 in
        if nro1 = cantidadDeGrupos d
        then if v then Some (False, nro1) else loop d 0 True
        else loop d nro1 v
      else Some (True, n)) = Some r"
  then show "disk_full d \<longrightarrow> \<not> fst r"
    using IH [of d 0 True r] IH [of d "n + 1" v r]
    by (auto simp: Let_def disk_full_def split: if_splits option.splits)
qed

lemma getBloqueLibre_full: "getBloqueLibre f = Some (b, f') \<Longrightarrow> disk_full (disk f) \<Longrightarrow> b = 0 \<and> disk f' = disk f"
  by (auto simp: getBloqueLibre_def split: bind_splits if_splits dest!: grupo_loop_hay)

lemma direct_only:
  assumes "tamanioDeBloque d = push_bit k 1024" and "k \<le> 4" and "n < 12"
  shows "\<not> esIndireccionSimple d n" "\<not> esIndireccionDoble d n" "\<not> esIndireccionTriple d n"
proof -
  have k: "k \<in> {0, 1, 2, 3, 4}" using assms(2) by auto
  have "unat (cantPtr d) = 256 * 2 ^ k" using k assms(1) by (auto simp: cantPtr_def unat_div)
  moreover from this have "unat (12 + cantPtr d) = 12 + 256 * 2 ^ k" using k by (auto simp: unat_word_ariths)
  ultimately show "\<not> esIndireccionSimple d n" "\<not> esIndireccionDoble d n" "\<not> esIndireccionTriple d n"
    using assms(3) by (auto simp: esIndireccionSimple_def esIndireccionDoble_def esIndireccionTriple_def
        word_less_nat_alt word_le_nat_alt)
qed

lemma agregar_full:
  assumes "agregarBloqueNuevo f ino = Some (e, f')" and "disk_full (disk f)"
    and "tamanioDeBloque (disk f) = push_bit k 1024" and "k \<le> 4" and "cantidadDeBloques (disk f) ino < 12"
  shows "disk f' = disk f"
proof -
  have "manejarBloquesIndireccionesParaAgregar f ino (cantidadDeBloques (disk f) ino) = Some (0, f)"
    using direct_only [OF assms(3,4,5)]
    by (simp add: manejarBloquesIndireccionesParaAgregar_def agregarSimple_def agregarDoble_def agregarTriple_def Let_def)
  then show ?thesis using assms(1) getBloqueLibre_full [OF _ assms(2)]
    by (auto simp: agregarBloqueNuevo_def split: bind_splits if_splits)
qed

lemma agrandar_hasta_full:
  assumes "agrandar_hasta f ino final = Some f'"
  shows "disk_full (disk f) \<and> tamanioDeBloque (disk f) = push_bit k 1024 \<and> k \<le> 4 \<and> cantidadDeBloques (disk f) ino < 12 \<longrightarrow>
    final < cantidadDeBloques (disk f) ino" (is "?A f ino \<longrightarrow> ?B f ino final")
proof (rule agrandar_hasta.raw_induct [OF _ assms])
  fix loop f ino final f'
  assume IH: "\<And>f ino final f'. loop f ino final = Some f' \<Longrightarrow> ?A f ino \<longrightarrow> ?B f ino final"
    and step: "(if cantidadDeBloques (disk f) ino \<le> final
      then Option.bind (agregarBloqueNuevo f ino) (\<lambda>(_, f'). loop f' ino final) else Some f) = Some f'"
  show "?A f ino \<longrightarrow> ?B f ino final"
  proof (intro impI, rule ccontr)
    assume a: "?A f ino" and b: "\<not> ?B f ino final"
    then obtain e f1 where f1: "agregarBloqueNuevo f ino = Some (e, f1)" "loop f1 ino final = Some f'"
      using step by (auto simp: not_less split: bind_splits)
    then have "disk f1 = disk f" using agregar_full a by blast
    then show False using IH [OF f1(2)] a b by simp
  qed
qed

text \<open>
  C19. A write never returns on a full disk: when no group has a free block and the write needs a block more than the
  file has (still among its direct blocks), \<open>serve_write\<close> does not return: the loop that adds blocks does not look at
  the error code of \<open>agregarBloqueNuevo\<close>.
\<close>

theorem write_full_disk:
  assumes "disk_full (disk (fs s))" and "tamanioDeBloque (disk (fs s)) = push_bit k 1024" and "k \<le> 4"
    and "numeroInodo (disk (fs s)) (wt_path m) = Some n" and "inodo_at (disk (fs s)) n = Some ino"
    and "cantidadDeBloques (disk (fs s)) ino < 12"
    and "cantidadDeBloques (disk (fs s)) ino \<le> nroBloqueDentroDelInodo (disk (fs s)) (wt_offset m + wt_size m - 1)"
  shows "serve_write s m = None"
proof -
  let ?fin = "nroBloqueDentroDelInodo (disk (fs s)) (wt_offset m + wt_size m - 1)"
  have "agrandar_hasta (fs s) ino ?fin = None"
    using agrandar_hasta_full [of "fs s" ino ?fin _ k] assms by (cases "agrandar_hasta (fs s) ino ?fin") auto
  moreover have "obtenerInodo (disk (fs s)) n = Some (Some ino)"
    using assms(5) by (auto simp: inodo_at_def obtenerInodo_def split: bind_splits)
  ultimately show ?thesis using assms(4) by (auto simp: serve_write_def split: bind_splits)
qed

section \<open>Witnesses\<close>

text \<open>A server on the disk of \<open>Paths\<close>, nothing open, without a cache.\<close>

definition demo_server :: "unit server" where
  "demo_server = \<lparr>fs = \<lparr>disk = demo_fs, nro_de_grupo = 0\<rparr>, adm = inicializar_administracion,
     rcache = \<lparr>lib = None, conn = ()\<rparr>, generated_client_id = 0\<rparr>"

lemma demo_server_simps [simp]: "disk (fs demo_server) = demo_fs" "lib (rcache demo_server) = None"
  "adm demo_server = inicializar_administracion"
  by (simp_all add: demo_server_def)

theorem missing_path_witness:
  "serve_open demo_server \<lparr>op_nipcType = 1, op_client_id = 7, op_path = str ''/b'', op_flags = 0\<rparr> =
     Some ([error_packet ENOENT 7], demo_server)"
proof -
  have "resolve demo_tree 2 (string_split (str ''/b'') SEPARADOR) = 0" by code_simp
  moreover have "fs_tree (disk (fs demo_server)) demo_tree {2, 3}" by (simp add: demo_fs_tree)
  ultimately show ?thesis using missing_path [of demo_server demo_tree "{2, 3}" "str ''/b''"] by simp
qed

lemma demo_file_number: "numeroInodo demo_fs (str ''/a'') = Some 3"
proof -
  have "resolve demo_tree 2 (string_split (str ''/a'') SEPARADOR) = 3" by code_simp
  then show ?thesis using path_number [OF demo_fs_tree] by (simp add: numeroInodo_def)
qed

lemma demo_file_facts: "cantidadDeBloques demo_fs 5376 = 1" "nroBloqueDentroDelInodo demo_fs x = x div 1024"
  by (simp_all add: cantidadDeBloques_def demo_fs_facts demo_fs_super nroBloqueDentroDelInodo_def)

theorem write_full_disk_witness:
  "serve_write demo_server \<lparr>wt_nipcType = 3, wt_client_id = 7, wt_path = str ''/a'', wt_data = [1, 2], wt_size = 2,
     wt_offset = 1023\<rparr> = None"
proof -
  have "disk_full demo_fs"
    by (auto simp: disk_full_def leerGroupDescriptor_def demo_fs_super split: if_splits)
  then show ?thesis using demo_file_number demo_fs_facts demo_fs_super demo_file_facts
    by (intro write_full_disk [where k = 0 and n = 3 and ino = 5376]) simp_all
qed

end
