(* ===== verification/Reads.thy ===== *)
theory Reads
  imports Requests
begin

text \<open>
  Reading a file: the blocks of a range of bytes, the cache of blocks, and what \<open>serve_read\<close> answers.
\<close>

section \<open>The blocks of a range\<close>

text \<open>The block number of a logical block of a file, and a byte of the file.\<close>

definition blk :: "mem \<Rightarrow> nat \<Rightarrow> nat \<Rightarrow> u32" where
  "blk d ino i = rd32 d (the (getPtrNroBloqueLogicoDentroInodo d ino (of_nat i)))"

definition file_addr :: "mem \<Rightarrow> nat \<Rightarrow> nat \<Rightarrow> nat" where
  "file_addr d ino x = (let bs = unat (tamanioDeBloque d) in obtenerBloque d (blk d ino (x div bs)) + x mod bs)"

definition file_byte :: "mem \<Rightarrow> nat \<Rightarrow> nat \<Rightarrow> byte" where
  "file_byte d ino x = d (file_addr d ino x)"

lemma u32_lt: "unat (w :: u32) < 4294967296"
  using unsigned_less [where w = w] by simp

lemma unat_pred: "0 < (n :: u32) \<Longrightarrow> unat (n - 1) = unat n - 1"
proof -
  assume "0 < n"
  then have "0 < unat n" by (simp add: unat_gt_0)
  then have "1 \<le> n" by (simp add: word_le_nat_alt)
  then show ?thesis by (simp add: unat_sub)
qed

lemma numeros_loop_blocks:
  assumes "\<forall>i \<le> b. getPtrNroBloqueLogicoDentroInodo d ino (of_nat i) \<noteq> None" and "Suc b < 2 ^ 32" and "a \<le> Suc b"
  shows "numeros_loop d ino (of_nat a) (of_nat b) acc = Some (acc @ map (blk d ino) [a..<Suc b])"
  using assms(3)
proof (induction arbitrary: acc rule: inc_induct)
  case base
  have "\<not> (of_nat (Suc b) :: u32) \<le> of_nat b" using assms(2) by (simp add: word_le_nat_alt del: of_nat_Suc)
  then show ?case by (subst numeros_loop.simps) simp
next
  case (step i)
  then have "i \<le> b" by simp
  then obtain p where p: "getPtrNroBloqueLogicoDentroInodo d ino (of_nat i) = Some p" using assms(1) by blast
  have le: "(of_nat i :: u32) \<le> of_nat b" using \<open>i \<le> b\<close> assms(2) by (simp add: word_le_nat_alt)
  have suc: "(of_nat i :: u32) + 1 = of_nat (Suc i)" by simp
  have "[i..<Suc b] = i # [Suc i..<Suc b]" using \<open>i \<le> b\<close> by (simp add: upt_conv_Cons del: upt_Suc)
  then show ?case using step.IH [of "acc @ [rd32 d p]"] le p
    by (subst numeros_loop.simps) (simp add: suc blk_def del: of_nat_Suc upt_Suc)
qed

lemma block_size_pos:
  assumes "tamanioDeBloque d = push_bit k 1024" and "k \<le> 4"
  shows "1024 \<le> unat (tamanioDeBloque d)" "unat (tamanioDeBloque d) \<le> 16384"
proof -
  have "k \<in> {0, 1, 2, 3, 4}" using assms(2) by auto
  then show "1024 \<le> unat (tamanioDeBloque d)" "unat (tamanioDeBloque d) \<le> 16384" using assms(1) by auto
qed

lemma numeros_blocks:
  assumes "tamanioDeBloque d = push_bit k 1024" and "k \<le> 4" and "0 < n" and "unat off + unat n < 2 ^ 32"
  shows "numerosDeBloques d ino off n =
    Some (map (blk d ino) [unat off div unat (tamanioDeBloque d)..<Suc ((unat off + unat n - 1) div unat (tamanioDeBloque d))])"
proof -
  let ?B = "unat (tamanioDeBloque d)"
  note B = block_size_pos [OF assms(1,2)]
  have n: "0 < unat n" using assms(3) by (simp add: unat_gt_0)
  have "unat (off + n) = unat off + unat n" using assms(4) by (simp add: unat_word_ariths)
  then have e: "unat (off + n - 1) = unat off + unat n - 1" using n by (simp add: unat_sub word_le_nat_alt)
  have "nroBloqueDentroDelInodo d x = of_nat (unat x div ?B)" for x
    by (simp add: nroBloqueDentroDelInodo_def unat_div [symmetric])
  then have w: "nroBloqueDentroDelInodo d off = of_nat (unat off div ?B)"
    "nroBloqueDentroDelInodo d (off + n - 1) = of_nat ((unat off + unat n - 1) div ?B)"
    by (metis e)+
  let ?b = "(unat off + unat n - 1) div ?B"
  have lt: "?b * ?B < 2 ^ 32" using assms(4) by (metis div_times_less_eq_dividend less_imp_diff_less order_le_less_trans)
  have "getPtrNroBloqueLogicoDentroInodo d ino (of_nat i) \<noteq> None" if "i \<le> ?b" for i
  proof -
    have l: "i * ?B < 2 ^ 32" using that lt by (meson mult_le_mono1 order_le_less_trans)
    then have "unat (of_nat (i * ?B) :: u32) = i * ?B" by (rule unat_of_nat_small)
    moreover have "i < 2 ^ 32" using l B by (metis mult_le_mono2 nat_mult_1_right order.trans order_le_less_trans one_le_numeral)
    ultimately have "nroBloqueDentroDelInodo d (of_nat (i * ?B)) = of_nat i"
      using B by (intro word_unat_eq_iff [THEN iffD2]) (simp add: nroBloqueDentroDelInodo_def unat_div del: of_nat_mult)
    then show ?thesis using addressing_total [OF assms(1,2), of ino "of_nat (i * ?B)"] by auto
  qed
  moreover have "Suc ?b < 2 ^ 32"
  proof -
    have "?b * 1024 < 2 ^ 32" using lt mult_le_mono2 [OF B(1), of ?b] by linarith
    then show ?thesis by simp
  qed
  moreover have "unat off div ?B \<le> Suc ?b" using n by (intro le_SucI div_le_mono) simp
  ultimately show ?thesis unfolding numerosDeBloques_def w by (subst numeros_loop_blocks) auto
qed

section \<open>The cache of blocks\<close>

text \<open>
  What the file server relies on of memcached, for the keys that its protocol allows (1 to 250 bytes without control characters and white
  space, \<open>doc/protocol.txt\<close>): storing a value under one key does not change what the other keys answer, and the key itself
  answers the new value, or the one it had, or nothing. Whether \<open>add\<close> replaces a value that is there is left
  open: memcached's own engine does not, and the engine of \<open>rc\<close> ignores the operation.
\<close>

definition valid_key :: "buffer \<Rightarrow> bool" where
  "valid_key k \<longleftrightarrow> k \<noteq> [] \<and> length k \<le> 250 \<and> list_all (\<lambda>c. 32 < c \<and> c \<noteq> 127) k"

definition memcached_laws :: "'c memcached \<Rightarrow> bool" where
  "memcached_laws mc \<longleftrightarrow> (\<forall>c k v k' w. valid_key k \<and> valid_key k' \<and> mc_get mc (mc_add mc c k v) k' = Some w \<longrightarrow>
     (k' = k \<and> w = v) \<or> mc_get mc c k' = Some w)"

text \<open>The keys of the server, block numbers in decimal, are such keys.\<close>

lemma digits_valid: "list_all (\<lambda>c. 32 < c \<and> c \<noteq> 127) (digits_of n)"
proof (induction n rule: digits_of.induct)
  case (1 n)
  have d: "32 < (of_nat (48 + i) :: byte) \<and> (of_nat (48 + i) :: byte) \<noteq> 127" if "i < 10" for i :: nat
  proof -
    have "unat (of_nat (48 + i) :: byte) = 48 + i" using that by (simp add: unsigned_of_nat take_bit_nat_eq_self del: of_nat_add)
    then show ?thesis using that by (auto simp: word_less_nat_alt simp del: of_nat_add)
  qed
  show ?case using 1 d [of n] d [of "n mod 10"] by (subst digits_of.simps) simp
qed

lemma length_digits_le: "n < 10 ^ k \<Longrightarrow> 0 < k \<Longrightarrow> length (digits_of n) \<le> k"
proof (induction k arbitrary: n)
  case (Suc k)
  show ?case
  proof (cases "n < 10")
    case False
    then have "0 < k" using Suc.prems(1) by (cases k) auto
    moreover have "n div 10 < 10 ^ k" using Suc.prems(1) by (simp add: div_less_iff_less_mult mult.commute)
    ultimately show ?thesis using False Suc.IH by (subst digits_of.simps) simp
  qed (subst digits_of.simps, simp)
qed simp

lemma block_key_valid: "valid_key (string_from_uint32 n)"
proof -
  have "unat n < 10 ^ 10" using u32_lt [of n] by simp
  then have "length (digits_of (unat n)) \<le> 10" by (rule length_digits_le) simp
  then show ?thesis using digits_valid [of "unat n"] digits_of_not_Nil by (simp add: valid_key_def string_from_uint32_def)
qed

lemma block_added:
  assumes "memcached_laws mc" and "traerBloqueDeCache mc (mc_add mc c (string_from_uint32 n) v) m = Some w"
  shows "m = n \<and> w = v \<or> traerBloqueDeCache mc c m = Some w"
  using assms block_key_valid string_from_uint32_inject unfolding memcached_laws_def traerBloqueDeCache_def by meson

text \<open>The cache holds blocks of the disk.\<close>

definition coherent :: "'c cache_state \<Rightarrow> mem \<Rightarrow> bool" where
  "coherent k d \<longleftrightarrow> (\<forall>mc. lib k = Some mc \<longrightarrow> memcached_laws mc \<and>
     (\<forall>n b. traerBloqueDeCache mc (conn k) n = Some b \<longrightarrow> b = traerBloqueDeDisco d n))"

lemma length_traer [simp]: "length (traerBloqueDeDisco d n) = unat (tamanioDeBloque d)"
  by (simp add: traerBloqueDeDisco_def)

lemma coherent_add:
  assumes "coherent k d" and "lib k = Some mc"
  shows "\<exists>c. guardarBloqueEnCache mc d (conn k) n (traerBloqueDeDisco d n) = Some c \<and> coherent (k\<lparr>conn := c\<rparr>) d"
proof -
  let ?c = "mc_add mc (conn k) (string_from_uint32 n) (traerBloqueDeDisco d n)"
  have "guardarBloqueEnCache mc d (conn k) n (traerBloqueDeDisco d n) = Some ?c"
    by (simp add: guardarBloqueEnCache_def read_buf_def)
  moreover have "coherent (k\<lparr>conn := ?c\<rparr>) d"
    using assms block_added [of mc "conn k" n] by (fastforce simp: coherent_def)
  ultimately show ?thesis by blast
qed

text \<open>One step of \<open>traer_bloques\<close>.\<close>

definition traer_uno :: "mem \<Rightarrow> 'c cache_state \<Rightarrow> u32 \<Rightarrow> (buffer \<times> 'c cache_state) option" where
  "traer_uno d k n = (case lib k of
        None \<Rightarrow> Some (traerBloqueDeDisco d n, k)
      | Some mc \<Rightarrow> (case traerBloqueDeCache mc (conn k) n of
            Some bloque \<Rightarrow> Some (bloque, k)
          | None \<Rightarrow> do {
              c \<leftarrow> guardarBloqueEnCache mc d (conn k) n (traerBloqueDeDisco d n);
              Some (traerBloqueDeDisco d n, k\<lparr>conn := c\<rparr>) }))"

lemma traer_uno_coherent:
  assumes "coherent k d"
  shows "\<exists>k1. traer_uno d k n = Some (traerBloqueDeDisco d n, k1) \<and> coherent k1 d"
proof (cases "lib k")
  case lib: (Some mc)
  show ?thesis
  proof (cases "traerBloqueDeCache mc (conn k) n")
    case None
    then show ?thesis using coherent_add [OF assms lib, of n] lib by (auto simp: traer_uno_def)
  next
    case (Some b)
    then show ?thesis using assms lib by (auto simp: coherent_def traer_uno_def)
  qed
qed (use assms in \<open>auto simp: traer_uno_def\<close>)

lemma traer_bloques_coherent:
  "coherent k d \<Longrightarrow> \<exists>k'. traer_bloques d k ns = Some (map (traerBloqueDeDisco d) ns, k') \<and> coherent k' d"
proof (induction ns arbitrary: k)
  case (Cons n ns)
  obtain k1 where k1: "traer_uno d k n = Some (traerBloqueDeDisco d n, k1)" "coherent k1 d"
    using traer_uno_coherent [OF Cons.prems] by blast
  obtain k' where "traer_bloques d k1 ns = Some (map (traerBloqueDeDisco d) ns, k')" "coherent k' d"
    using Cons.IH [OF k1(2)] by blast
  then show ?case using k1(1) by (simp add: traer_uno_def [symmetric])
qed simp

section \<open>Copying\<close>

lemma length_concat_blocks: "\<forall>b \<in> set bs. length b = B \<Longrightarrow> length (concat bs) = length bs * B"
  by (induction bs) auto

lemma concat_nth:
  "\<forall>b \<in> set bs. length b = B \<Longrightarrow> j < length bs * B \<Longrightarrow> concat bs ! j = bs ! (j div B) ! (j mod B)"
proof (induction bs arbitrary: j)
  case (Cons b bs)
  show ?case
  proof (cases "j < B")
    case False
    moreover have "0 < B" using False Cons.prems(2) by (cases B) auto
    ultimately have "j div B = Suc ((j - B) div B)" "j mod B = (j - B) mod B"
      by (simp_all add: le_div_geq le_mod_geq)
    then show ?thesis using False Cons by (simp add: nth_append)
  qed (use Cons in \<open>simp add: nth_append\<close>)
qed simp

text \<open>From a block boundary the copying loop concatenates the blocks and cuts the last one.\<close>

lemma copiar_aligned:
  assumes B_def: "B = unat (tamanioDeBloque d)" and B: "0 < B" and "desplazamientoDentroDelBloque d off = 0" and "0 < n"
    and cant: "cant = (unat n - 1) div B + 1"
  shows "\<forall>b \<in> set bs. length b = B \<Longrightarrow> i + length bs = cant \<Longrightarrow>
    copiar_bloques d off n cant i bs = Some (take (unat n - i * B) (concat bs))"
proof (induction bs arbitrary: i)
  case (Cons b bs)
  have n: "0 < unat n" using assms(4) by (simp add: unat_gt_0)
  have lt: "(unat n - 1) mod B < B" using B by simp
  have "unat (desplazamientoDentroDelBloque d (n - 1)) = (unat n - 1) mod B"
    using unat_pred [OF assms(4)] by (simp add: desplazamientoDentroDelBloque_def unat_mod B_def)
  then have ln: "unat (desplazamientoDentroDelBloque d (n - 1) + 1) = (unat n - 1) mod B + 1"
    using lt u32_lt [of "tamanioDeBloque d"] by (simp add: unat_word_ariths B_def)
  have dm: "(unat n - 1) div B * B + (unat n - 1) mod B = unat n - 1" by simp
  have rest: "copiar_bloques d off n cant (i + 1) bs = Some (take (unat n - (i + 1) * B) (concat bs))"
    using Cons by auto
  show ?case
  proof (cases "i = cant - 1")
    case True
    then have "bs = []" using Cons.prems cant by auto
    moreover have "i * B = (unat n - 1) div B * B" using True cant by simp
    then have "unat n - i * B = (unat n - 1) mod B + 1" using dm n(1) by linarith
    moreover note this
    moreover have "(unat n - 1) mod B + 1 \<le> B" using lt by (simp add: Suc_leI)
    ultimately show ?thesis using True rest ln assms(3) Cons.prems B by (simp add: read_buf_def)
  next
    case False
    then have "Suc i \<le> (unat n - 1) div B" using Cons.prems(2) cant by simp
    then have "Suc i * B \<le> unat n - 1" using dm by (metis div_times_less_eq_dividend mult_le_mono1 order_trans)
    then have "B \<le> unat n - i * B" "unat n - i * B - B = unat n - Suc i * B" by simp_all
    then show ?thesis using False rest assms(3) Cons.prems B B_def by (simp add: read_buf_def Let_def)
  qed
qed simp

lemma lock_total:
  assumes "open_rep st f"
  shows "\<exists>p st'. obtener_o_crear_archivo_abierto st m = Some (p, st') \<and> open_rep st' f"
proof -
  obtain ps ns where t: "table_rep st ps ns" "f = cuenta ns" using assms by (auto simp: open_rep_def)
  show ?thesis using table_entry [OF t(1), of m] open_repI t(2) by metis
qed

section \<open>What a read answers\<close>

text \<open>A range that starts at a block boundary or lies in one block.\<close>

definition in_reach :: "mem \<Rightarrow> u32 \<Rightarrow> u32 \<Rightarrow> bool" where
  "in_reach d off n \<longleftrightarrow> (let B = unat (tamanioDeBloque d) in unat off mod B = 0 \<or> unat off mod B + unat n \<le> B)"

text \<open>The blocks of a range, counted from the block of its first byte, and the bytes they hold.\<close>

lemma range_blocks:
  assumes bs: "tamanioDeBloque d = push_bit k 1024" "k \<le> 4" and n: "0 < n" and le: "unat off + unat n < 2 ^ 32"
    and nums: "numerosDeBloques d ino off n = Some ns" and B: "B = unat (tamanioDeBloque d)"
  shows "ns = map (blk d ino) [unat off div B..<Suc (unat off div B + (unat off mod B + unat n - 1) div B)]"
proof -
  have B0: "0 < B" using block_size_pos [OF bs] by (simp add: B)
  have "0 < unat n" using n by (simp add: unat_gt_0)
  then have "unat off + unat n - 1 = (unat off mod B + unat n - 1) + unat off div B * B"
    using div_mult_mod_eq [of "unat off" B] by linarith
  then have "(unat off + unat n - 1) div B = unat off div B + (unat off mod B + unat n - 1) div B" using B0 by simp
  then show ?thesis using numeros_blocks [OF bs n le, of ino] nums by (simp add: B)
qed

lemma block_bytes:
  assumes "ns = map (blk d ino) [A..<m]" and B: "B = unat (tamanioDeBloque d)" "0 < B" and j: "j < length ns * B"
  shows "map (traerBloqueDeDisco d) ns ! (j div B) ! (j mod B) = file_byte d ino (A * B + j)"
proof -
  have "j div B < length ns" using j by (simp add: less_mult_imp_div_less)
  moreover from this have "ns ! (j div B) = blk d ino (A + j div B)" by (simp add: assms(1))
  ultimately show ?thesis using B(2) by (simp add: file_byte_def file_addr_def Let_def traerBloqueDeDisco_def B(1) [symmetric])
qed

text \<open>A range from the start of a block on.\<close>

lemma copiar_from_start:
  assumes B: "B = unat (tamanioDeBloque d)" "0 < B" and n: "0 < n" and z: "unat off mod B = 0"
    and ns: "ns = map (blk d ino) [unat off div B..<Suc (unat off div B + (unat n - 1) div B)]"
  shows "copiar_bloques d off n (length ns) 0 (map (traerBloqueDeDisco d) ns) = Some (map (\<lambda>i. file_byte d ino (unat off + i)) [0..<unat n])"
proof -
  let ?bl = "map (traerBloqueDeDisco d) ns"
  have len: "\<forall>b \<in> set ?bl. length b = B" by (simp add: B(1))
  have c: "length ns = (unat n - 1) div B + 1" by (simp add: ns)
  have "unat (desplazamientoDentroDelBloque d off) = 0" using z by (simp add: desplazamientoDentroDelBloque_def unat_mod B(1))
  then have "desplazamientoDentroDelBloque d off = 0" by (simp only: unat_eq_0)
  then have "copiar_bloques d off n (length ns) 0 ?bl = Some (take (unat n - 0 * B) (concat ?bl))"
    by (rule copiar_aligned [OF B _ n c]) (use len in auto)
  moreover have big: "unat n \<le> length ns * B"
    using dividend_less_times_div [OF B(2), of "unat n - 1"] n c by (simp add: algebra_simps unat_gt_0)
  have "take (unat n) (concat ?bl) = map (\<lambda>i. file_byte d ino (unat off + i)) [0..<unat n]"
  proof (rule nth_equalityI)
    show "length (take (unat n) (concat ?bl)) = length (map (\<lambda>i. file_byte d ino (unat off + i)) [0..<unat n])"
      using big length_concat_blocks [OF len] by simp
    fix j assume "j < length (take (unat n) (concat ?bl))"
    then have j: "j < unat n" "j < length ?bl * B" using big by auto
    moreover have "unat off div B * B = unat off" using z by auto
    ultimately show "take (unat n) (concat ?bl) ! j = map (\<lambda>i. file_byte d ino (unat off + i)) [0..<unat n] ! j"
      using concat_nth [OF len j(2)] block_bytes [OF ns B, of j] by simp
  qed
  ultimately show ?thesis by simp
qed

text \<open>A range inside of one block.\<close>

lemma copiar_inside:
  assumes B: "B = unat (tamanioDeBloque d)" and n: "0 < n" and z: "unat off mod B \<noteq> 0" and one: "unat off mod B + unat n \<le> B"
  shows "copiar_bloques d off n 1 0 [traerBloqueDeDisco d (blk d ino (unat off div B))] =
    Some (map (\<lambda>i. file_byte d ino (unat off + i)) [0..<unat n])"
proof -
  define A r where "A = unat off div B" and "r = unat off mod B"
  have n1: "0 < unat n" using n by (simp add: unat_gt_0)
  have "unat (desplazamientoDentroDelBloque d (n - 1) + 1) = unat n"
    using unat_pred [OF n] one n1 z u32_lt [of n]
    by (simp add: desplazamientoDentroDelBloque_def unat_mod unat_word_ariths B [symmetric])
  moreover have "(unat off + i) div B = A \<and> (unat off + i) mod B = unat off mod B + i" if "i < unat n" for i
  proof -
    have "unat off + i = A * B + (r + i)" by (simp add: A_def r_def)
    moreover have "r + i < B" using that one unfolding r_def by linarith
    moreover from this have "(A * B + (r + i)) div B = A" "(A * B + (r + i)) mod B = r + i"
      using div_mult_self3 [of B A "r + i"] mod_mult_self3 [of A B "r + i"] by simp_all
    ultimately show ?thesis by (simp only: r_def)
  qed
  moreover have "unat (desplazamientoDentroDelBloque d off) = unat off mod B"
    by (simp add: desplazamientoDentroDelBloque_def unat_mod B)
  ultimately show ?thesis using one
    by (auto simp: A_def Let_def B [symmetric] read_buf_def traerBloqueDeDisco_def file_byte_def file_addr_def intro!: nth_equalityI)
qed

lemma copiar_blocks:
  assumes bs: "tamanioDeBloque d = push_bit k 1024" "k \<le> 4" and n: "0 < n" and le: "unat off + unat n < 2 ^ 32"
    and nums: "numerosDeBloques d ino off n = Some ns"
  shows "if in_reach d off n
    then copiar_bloques d off n (length ns) 0 (map (traerBloqueDeDisco d) ns) =
      Some (map (\<lambda>i. file_byte d ino (unat off + i)) [0..<unat n])
    else copiar_bloques d off n (length ns) 0 (map (traerBloqueDeDisco d) ns) = None"
proof -
  define B r where B: "B = unat (tamanioDeBloque d)" and r: "r = unat off mod B"
  have B0: "0 < B" using block_size_pos [OF bs] by (simp add: B)
  have n1: "0 < unat n" using n by (simp add: unat_gt_0)
  note ns = range_blocks [OF bs n le nums B, folded r]
  have reach: "in_reach d off n \<longleftrightarrow> r = 0 \<or> r + unat n \<le> B" by (simp add: in_reach_def Let_def B r)
  consider (start) "r = 0" | (inside) "r \<noteq> 0" "r + unat n \<le> B" | (across) "r \<noteq> 0" "\<not> r + unat n \<le> B" by blast
  then show ?thesis
  proof cases
    case start
    then show ?thesis using copiar_from_start [OF B B0 n, of off ns ino] ns reach r by simp
  next
    case inside
    then have "r + unat n - 1 < B" using n1 by linarith
    then show ?thesis using copiar_inside [OF B n, of off ino] inside ns reach r by simp
  next
    case across
    then have "1 \<le> (r + unat n - 1) div B" using B0 by (simp add: less_eq_div_iff_mult_less_eq)
    then have "2 \<le> length ns" by (simp add: ns)
    then obtain a b ms where "ns = a # b # ms" by (cases ns; cases "tl ns") auto
    moreover have "unat (desplazamientoDentroDelBloque d off) = r" by (simp add: desplazamientoDentroDelBloque_def unat_mod B r)
    ultimately show ?thesis using across by (simp add: reach read_buf_def B)
  qed
qed

text \<open>How a size is cut at the end of the file.\<close>

lemma cut_size:
  fixes size off sz :: u32
  assumes "unat off \<le> unat size" and "unat off + unat sz < 2 ^ 32"
  shows "unat (if size < off + sz then size - off else sz) = min (unat sz) (unat size - unat off)"
proof -
  have "unat (off + sz) = unat off + unat sz" using assms(2) by (simp add: unat_word_ariths)
  moreover have "unat (size - off) = unat size - unat off" using assms(1) by (simp add: unat_sub word_le_nat_alt)
  ultimately show ?thesis by (auto simp: word_less_nat_alt)
qed

text \<open>The read after the size is cut at the end of the file.\<close>

lemma serve_read_eff:
  assumes "tamanioDeBloque (disk (fs s)) = push_bit k 1024" and "k \<le> 4" and "open_rep (adm s) f"
    and "coherent (rcache s) (disk (fs s))"
    and "numeroInodo (disk (fs s)) (rd_path m) = Some nro" and "inodo_at (disk (fs s)) nro = Some ino"
    and n: "n = (if ino_size (disk (fs s)) ino < rd_offset m + rd_size m
      then ino_size (disk (fs s)) ino - rd_offset m else rd_size m)"
    and "0 < n" and le: "unat (rd_offset m) + unat n < 2 ^ 32"
  shows "if in_reach (disk (fs s)) (rd_offset m) n
    then \<exists>a c. serve_read s m =
        Some ([new_nipc_read_response
          (Some (map (\<lambda>i. file_byte (disk (fs s)) ino (unat (rd_offset m) + i)) [0..<unat n]))
          n (rd_client_id m)], s\<lparr>adm := a, rcache := c\<rparr>) \<and>
        open_rep a f \<and> coherent c (disk (fs s))
    else serve_read s m = None"
proof -
  let ?d = "disk (fs s)"
  obtain ns where ns: "numerosDeBloques ?d ino (rd_offset m) n = Some ns"
    using numeros_blocks [OF assms(1,2,8) le] by blast
  moreover obtain c where c: "traer_bloques ?d (rcache s) ns = Some (map (traerBloqueDeDisco ?d) ns, c)" "coherent c ?d"
    using traer_bloques_coherent [OF assms(4)] by blast
  moreover obtain p a where a: "obtener_o_crear_archivo_abierto (adm s) nro = Some (p, a)" "open_rep a f"
    using lock_total [OF assms(3)] by blast
  moreover obtain q b where b: "obtener_o_crear_archivo_abierto a nro = Some (q, b)" "open_rep b f"
    using lock_total [OF a(2)] by blast
  moreover have "getInodo ?d nro = Some (Some ino)" using assms(6) by (auto simp: inodo_at_def split: bind_splits)
  ultimately show ?thesis
    using copiar_blocks [OF assms(1,2,8) le ns] assms(5,8)
    by (auto simp: serve_read_def Let_def obtenerInodo_def bloquearLectura_def desbloquear_def n [symmetric])
qed

text \<open>A read at the end of the file.\<close>

lemma serve_read_nothing:
  assumes "open_rep (adm s) f" and "numeroInodo (disk (fs s)) (rd_path m) = Some nro" and "inodo_at (disk (fs s)) nro = Some ino"
    and "rd_offset m = ino_size (disk (fs s)) ino" and "unat (rd_offset m) + unat (rd_size m) < 2 ^ 32"
  shows "\<exists>a. serve_read s m = Some ([new_nipc_read_response None 0 (rd_client_id m)], s\<lparr>adm := a\<rparr>) \<and> open_rep a f"
proof -
  obtain p a where a: "obtener_o_crear_archivo_abierto (adm s) nro = Some (p, a)" "open_rep a f"
    using lock_total [OF assms(1)] by blast
  obtain q b where b: "obtener_o_crear_archivo_abierto a nro = Some (q, b)" "open_rep b f"
    using lock_total [OF a(2)] by blast
  have "getInodo (disk (fs s)) nro = Some (Some ino)" using assms(3) by (auto simp: inodo_at_def split: bind_splits)
  moreover have "(if ino_size (disk (fs s)) ino < rd_offset m + rd_size m then ino_size (disk (fs s)) ino - rd_offset m else rd_size m) = 0"
    using assms(4,5) by (auto simp: word_less_nat_alt unat_word_ariths unat_eq_0)
  ultimately have "serve_read s m = Some ([new_nipc_read_response None 0 (rd_client_id m)], s\<lparr>adm := b\<rparr>)"
    using a b assms(2) by (simp add: serve_read_def Let_def obtenerInodo_def bloquearLectura_def desbloquear_def)
  then show ?thesis using b(2) by blast
qed

text \<open>
  C11. Reading a file: let the table of open files be in order and let the cache, if there is one, obey the contract of memcached and hold only
  blocks as they are on the disk. A read of at least one byte at an offset inside the file, with a size that does not wrap,
  is cut at the end of the file; when the cut range starts at a block boundary or lies in one block, the answer
  is exactly the bytes of the file in it, the disk is as before and the counts and the cache stay in order; when it
  crosses a block boundary from inside a block, the server copies past the end of the first block.
\<close>

theorem read_bytes:
  assumes "tamanioDeBloque (disk (fs s)) = push_bit k 1024" and "k \<le> 4" and "open_rep (adm s) f"
    and "coherent (rcache s) (disk (fs s))"
    and "numeroInodo (disk (fs s)) (rd_path m) = Some nro" and "inodo_at (disk (fs s)) nro = Some ino"
    and "0 < rd_size m" and "rd_offset m < ino_size (disk (fs s)) ino" and "unat (rd_offset m) + unat (rd_size m) < 2 ^ 32"
    and "unat n = min (unat (rd_size m)) (unat (ino_size (disk (fs s)) ino) - unat (rd_offset m))"
  shows "if in_reach (disk (fs s)) (rd_offset m) n
    then \<exists>a c. serve_read s m =
        Some ([new_nipc_read_response
          (Some (map (\<lambda>i. file_byte (disk (fs s)) ino (unat (rd_offset m) + i)) [0..<unat n]))
          n (rd_client_id m)], s\<lparr>adm := a, rcache := c\<rparr>) \<and>
        open_rep a f \<and> coherent c (disk (fs s))
    else serve_read s m = None"
proof -
  let ?d = "disk (fs s)"
  have off: "unat (rd_offset m) < unat (ino_size ?d ino)" using assms(8) by (simp add: word_less_nat_alt)
  have "unat (if ino_size ?d ino < rd_offset m + rd_size m then ino_size ?d ino - rd_offset m else rd_size m) = unat n"
    using cut_size [of "rd_offset m" "ino_size ?d ino" "rd_size m"] off assms(9,10) by simp
  then have n: "n = (if ino_size ?d ino < rd_offset m + rd_size m then ino_size ?d ino - rd_offset m else rd_size m)"
    by (simp only: word_unat_eq_iff)
  have "0 < unat (rd_size m)" using assms(7) by (simp add: word_less_nat_alt)
  then have "0 < unat n" using assms(10) off by simp
  then have "0 < n" by (simp add: word_less_nat_alt)
  moreover have "unat (rd_offset m) + unat n < 2 ^ 32" using assms(9,10) by simp
  ultimately show ?thesis using serve_read_eff [OF assms(1-6) n] by blast
qed

text \<open>Two memcacheds that never drop a key: \<open>add\<close> of the first does not replace a value, \<open>add\<close> of the second does.\<close>

definition demo_memcached :: "(buffer \<rightharpoonup> buffer) memcached" where
  "demo_memcached = \<lparr>mc_get = (\<lambda>c. c), mc_add = (\<lambda>c k v. if c k = None then c(k \<mapsto> v) else c), mc_delete = (\<lambda>c k. c(k := None))\<rparr>"

definition replacing_memcached :: "(buffer \<rightharpoonup> buffer) memcached" where
  "replacing_memcached = demo_memcached\<lparr>mc_add := (\<lambda>c k v. c(k \<mapsto> v))\<rparr>"

lemma demo_laws: "memcached_laws demo_memcached" "memcached_laws replacing_memcached"
  by (auto simp: memcached_laws_def demo_memcached_def replacing_memcached_def split: if_splits)

text \<open>The server of \<open>Requests\<close> with a cache that holds the block of the file \<open>/a\<close>.\<close>

definition cached_server :: "(buffer \<rightharpoonup> buffer) server" where
  "cached_server = \<lparr>fs = fs demo_server, adm = inicializar_administracion, rcache = \<lparr>lib = Some demo_memcached,
     conn = [string_from_uint32 7 \<mapsto> traerBloqueDeDisco demo_fs 7]\<rparr>, generated_client_id = 0\<rparr>"

lemma cached_server_simps [simp]: "disk (fs cached_server) = demo_fs" "adm cached_server = inicializar_administracion"
  by (simp_all add: cached_server_def)

lemma cached_coherent: "coherent (rcache cached_server) demo_fs"
  using demo_laws(1) by (auto simp: coherent_def cached_server_def traerBloqueDeCache_def demo_memcached_def split: if_splits)

lemma demo_file_bytes:
  "blk demo_fs 5376 0 = 7" "file_byte demo_fs 5376 0 = 104" "file_byte demo_fs 5376 (Suc 0) = 111"
  "file_byte demo_fs 5376 (Suc (Suc 0)) = 108" "file_byte demo_fs 5376 3 = 97"
proof -
  show b: "blk demo_fs 5376 0 = 7"
    by (simp add: blk_def getPtrNroBloqueLogicoDentroInodo_def esBloqueDirecto_def demo_fs_facts)
  show "file_byte demo_fs 5376 0 = 104" "file_byte demo_fs 5376 (Suc 0) = 111"
    "file_byte demo_fs 5376 (Suc (Suc 0)) = 108" "file_byte demo_fs 5376 3 = 97" using b
    by (simp_all add: file_byte_def file_addr_def demo_fs_super obtenerBloque_def demo_fs_data)
qed

theorem read_bytes_witness:
  "\<exists>s. serve_read cached_server \<lparr>rd_nipcType = 2, rd_client_id = 7, rd_path = str ''/a'', rd_size = 5000, rd_offset = 1\<rparr> =
     Some ([new_nipc_read_response (Some (str ''ola'')) 3 7], s)"
proof -
  have "in_reach demo_fs 1 3" by (simp add: in_reach_def demo_fs_super)
  moreover have "[0..<3] = [0, 1, 2 :: nat]" by (simp add: upt_rec)
  ultimately show ?thesis
    using read_bytes [of cached_server 0 "\<lambda>_. 0"
      "\<lparr>rd_nipcType = 2, rd_client_id = 7, rd_path = str ''/a'', rd_size = 5000, rd_offset = 1\<rparr>" 3 5376 3]
      demo_file_number demo_fs_facts demo_fs_super inicializar_rep demo_file_bytes cached_coherent by (auto simp: str_def)
qed

end
