(* ===== verification/ClientCalls.thy ===== *)
theory ClientCalls
  imports Client Requests Reads
begin

text \<open>
  The client and the server together: what the callbacks of the client return over a network that delivers, and what
  the client's cache does.
\<close>

section \<open>Calls\<close>

text \<open>The server at the other end of the network: the client reads the first packet of the answer.\<close>

definition answers :: "byte \<Rightarrow> byte \<Rightarrow> byte \<Rightarrow> nipc_packet \<Rightarrow> 'c server \<Rightarrow> (nipc_packet \<times> 'c server) option" where
  "answers b b1 b2 p s = (case serveRequest b b1 b2 s p of Some (r # rs, s') \<Rightarrow> Some (r, s') | _ \<Rightarrow> None)"

datatype call = Call_open u32 | Call_create u32 | Call_release u32 | Call_unlink | Call_mkdir u32 | Call_rmdir | Call_truncate int

fun remote_call :: "'n network \<Rightarrow> ('n, 'c) client \<Rightarrow> cstr \<Rightarrow> call \<Rightarrow> ('n, 'c) result" where
  "remote_call net cl path (Call_open flags) = remote_open net cl path flags"
| "remote_call net cl path (Call_create mode) = remote_create net cl path mode"
| "remote_call net cl path (Call_release flags) = remote_release net cl path flags"
| "remote_call net cl path Call_unlink = remote_unlink net cl path"
| "remote_call net cl path (Call_mkdir mode) = remote_mkdir net cl path mode"
| "remote_call net cl path Call_rmdir = remote_rmdir net cl path"
| "remote_call net cl path (Call_truncate offset) = remote_truncate net cl path offset"

fun request_of :: "u32 \<Rightarrow> cstr \<Rightarrow> call \<Rightarrow> request" where
  "request_of cid path (Call_open flags) = Req_open (new_nipc_open cid path flags)"
| "request_of cid path (Call_create mode) = Req_create (new_nipc_create cid path mode)"
| "request_of cid path (Call_release flags) = Req_release (new_nipc_release cid path flags)"
| "request_of cid path Call_unlink = Req_unlink (new_nipc_unlink cid path)"
| "request_of cid path (Call_mkdir mode) = Req_mkdir (new_nipc_mkdir cid path mode)"
| "request_of cid path Call_rmdir = Req_rmdir (new_nipc_rmdir cid path)"
| "request_of cid path (Call_truncate offset) = Req_truncate (new_nipc_truncate cid path (word_of_int offset))"

lemma request_of_ok: "path_ok path \<Longrightarrow> request_ok (request_of cid path c)"
  by (cases c) (simp_all add: open_ok_def create_ok_def release_ok_def unlink_ok_def mkdir_ok_def rmdir_ok_def truncate_ok_def
      new_nipc_open_def new_nipc_create_def new_nipc_release_def new_nipc_unlink_def new_nipc_mkdir_def new_nipc_rmdir_def
      new_nipc_truncate_def empty_nipc_open_def empty_nipc_create_def empty_nipc_release_def empty_nipc_unlink_def
      empty_nipc_mkdir_def empty_nipc_rmdir_def empty_nipc_truncate_def)

lemma olvidar_none [simp]: "lib (remote_cache cl) = None \<Longrightarrow> olvidar cl path t = cl"
  by (simp add: olvidar_def)

lemma remote_call_shape:
  assumes "lib (remote_cache cl) = None"
  shows "remote_call net cl path c = do {
    (q, cl1) \<leftarrow> consultar net cl (serialize_request (request_of (client_id cl) path c));
    r \<leftarrow> check_ok_error q;
    Some (r, cl1) }"
proof -
  have k: "lib (remote_cache cl1) = None" if "consultar net cl p = Some (q, cl1)" for p q cl1
    using that assms by (auto simp: consultar_def split: bind_splits)
  show ?thesis
    by (cases c) (auto simp: remote_open_def remote_create_def remote_release_def remote_unlink_def remote_mkdir_def
        remote_rmdir_def remote_truncate_def Let_def dest: k intro!: Option.bind_cong)
qed

lemma consultar_serve:
  assumes "delivers net (answers b b1 b2)" and "request_ok r" and "serve b b1 b2 (cl_net cl) r = Some (q # qs, s')"
    and "packet_ok q" and "unat (pkt_data_length q) + 12 < 2 ^ 31"
  shows "consultar net cl (serialize_request r) = Some (q, cl\<lparr>cl_net := s'\<rparr>)"
proof -
  obtain p where p: "serialize_request r = Some p" "packet_ok p"
    "serveRequest b b1 b2 (cl_net cl) p = serve b b1 b2 (cl_net cl) r"
    using dispatch_ok [OF assms(2)] by blast
  then have "answers b b1 b2 p (cl_net cl) = Some (q, s')" using assms(3) by (simp add: answers_def)
  from query_delivered [OF assms(1) p(2) this assms(4,5)] show ?thesis using p(1) by (simp add: consultar_def)
qed

lemma error_packet_ok: "packet_ok (error_packet e c)" "unat (pkt_data_length (error_packet e c)) + 12 < 2 ^ 31"
  by (simp_all add: packet_ok_def error_packet_def)

lemma check_error_packet:
  assumes "0 < e" and "e < 2 ^ 31"
  shows "check_ok_error (error_packet e c) = Some (- e)"
proof -
  have "sint (word_of_int (- e) :: u32) = signed_take_bit 31 (- e)" by (simp only: signed_of_int) simp
  also have "\<dots> = - e" using assms by (intro signed_take_bit_int_eq_self) simp_all
  finally have "sint (word_of_int (- e) :: u32) = - e" .
  moreover from this have "(word_of_int (- e) :: u32) \<noteq> 0" using assms(1) by force
  ultimately show ?thesis
    by (simp add: check_ok_error_def check_error_def error_packet_def deserialize_error_def empty_nipc_error_def)
qed

text \<open>
  C22. Calls over the network: for open, create, release, unlink, mkdir, rmdir and truncate of a path, over a network that
  delivers and without a cache at the client, the callback of the client returns 0 when the server's handler
  answers OK and the negated error code when it answers an error, and the server is in the state the handler left.
\<close>

theorem client_calls:
  assumes "delivers net (answers b b1 b2)" and "path_ok path" and "lib (remote_cache cl) = None"
    and "serve b b1 b2 (cl_net cl) (request_of (client_id cl) path c) = Some (q # qs, s')"
  shows "(q = new_nipc_ok i \<longrightarrow> remote_call net cl path c = Some (0, cl\<lparr>cl_net := s'\<rparr>)) \<and>
    (q = error_packet e i \<and> 0 < e \<and> e < 2 ^ 31 \<longrightarrow> remote_call net cl path c = Some (- e, cl\<lparr>cl_net := s'\<rparr>))"
proof -
  note r = request_of_ok [OF assms(2), of "client_id cl" c]
  note call = consultar_serve [OF assms(1) r assms(4)]
  have "pkt_data_length (new_nipc_ok i) = 0" "check_ok_error (new_nipc_ok i) = Some 0"
    by (simp_all add: new_nipc_ok_def check_ok_error_def)
  then show ?thesis
    using call remote_call_shape [OF assms(3)] ok_packet_ok error_packet_ok check_error_packet by auto
qed

section \<open>Reading in pieces\<close>

lemma consultar_delivered:
  assumes "delivers net h" and "packet_ok p" and "h p (cl_net cl) = Some (r, n)" and "packet_ok r"
    and "unat (pkt_data_length r) + 12 < 2 ^ 31"
  shows "consultar net cl (Some p) = Some (r, cl\<lparr>cl_net := n\<rparr>)"
  using query_delivered [OF assms] by (simp add: consultar_def)

text \<open>The answer with some bytes of a file; no bytes is an answer without data.\<close>

definition read_answer :: "u32 \<Rightarrow> buffer \<Rightarrow> nipc_packet" where
  "read_answer cid bytes = new_nipc_read_response (if bytes = [] then None else Some bytes) (of_nat (length bytes)) cid"

lemma read_answer_ok:
  assumes "length bytes + 12 < 2 ^ 31"
  shows "packet_ok (read_answer cid bytes)" "unat (pkt_data_length (read_answer cid bytes)) = length bytes"
    "pkt_type (read_answer cid bytes) = tipo_code nipc_read_response"
    "pkt_data (read_answer cid bytes) = (if bytes = [] then None else Some bytes)"
proof -
  have l: "unat (of_nat (length bytes) :: u32) = length bytes" using assms by (intro unat_of_nat_small) simp
  then have "bytes \<noteq> [] \<Longrightarrow> (of_nat (length bytes) :: u32) \<noteq> 0" by (metis length_0_conv unat_0)
  then show "packet_ok (read_answer cid bytes)" using l assms
    by (auto simp: packet_ok_def read_answer_def new_nipc_read_response_def)
  show "unat (pkt_data_length (read_answer cid bytes)) = length bytes"
    "pkt_type (read_answer cid bytes) = tipo_code nipc_read_response"
    "pkt_data (read_answer cid bytes) = (if bytes = [] then None else Some bytes)"
    using l by (simp_all add: read_answer_def new_nipc_read_response_def)
qed

text \<open>
  A server that answers the reads of the path at the good offsets with the bytes of the file in the range, in every
  state of the invariant \<open>I\<close>, which it keeps.
\<close>

definition serves_file :: "(nipc_packet \<Rightarrow> 'n \<Rightarrow> (nipc_packet \<times> 'n) option) \<Rightarrow> ('n \<Rightarrow> bool) \<Rightarrow> (nat \<Rightarrow> bool) \<Rightarrow> cstr \<Rightarrow> buffer \<Rightarrow> bool" where
  "serves_file h I good path file \<longleftrightarrow> (\<forall>cid sz off p n.
     I n \<and> good (unat off) \<and> 0 < sz \<and> unat off + unat sz < 2 ^ 31 \<and> serialize_read (new_nipc_read cid path sz off) = Some p \<longrightarrow>
     (\<exists>n'. I n' \<and> h p n = Some (read_answer cid (take (unat sz) (drop (unat off) file)), n')))"

lemma read_query:
  assumes "delivers net h" and "serves_file h I good path file" and "path_ok path" and "length file + 12 < 2 ^ 31"
    and "I (cl_net cl)" and "good (unat off)" and "0 < sz" and "unat off + unat sz < 2 ^ 31"
  shows "\<exists>n. I n \<and> consultar net cl (serialize_read (new_nipc_read (client_id cl) path sz off)) =
    Some (read_answer (client_id cl) (take (unat sz) (drop (unat off) file)), cl\<lparr>cl_net := n\<rparr>)"
proof -
  have "read_ok (new_nipc_read (client_id cl) path sz off)"
    using assms(3) by (simp add: read_ok_def new_nipc_read_def empty_nipc_read_def)
  then obtain p where p: "serialize_read (new_nipc_read (client_id cl) path sz off) = Some p" "packet_ok p"
    using rd.ser_des by blast
  let ?b = "take (unat sz) (drop (unat off) file)"
  have "length ?b + 12 < 2 ^ 31" using assms(4) by auto
  note r = read_answer_ok [OF this]
  obtain n where n: "I n" "h p (cl_net cl) = Some (read_answer (client_id cl) ?b, n)"
    using assms(2,5-8) p(1) unfolding serves_file_def by blast
  from consultar_delivered [OF assms(1) p(2) n(2) r(1)] show ?thesis
    using p(1) r(2) n(1) \<open>length ?b + 12 < 2 ^ 31\<close> by auto
qed

text \<open>The size of a request, as numbers.\<close>

lemma sint_small: "unat w < 2 ^ 31 \<Longrightarrow> sint w = int (unat w)" for w :: u32
proof -
  assume "unat w < 2 ^ 31"
  then have "int (unat w) < int (2 ^ 31)" by (simp only: of_nat_less_iff)
  then have "uint w < 2 ^ 31" by simp
  moreover have "- (2 ^ 31) \<le> uint w" by (rule order_trans [of _ 0]) simp_all
  ultimately have "signed_take_bit 31 (uint w) = uint w" by (intro signed_take_bit_int_eq_self)
  moreover have "sint w = signed_take_bit 31 (uint w)" using sint_uint [of w] by simp
  moreover have "int (unat w) = uint w" by simp
  ultimately show ?thesis by linarith
qed

lemma request_size_nat:
  assumes "hecho < unat sz" and "unat sz < 2 ^ 31" and "unat (maximumReadWriteSize cl) < 2 ^ 31"
  shows "unat (request_size cl sz (of_nat hecho)) = min (unat (maximumReadWriteSize cl)) (unat sz - hecho)"
proof -
  have h: "unat (of_nat hecho :: u32) = hecho" using assms(1,2) by (intro unat_of_nat_small) simp
  then have d: "unat (sz - of_nat hecho) = unat sz - hecho" using assms(1) by (simp add: unat_sub word_le_nat_alt)
  then have "sint (sz - of_nat hecho) = int (unat sz - hecho)" using sint_small [of "sz - of_nat hecho"] assms(2) by simp
  moreover define M where "M = unat (maximumReadWriteSize cl)"
  moreover have "sint (maximumReadWriteSize cl) = int M" using sint_small [OF assms(3)] by (simp only: M_def)
  ultimately have "request_size cl sz (of_nat hecho) = (if M < unat sz - hecho then maximumReadWriteSize cl else sz - of_nat hecho)"
    by (simp only: request_size_def of_nat_less_iff)
  then show ?thesis by (simp add: d M_def)
qed

lemma read_round:
  assumes "bytesRead < sz" and "got \<noteq> []" and "length got + 12 < 2 ^ 31" and "length output + length got \<le> unat sz"
    and "consultar net cl (serialize_read (new_nipc_read (client_id cl) path (request_size cl sz bytesRead)
        (word_of_int (offset + sint bytesRead)))) = Some (read_answer cid got, cl1)"
  shows "read_loop net cl path sz offset bytesRead output =
    read_loop net cl1 path sz offset (bytesRead + of_nat (length got)) (output @ got)"
proof -
  note r = read_answer_ok [OF assms(3), of cid]
  have "pkt_data_length (read_answer cid got) \<noteq> 0" using r(2) assms(2) by (metis length_0_conv unat_0)
  moreover have "pkt_data_length (read_answer cid got) = of_nat (length got)"
    by (simp add: read_answer_def new_nipc_read_response_def)
  moreover have "read_buf got 0 (length got) = Some got" by (simp add: read_buf_def)
  ultimately show ?thesis using assms(1,2,4,5) r(2,3,4) by (subst read_loop.simps) simp
qed

lemma offset_word:
  assumes "a + b < 2 ^ 32"
  shows "unat (word_of_int (int a + int b) :: u32) = a + b"
proof -
  have "(word_of_int (int a + int b) :: u32) = of_nat (a + b)" by simp
  moreover have "unat (of_nat (a + b) :: u32) = a + b" using assms by (rule unat_of_nat_small)
  ultimately show ?thesis by metis
qed

text \<open>An empty answer ends the loop.\<close>

lemma read_stop:
  assumes "br < unat sz" and "unat (of_nat br :: u32) = br" and "sint (of_nat br :: u32) = int br"
    and "consultar net cl (serialize_read (new_nipc_read (client_id cl) path (request_size cl sz (of_nat br))
        (word_of_int (offset + int br)))) = Some (read_answer cid [], cl1)"
  shows "read_loop net cl path sz offset (of_nat br) output = Some (int br, output, cl1)"
proof -
  have l: "length ([] :: buffer) + 12 < 2 ^ 31" by simp
  note r = read_answer_ok [OF l, of cid]
  have "pkt_data_length (read_answer cid []) = 0" using r(2) by (metis list.size(3) unat_eq_0)
  then show ?thesis using assms r(3) by (subst read_loop.simps) (simp add: word_less_nat_alt)
qed

text \<open>After a piece of the file that does not end the read, the next offset is one the server answers.\<close>

lemma next_offset:
  assumes step: "\<forall>x. good x \<and> x + mx \<le> length file \<longrightarrow> good (x + mx)" and eof: "good (length file)" and "good (off + br)" and "0 < mx"
    and g: "got = take (min mx (sz - br)) (drop (off + br) file)" "got \<noteq> []" and more: "br + length got < sz"
  shows "good (off + (br + length got))"
proof (cases "length got = mx")
  case True
  moreover have "length got \<le> length (drop (off + br) file)" unfolding g(1) by (simp only: length_take)
  ultimately have "off + br + mx \<le> length file" using assms(4) by (simp only: length_drop)
  then show ?thesis using step assms(3) True by (metis add.assoc)
next
  case False
  then have "length got = length file - (off + br)" "off + br < length file" using more g by (auto simp: min_def split: if_splits)
  then have "off + (br + length got) = length file" by linarith
  then show ?thesis using eof by metis
qed

lemma read_loop_file:
  assumes "delivers net h" and "serves_file h I good path file" and "path_ok path" and "length file + 12 < 2 ^ 31"
    and sz: "unat sz < 2 ^ 31" and mx: "0 < unat mx" "unat mx < 2 ^ 31" and off: "off + unat sz < 2 ^ 31"
    and step: "\<And>x. good x \<Longrightarrow> x + unat mx \<le> length file \<Longrightarrow> good (x + unat mx)" and eof: "good (length file)"
  shows "br \<le> unat sz \<Longrightarrow> length (take br (drop off file)) = br \<Longrightarrow> br < unat sz \<longrightarrow> good (off + br) \<Longrightarrow>
    I (cl_net cl) \<Longrightarrow> maximumReadWriteSize cl = mx \<Longrightarrow>
    \<exists>n. I n \<and> read_loop net cl path sz (int off) (of_nat br) (take br (drop off file)) =
      Some (int (length (take (unat sz) (drop off file))), take (unat sz) (drop off file), cl\<lparr>cl_net := n\<rparr>)"
proof (induction "unat sz - br" arbitrary: br cl rule: less_induct)
  case less
  have b: "unat (of_nat br :: u32) = br" using less.prems(1) sz by (intro unat_of_nat_small) simp
  then have sb: "sint (of_nat br :: u32) = int br" using sint_small [of "of_nat br"] less.prems(1) sz by simp
  show ?case
  proof (cases "br < unat sz")
    case False
    then have "br = unat sz" using less.prems(1) by simp
    then have "read_loop net cl path sz (int off) (of_nat br) (take br (drop off file)) =
        Some (int (length (take (unat sz) (drop off file))), take (unat sz) (drop off file), cl\<lparr>cl_net := cl_net cl\<rparr>)"
      using b sb less.prems(2) by (subst read_loop.simps) (simp add: word_less_nat_alt)
    then show ?thesis using less.prems(4) by blast
  next
    case True
    let ?c = "min (unat mx) (unat sz - br)"
    let ?got = "take ?c (drop (off + br) file)"
    have c: "unat (request_size cl sz (of_nat br)) = ?c" using request_size_nat [OF True sz, of cl] mx(2) less.prems(5) by simp
    have c0: "0 < ?c" using True mx(1) by simp
    have o: "unat (word_of_int (int off + int br) :: u32) = off + br" by (rule offset_word) (use off less.prems(1) in simp)
    have "0 < request_size cl sz (of_nat br)" using c c0 by (metis unat_gt_0 word_gt_0)
    moreover have "off + br + ?c < 2 ^ 31" using off True by auto
    ultimately obtain n where n: "I n" and q: "consultar net cl (serialize_read (new_nipc_read (client_id cl) path (request_size cl sz (of_nat br))
        (word_of_int (int off + int br)))) = Some (read_answer (client_id cl) ?got, cl\<lparr>cl_net := n\<rparr>)"
      using read_query [OF assms(1-4) less.prems(4), of "word_of_int (int off + int br)" "request_size cl sz (of_nat br)"]
        less.prems(3) True unfolding c o by blast
    have lg: "length ?got + 12 < 2 ^ 31" using assms(4) by auto
    show ?thesis
    proof (cases "?got = []")
      case t: True
      then have "length (drop off file) \<le> br" using c0 by auto
      then have d: "take br (drop off file) = take (unat sz) (drop off file)" using less.prems(1) by simp
      from read_stop [OF True b sb q [unfolded t]] show ?thesis using n less.prems(2) unfolding d by metis
    next
      case f: False
      have out: "take br (drop off file) @ ?got = take (br + length ?got) (drop off file)"
        by (simp add: take_add add.commute min_def)
      have ln: "length (take (br + length ?got) (drop off file)) = br + length ?got"
        using less.prems(2) by (metis out length_append)
      have le: "br + length ?got \<le> unat sz" using True by auto
      have g: "br + length ?got < unat sz \<longrightarrow> good (off + (br + length ?got))"
        using next_offset [of good "unat mx" "file" off br ?got "unat sz"] step eof less.prems(3) True mx(1) f by blast
      have "read_loop net cl path sz (int off) (of_nat br) (take br (drop off file)) =
          read_loop net (cl\<lparr>cl_net := n\<rparr>) path sz (int off) (of_nat br + of_nat (length ?got)) (take br (drop off file) @ ?got)"
        by (rule read_round [OF _ f lg]) (use True b less.prems(2) le q sb in \<open>simp_all only: word_less_nat_alt\<close>)
      also have "\<dots> = read_loop net (cl\<lparr>cl_net := n\<rparr>) path sz (int off) (of_nat (br + length ?got)) (take (br + length ?got) (drop off file))"
        by (simp only: out of_nat_add)
      finally have e: "read_loop net cl path sz (int off) (of_nat br) (take br (drop off file)) = \<dots>" .
      have "unat sz - (br + length ?got) < unat sz - br" using f True by (cases ?got) auto
      from less.hyps [OF this le ln g, of "cl\<lparr>cl_net := n\<rparr>"] show ?thesis using n less.prems(5) unfolding e by simp
    qed
  qed
qed

text \<open>
  Reading a file through the client: over a network that delivers, from a server that answers every read at an offset
  the client gets to with the bytes of the file in the range, \<open>remote_read\<close> ends and copies exactly the bytes of the
  file from the offset on, up to the size asked for or the end of the file, and the server keeps its invariant.
\<close>

theorem remote_read_file:
  assumes "delivers net h" and "serves_file h I good path file" and "path_ok path" and "length file + 12 < 2 ^ 31"
    and "unat sz < 2 ^ 31" and "0 < unat (maximumReadWriteSize cl)" and "unat (maximumReadWriteSize cl) < 2 ^ 31"
    and "off + unat sz < 2 ^ 31"
    and "\<And>x. good x \<Longrightarrow> x + unat (maximumReadWriteSize cl) \<le> length file \<Longrightarrow> good (x + unat (maximumReadWriteSize cl))"
    and "good (length file)" and "good off" and "I (cl_net cl)"
  shows "\<exists>n. I n \<and> remote_read net cl path sz (int off) =
    Some (int (length (take (unat sz) (drop off file))), take (unat sz) (drop off file), cl\<lparr>cl_net := n\<rparr>)"
  using read_loop_file [OF assms(1-10), of 0 cl] assms(11,12) by (simp add: remote_read_def)

section \<open>Writing in pieces\<close>

text \<open>A server that keeps the offset and the data of every write, of a file that has \<open>len\<close> bytes.\<close>

definition records_writes :: "(nipc_packet \<Rightarrow> (u32 \<times> buffer) list \<Rightarrow> (nipc_packet \<times> (u32 \<times> buffer) list) option) \<Rightarrow>
    cstr \<Rightarrow> u32 \<Rightarrow> bool" where
  "records_writes h path len \<longleftrightarrow>
     (\<forall>m p n. write_ok m \<and> serialize_write m = Some p \<longrightarrow> h p n = Some (new_nipc_ok (wt_client_id m), n @ [(wt_offset m, wt_data m)])) \<and>
     (\<forall>cid p n. serialize_getattr (new_nipc_getattr cid path) = Some p \<longrightarrow>
        (\<exists>q e. re_size e = len \<and> serialize_getattr_response (new_nipc_getattr_response e cid) = Some q \<and> h p n = Some (q, n)))"

lemma write_query:
  assumes "delivers net h" and "records_writes h path len" and "write_ok m"
  shows "consultar net cl (serialize_write m) = Some (new_nipc_ok (wt_client_id m), cl\<lparr>cl_net := cl_net cl @ [(wt_offset m, wt_data m)]\<rparr>)"
proof -
  obtain p where p: "serialize_write m = Some p" "packet_ok p" using wrt.ser_des [OF assms(3)] by blast
  have "h p (cl_net cl) = Some (new_nipc_ok (wt_client_id m), cl_net cl @ [(wt_offset m, wt_data m)])"
    using assms(2,3) p(1) by (simp add: records_writes_def)
  from consultar_delivered [OF assms(1) p(2) this ok_packet_ok] show ?thesis using p(1) by (simp add: new_nipc_ok_def)
qed

text \<open>The requests of a write of \<open>n\<close> bytes at \<open>off\<close> in pieces of \<open>M\<close> bytes.\<close>

definition piece :: "nat \<Rightarrow> nat \<Rightarrow> nat \<Rightarrow> buffer \<Rightarrow> nat \<Rightarrow> u32 \<times> buffer" where
  "piece M off n input i = (of_nat (off + i * M), take (min M (n - i * M)) input)"

lemma pieces_left:
  assumes "0 < (M :: nat)"
  shows "i < (n + M - 1) div M \<longleftrightarrow> i * M < n"
proof -
  have "i < (n + M - 1) div M \<longleftrightarrow> Suc i * M \<le> n + M - 1"
    using assms by (simp only: less_eq_div_iff_mult_less_eq Suc_le_eq [symmetric])
  then show ?thesis using assms by auto
qed

lemma attributes_packet:
  assumes "serialize_getattr_response (new_nipc_getattr_response e cid) = Some q"
  shows "packet_ok q \<and> pkt_type q = tipo_code nipc_getattr_response \<and> unat (pkt_data_length q) = 16 \<and>
    (\<exists>r. deserialize_getattr_response g q = Some r \<and> re_size (gr_entry r) = re_size e)"
proof -
  have q: "q = packet_of (tipo_code nipc_getattr_response) 0 (le32 (re_mode e) @ le32 (re_n_link e) @ le32 (re_size e) @ le32 (re_blocks e))"
    using assms by (simp add: serialize_getattr_response_def new_nipc_getattr_response_def empty_nipc_getattr_response_def Let_def)
  have "read_u32 (le32 (re_mode e) @ le32 (re_n_link e) @ le32 (re_size e) @ le32 (re_blocks e)) 12 = Some (re_blocks e)"
    using read_u32_suffix [of 12 "le32 (re_mode e) @ le32 (re_n_link e) @ le32 (re_size e)" "re_blocks e"] by simp
  then show ?thesis
    by (simp add: q packet_of_def packet_ok_def deserialize_getattr_response_def empty_nipc_getattr_response_def)
qed

lemma getattr_len:
  assumes "delivers net h" and "records_writes h path len" and "path_ok path" and "lib (remote_cache cl) = None"
  shows "\<exists>st. remote_getattr g net cl path = Some (0, Some st, cl) \<and> st_size st = uint len"
proof -
  have "getattr_ok (new_nipc_getattr (client_id cl) path)"
    using assms(3) by (simp add: getattr_ok_def new_nipc_getattr_def empty_nipc_getattr_def)
  then obtain p where p: "serialize_getattr (new_nipc_getattr (client_id cl) path) = Some p" "packet_ok p"
    using getatt.ser_des by blast
  obtain q e where q: "re_size e = len" "serialize_getattr_response (new_nipc_getattr_response e (client_id cl)) = Some q"
      "h p (cl_net cl) = Some (q, cl_net cl)"
    using assms(2) p(1) unfolding records_writes_def by blast
  note a = attributes_packet [OF q(2), of g]
  have "consultar net cl (Some p) = Some (q, cl)"
    using consultar_delivered [OF assms(1) p(2) q(3)] a by simp
  then show ?thesis using a p(1) q(1) assms(4) by (auto simp: remote_getattr_def pedir_con_cache_def Let_def)
qed

lemma write_round:
  assumes "delivers net h" and "records_writes h path len" and "path_ok path"
    and "length path + length input + 64 < 2 ^ 32" and "bw < sz" and c: "request_size cl sz bw = c" and "unat c \<le> length input"
  shows "write_loop net cl path input sz offset bw = write_loop net
    (cl\<lparr>cl_net := cl_net cl @ [(word_of_int (offset + sint bw), take (unat c) input)]\<rparr>) path input sz offset (bw + c)"
proof -
  define m where "m = empty_nipc_write\<lparr>wt_client_id := client_id cl, wt_path := path, wt_data := take (unat c) input,
    wt_size := c, wt_offset := word_of_int (offset + sint bw)\<rparr>"
  have m: "new_nipc_write (client_id cl) path input c (word_of_int (offset + sint bw)) = Some m"
    using assms(7) by (simp add: new_nipc_write_def read_buf_def m_def)
  have ok: "write_ok m" using assms(3,4,7) by (simp add: write_ok_def m_def empty_nipc_write_def)
  have "consultar net cl (serialize_write m) = Some (new_nipc_ok (wt_client_id m),
      cl\<lparr>cl_net := cl_net cl @ [(word_of_int (offset + sint bw), take (unat c) input)]\<rparr>)"
    using write_query [OF assms(1,2) ok] by (simp add: m_def)
  then show ?thesis using m assms(5) c by (subst write_loop.simps) (simp add: new_nipc_ok_def)
qed

lemma write_loop_records:
  assumes "delivers net h" and "records_writes h path len" and "path_ok path"
    and "length path + length input + 64 < 2 ^ 32" and inp: "length input = unat sz" and sz: "unat sz < 2 ^ 31"
    and M: "M = unat mx" "0 < M" "M < 2 ^ 31" and K: "K = (unat sz + M - 1) div M"
  shows "i \<le> K \<Longrightarrow> maximumReadWriteSize cl = mx \<Longrightarrow> write_loop net cl path input sz (int off) (of_nat (min (i * M) (unat sz))) =
    Some (Inr sz, cl\<lparr>cl_net := cl_net cl @ map (piece M off (unat sz) input) [i..<K]\<rparr>)"
proof (induction "K - i" arbitrary: i cl)
  case 0
  then have "\<not> i * M < unat sz" using pieces_left [OF M(2), of i "unat sz"] K by simp
  then show ?case using 0 by (subst write_loop.simps) simp
next
  case (Suc x)
  then have i: "i < K" by simp
  then have lt: "i * M < unat sz" using pieces_left [OF M(2), of i "unat sz"] K by simp
  let ?c = "min M (unat sz - i * M)"
  have b: "unat (of_nat (i * M) :: u32) = i * M" using lt sz by (intro unat_of_nat_small) simp
  have sb: "sint (of_nat (i * M) :: u32) = int (i * M)" using sint_small [of "of_nat (i * M)"] b lt sz by linarith
  have c: "unat (request_size cl sz (of_nat (i * M))) = ?c"
    using request_size_nat [OF lt sz, of cl] Suc.prems(2) M by simp
  have "write_loop net cl path input sz (int off) (of_nat (i * M)) = write_loop net
      (cl\<lparr>cl_net := cl_net cl @ [(word_of_int (int off + int (i * M)), take ?c input)]\<rparr>) path input sz (int off)
      (of_nat (i * M) + request_size cl sz (of_nat (i * M)))"
    using write_round [OF assms(1-4) _ refl, of "of_nat (i * M)" sz cl "int off"] b lt inp unfolding c sb
    by (simp add: word_less_nat_alt)
  also have "of_nat (i * M) + request_size cl sz (of_nat (i * M)) = of_nat (min (Suc i * M) (unat sz))"
  proof -
    have "request_size cl sz (of_nat (i * M)) = of_nat ?c" by (metis c of_nat_unat ucast_id)
    moreover have "i * M + ?c = min (Suc i * M) (unat sz)" using lt by auto
    ultimately show ?thesis by (metis of_nat_add)
  qed
  also have "(word_of_int (int off + int (i * M)), take ?c input) = piece M off (unat sz) input i"
    by (simp add: piece_def)
  finally have "write_loop net cl path input sz (int off) (of_nat (i * M)) =
      write_loop net (cl\<lparr>cl_net := cl_net cl @ [piece M off (unat sz) input i]\<rparr>) path input sz (int off)
      (of_nat (min (Suc i * M) (unat sz)))" .
  moreover have "[i..<K] = i # [Suc i..<K]" using i by (simp add: upt_conv_Cons)
  ultimately show ?case
    using Suc.hyps(1) [of "Suc i" "cl\<lparr>cl_net := cl_net cl @ [piece M off (unat sz) input i]\<rparr>"] Suc.hyps(2) Suc.prems i lt
    by simp
qed

text \<open>
  C23. Writing through the client: with a file that is long enough, \<open>remote_write\<close> ends, returns the size, and has sent
  one write per piece of the largest request size, at consecutive offsets; but every piece carries bytes from the
  front of the input, so that from the second piece on the file does not get the bytes it was meant to get.
\<close>

theorem remote_write_pieces:
  assumes "delivers net h" and "records_writes h path len" and "path_ok path" and "lib (remote_cache cl) = None"
    and "length path + length input + 64 < 2 ^ 32" and "length input = unat sz" and "unat sz < 2 ^ 31"
    and "0 < maximumReadWriteSize cl" and "unat (maximumReadWriteSize cl) < 2 ^ 31" and "off + unat sz \<le> unat len"
  shows "remote_write g net cl path input sz (int off) = Some (int (unat sz), cl\<lparr>cl_net := cl_net cl @
    map (piece (unat (maximumReadWriteSize cl)) off (unat sz) input)
      [0..<(unat sz + unat (maximumReadWriteSize cl) - 1) div unat (maximumReadWriteSize cl)]\<rparr>)"
proof -
  obtain st where st: "remote_getattr g net cl path = Some (0, Some st, cl)" "st_size st = uint len"
    using getattr_len [OF assms(1-4)] by blast
  have "0 < unat (maximumReadWriteSize cl)" using assms(8) by (simp add: unat_gt_0)
  from write_loop_records [OF assms(1-3,5,6,7) refl this assms(9) refl, of 0 cl off]
  have w: "write_loop net cl path input sz (int off) 0 = Some (Inr sz, cl\<lparr>cl_net := cl_net cl @
    map (piece (unat (maximumReadWriteSize cl)) off (unat sz) input)
      [0..<(unat sz + unat (maximumReadWriteSize cl) - 1) div unat (maximumReadWriteSize cl)]\<rparr>)" by simp
  have "int (off + unat sz) \<le> int (unat len)" using assms(10) by (simp only: of_nat_le_iff)
  then have "\<not> uint len < int off + uint sz" by simp
  then show ?thesis using st w sint_small [OF assms(7)] assms(4) by (simp add: remote_write_def)
qed

section \<open>Witnesses\<close>

definition demo_client :: "'n \<Rightarrow> ('n, unit) client" where
  "demo_client n = \<lparr>client_id = 7, maximumReadWriteSize = 2, remote_cache = \<lparr>lib = None, conn = ()\<rparr>, cl_net = n\<rparr>"

lemma demo_client_simps [simp]: "client_id (demo_client n) = 7" "maximumReadWriteSize (demo_client n) = 2"
  "lib (remote_cache (demo_client n)) = None" "cl_net (demo_client n) = n" "demo_client n\<lparr>cl_net := n'\<rparr> = demo_client n'"
  by (simp_all add: demo_client_def)

lemma demo_path_ok: "path_ok (str ''/a'')" "path_ok (str ''/b'')"
  by (simp_all add: path_ok_def str_def is_cstr_def)

theorem client_calls_witness:
  "remote_call (line (answers 0 0 0)) (demo_client demo_server) (str ''/b'') (Call_open 0) = Some (- ENOENT, demo_client demo_server)"
proof -
  have "resolve demo_tree 2 (string_split (str ''/b'') SEPARADOR) = 0" by code_simp
  then have "getNroInodoDeLaDireccionDelPath demo_fs (str ''/b'') = Some 0" using path_number [OF demo_fs_tree] by simp
  then have "serve 0 0 0 demo_server (request_of 7 (str ''/b'') (Call_open 0)) = Some ([error_packet ENOENT 7], demo_server)"
    by (simp add: serve_def serve_open_def abrir_def new_nipc_open_def empty_nipc_open_def send_no_ok_packet)
  then show ?thesis
    using client_calls [OF delivers_line demo_path_ok(2), of "demo_client demo_server" 0 0 0 "Call_open 0"
        "error_packet ENOENT 7" "[]" demo_server 7 ENOENT]
    by (simp add: ENOENT_def)
qed

text \<open>A server that holds one file.\<close>

definition file_server :: "buffer \<Rightarrow> nipc_packet \<Rightarrow> unit \<Rightarrow> (nipc_packet \<times> unit) option" where
  "file_server file p n = do {
     m \<leftarrow> deserialize_read p;
     Some (read_answer (rd_client_id m) (take (unat (rd_size m)) (drop (unat (rd_offset m)) file)), n) }"

theorem remote_read_file_witness:
  "\<exists>n. remote_read (line (file_server (str ''hola''))) (demo_client ()) (str ''/a'') 10 (int 1) = Some (3, str ''ola'', demo_client n)"
proof -
  have "serves_file (file_server (str ''hola'')) (\<lambda>_. True) (\<lambda>_. True) (str ''/a'') (str ''hola'')"
    unfolding serves_file_def
  proof (intro allI impI)
    fix cid sz off p n
    assume p: "True \<and> True \<and> 0 < sz \<and> unat off + unat sz < 2 ^ 31 \<and> serialize_read (new_nipc_read cid (str ''/a'') sz off) = Some p"
    have "read_ok (new_nipc_read cid (str ''/a'') sz off)"
      using demo_path_ok by (simp add: read_ok_def new_nipc_read_def empty_nipc_read_def)
    from rd.ser_des [OF this] p have "deserialize_read p = Some (new_nipc_read cid (str ''/a'') sz off)" by auto
    then show "\<exists>n'. True \<and> file_server (str ''hola'') p n = Some (read_answer cid (take (unat sz) (drop (unat off) (str ''hola''))), n')"
      by (simp add: file_server_def new_nipc_read_def)
  qed
  from remote_read_file [OF delivers_line this demo_path_ok(1), of 10 "demo_client ()" 1]
  show ?thesis by (simp add: str_def)
qed

text \<open>A server that keeps the writes and says that the file has 100 bytes.\<close>

definition write_server :: "nipc_packet \<Rightarrow> (u32 \<times> buffer) list \<Rightarrow> (nipc_packet \<times> (u32 \<times> buffer) list) option" where
  "write_server p n =
     (if pkt_type p = tipo_code nipc_write
      then do { m \<leftarrow> deserialize_write p; Some (new_nipc_ok (wt_client_id m), n @ [(wt_offset m, wt_data m)]) }
      else do {
        q \<leftarrow> serialize_getattr_response (new_nipc_getattr_response
               \<lparr>re_path = None, re_mode = 0, re_size = 100, re_n_link = 1, re_blocks = 2\<rparr> (pkt_client_id p));
        Some (q, n) })"

lemma write_server_records: "path_ok path \<Longrightarrow> records_writes write_server path 100"
  unfolding records_writes_def
proof (intro conjI allI impI)
  fix m p n assume "write_ok m \<and> serialize_write m = Some p"
  then have "pkt_type p = tipo_code nipc_write" "deserialize_write p = Some m" using wrt.ser_des [of m] by auto
  then show "write_server p n = Some (new_nipc_ok (wt_client_id m), n @ [(wt_offset m, wt_data m)])"
    by (simp add: write_server_def)
next
  fix cid p n assume path: "path_ok path" and p: "serialize_getattr (new_nipc_getattr cid path) = Some p"
  have "getattr_ok (new_nipc_getattr cid path)" using path by (simp add: getattr_ok_def new_nipc_getattr_def empty_nipc_getattr_def)
  from getatt.ser_des [OF this] p have "pkt_type p = tipo_code nipc_getattr" "deserialize_getattr p = Some (new_nipc_getattr cid path)" by auto
  then have "pkt_type p \<noteq> tipo_code nipc_write" "pkt_client_id p = cid"
    by (auto simp: deserialize_getattr_def new_nipc_getattr_def empty_nipc_getattr_def split: bind_splits)
  then show "\<exists>q e. re_size e = 100 \<and> serialize_getattr_response (new_nipc_getattr_response e cid) = Some q \<and> write_server p n = Some (q, n)"
    by (intro exI [of _ "the (map_option fst (write_server p n))"]
        exI [of _ "\<lparr>re_path = None, re_mode = 0, re_size = 100, re_n_link = 1, re_blocks = 2\<rparr>"])
      (simp add: write_server_def serialize_getattr_response_def new_nipc_getattr_response_def empty_nipc_getattr_response_def
        fill_packet_def Let_def)
qed

theorem remote_write_pieces_witness:
  "remote_write 0 (line write_server) (demo_client []) (str ''/a'') (str ''hola'') 4 (int 10) =
     Some (4, demo_client [(10, str ''ho''), (12, str ''ho'')])"
  using remote_write_pieces [OF delivers_line write_server_records [OF demo_path_ok(1)] demo_path_ok(1), of "demo_client []" "str ''hola''" 4 10 0]
  by (simp add: str_def piece_def upt_rec)

end
