(* ===== verification/EndToEnd.thy ===== *)
theory EndToEnd
  imports ClientCalls
begin

text \<open>
  Reading through all layers: the client's \<open>remote_read\<close>, the frames on the network, the switch and \<open>serve_read\<close> of the
  server, the table of open files, the cache of blocks, the inode and the blocks on the disk.
\<close>

text \<open>The contents of a file on the disk.\<close>

definition contents :: "mem \<Rightarrow> nat \<Rightarrow> buffer" where
  "contents d ino = map (file_byte d ino) [0..<unat (ino_size d ino)]"

lemma contents_range:
  "take n (drop off (contents d ino)) = map (\<lambda>i. file_byte d ino (off + i)) [0..<min n (unat (ino_size d ino) - off)]"
  by (rule nth_equalityI) (simp_all add: contents_def drop_map nth_append less_diff_conv)

lemma new_nipc_read_fields [simp]:
  "rd_offset (new_nipc_read cid path sz off) = off" "rd_size (new_nipc_read cid path sz off) = sz"
  "rd_path (new_nipc_read cid path sz off) = path" "rd_client_id (new_nipc_read cid path sz off) = cid"
  by (simp_all add: new_nipc_read_def)

text \<open>Positions from which the server reads right: block boundaries, and the end of the file.\<close>

definition good_offset :: "mem \<Rightarrow> nat \<Rightarrow> nat \<Rightarrow> bool" where
  "good_offset d ino x \<longleftrightarrow> x = unat (ino_size d ino) \<or> (x < unat (ino_size d ino) \<and> x mod unat (tamanioDeBloque d) = 0)"

definition server_ok :: "mem \<Rightarrow> (u32 \<Rightarrow> int) \<Rightarrow> 'c server \<Rightarrow> bool" where
  "server_ok d f s \<longleftrightarrow> disk (fs s) = d \<and> open_rep (adm s) f \<and> coherent (rcache s) d"

lemma serve_read_contents:
  assumes "tamanioDeBloque d = push_bit k 1024" and "k \<le> 4" and "server_ok d f s"
    and "numeroInodo d path = Some nro" and "inodo_at d nro = Some ino" and "good_offset d ino (unat off)"
    and "0 < sz" and "unat off + unat sz < 2 ^ 31"
  shows "\<exists>s'. server_ok d f s' \<and> serve_read s (new_nipc_read cid path sz off) =
    Some ([read_answer cid (take (unat sz) (drop (unat off) (contents d ino)))], s')"
proof -
  let ?m = "new_nipc_read cid path sz off" and ?S = "unat (ino_size d ino)"
  have s: "disk (fs s) = d" "open_rep (adm s) f" "coherent (rcache s) d" using assms(3) by (simp_all add: server_ok_def)
  show ?thesis
  proof (cases "unat off = ?S")
    case True
    then have "off = ino_size d ino" by (simp add: word_unat_eq_iff)
    then obtain a where "serve_read s ?m = Some ([new_nipc_read_response None 0 cid], s\<lparr>adm := a\<rparr>)" "open_rep a f"
      using serve_read_nothing [of s f ?m nro ino] s assms(4,5,8) by auto
    moreover have "take (unat sz) (drop (unat off) (contents d ino)) = []" using True by (simp add: contents_def)
    then have "read_answer cid (take (unat sz) (drop (unat off) (contents d ino))) = new_nipc_read_response None 0 cid"
      by (simp only: read_answer_def) simp
    ultimately show ?thesis using s by (intro exI [of _ "s\<lparr>adm := a\<rparr>"]) (simp add: server_ok_def)
  next
    case False
    then have lt: "unat off < ?S" and al: "unat off mod unat (tamanioDeBloque d) = 0" using assms(6) by (auto simp: good_offset_def)
    define n where "n = (if ino_size d ino < off + sz then ino_size d ino - off else sz)"
    have n: "unat n = min (unat sz) (?S - unat off)" using cut_size [of off "ino_size d ino" sz] lt assms(8) by (simp add: n_def)
    have "0 < unat sz" using assms(7) by (simp add: unat_gt_0)
    then have n0: "0 < unat n" using n lt by simp
    have r: "in_reach d off n" using al by (simp add: in_reach_def)
    let ?b = "map (\<lambda>i. file_byte d ino (unat off + i)) [0..<unat n]"
    have "0 < n" using n0 by (simp only: unat_gt_0 word_gt_0)
    moreover have "unat off + unat n < 2 ^ 32" using n assms(8) by simp
    ultimately obtain a c where a: "serve_read s ?m = Some ([new_nipc_read_response (Some ?b) n cid], s\<lparr>adm := a, rcache := c\<rparr>)"
        "open_rep a f" "coherent c d"
      using serve_read_eff [of s k f ?m nro ino n, unfolded s(1) new_nipc_read_fields, OF assms(1,2) s(2,3) assms(4,5) n_def] r
      by auto
    have "?b = take (unat sz) (drop (unat off) (contents d ino))" by (simp add: contents_range n)
    moreover have "new_nipc_read_response (Some ?b) n cid = read_answer cid ?b" using n0 by (simp add: read_answer_def)
    ultimately show ?thesis using a s by (intro exI [of _ "s\<lparr>adm := a, rcache := c\<rparr>"]) (simp add: server_ok_def)
  qed
qed

lemma server_serves_file:
  assumes "tamanioDeBloque d = push_bit k 1024" and "k \<le> 4" and "path_ok path"
    and "numeroInodo d path = Some nro" and "inodo_at d nro = Some ino"
  shows "serves_file (answers b b1 b2) (server_ok d f) (good_offset d ino) path (contents d ino)"
  unfolding serves_file_def
proof (intro allI impI)
  fix cid sz off p and n :: "'a server"
  assume a: "server_ok d f n \<and> good_offset d ino (unat off) \<and> 0 < sz \<and> unat off + unat sz < 2 ^ 31 \<and>
    serialize_read (new_nipc_read cid path sz off) = Some p"
  have "request_ok (Req_read (new_nipc_read cid path sz off))"
    using assms(3) by (simp add: read_ok_def new_nipc_read_def empty_nipc_read_def)
  then have "serveRequest b b1 b2 n p = serve_read n (new_nipc_read cid path sz off)"
    using dispatch_ok [of "Req_read (new_nipc_read cid path sz off)" b b1 b2 n] a by (simp add: serve_def)
  then show "\<exists>n'. server_ok d f n' \<and> answers b b1 b2 p n = Some (read_answer cid (take (unat sz) (drop (unat off) (contents d ino))), n')"
    using serve_read_contents [OF assms(1,2) _ assms(4,5), of f n off sz cid] a by (auto simp: answers_def)
qed

text \<open>
  C1. Reading a file from end to end, in whole blocks: the client asks, over a network that delivers, a server whose table of open files is in order
  and whose cache of blocks, if it has one, obeys the contract of memcached and holds only blocks as they are on the disk
  (a write can end that, see \<open>write_through_cache\<close>). From an offset that is a block boundary and not past the end of the file, with a largest
  request that is a multiple of the block size, and with a file and a range below 2 GB, \<open>remote_read\<close> ends and returns exactly the bytes that the blocks of
  the file have on the server's disk, up to the size asked for or the end of the file; the disk, the counts of open files and the agreement
  of cache and disk stay as they are.
\<close>

theorem read_end_to_end:
  assumes "delivers net (answers b b1 b2)" and "path_ok path"
    and "tamanioDeBloque d = push_bit k 1024" and "k \<le> 4" and "server_ok d f (cl_net cl)"
    and "numeroInodo d path = Some nro" and "inodo_at d nro = Some ino" and "unat (ino_size d ino) + 12 < 2 ^ 31"
    and "0 < unat (maximumReadWriteSize cl)" and "unat (maximumReadWriteSize cl) < 2 ^ 31"
    and "unat (maximumReadWriteSize cl) mod unat (tamanioDeBloque d) = 0"
    and "off mod unat (tamanioDeBloque d) = 0" and "off \<le> unat (ino_size d ino)" and "off + unat sz < 2 ^ 31"
  shows "\<exists>s'. server_ok d f s' \<and> remote_read net cl path sz (int off) =
    Some (int (min (unat sz) (unat (ino_size d ino) - off)), take (unat sz) (drop off (contents d ino)), cl\<lparr>cl_net := s'\<rparr>)"
proof -
  note sf = server_serves_file [OF assms(3,4,2,6,7), of b b1 b2 f]
  have l: "length (contents d ino) = unat (ino_size d ino)" by (simp add: contents_def)
  have "unat sz < 2 ^ 31" using assms(14) by linarith
  moreover have "good_offset d ino (x + unat (maximumReadWriteSize cl))"
    if "good_offset d ino x" "x + unat (maximumReadWriteSize cl) \<le> length (contents d ino)" for x
    using that assms(9,11) l by (auto simp: good_offset_def mod_add_eq [symmetric, of x] le_less)
  moreover have "good_offset d ino (length (contents d ino))" "good_offset d ino off"
    using assms(12,13) l by (auto simp: good_offset_def le_less)
  ultimately show ?thesis
    using read_loop_file [OF assms(1) sf assms(2) _ _ assms(9,10,14), of 0 cl] assms(5,8) l
    by (simp add: remote_read_def min.commute)
qed

text \<open>Clients of \<open>ClientCalls\<close> with a largest request of one block: of the server of \<open>Requests\<close>, and of the one with a cache.\<close>

definition block_client :: "(unit server, unit) client" where
  "block_client = (demo_client demo_server)\<lparr>maximumReadWriteSize := 1024\<rparr>"

definition cached_client :: "((buffer \<rightharpoonup> buffer) server, unit) client" where
  "cached_client = (demo_client cached_server)\<lparr>maximumReadWriteSize := 1024\<rparr>"

theorem read_end_to_end_witness:
  "\<exists>s'. remote_read (line (answers 0 0 0)) cached_client (str ''/a'') 100 (int 0) =
     Some (4, str ''hola'', cached_client\<lparr>cl_net := s'\<rparr>)"
proof -
  have u: "[0..<4] = [0, 1, 2, 3 :: nat]" by (simp add: upt_rec)
  have c: "contents demo_fs 5376 = str ''hola''"
    using demo_file_bytes [folded numeral_2_eq_2] by (simp add: contents_def demo_fs_facts u str_def)
  have s: "server_ok demo_fs (\<lambda>_. 0) (cl_net cached_client)"
    by (simp add: server_ok_def cached_client_def inicializar_rep cached_coherent)
  have "maximumReadWriteSize cached_client = 1024" by (simp add: cached_client_def)
  then show ?thesis
    using read_end_to_end [OF delivers_line demo_path_ok(1) _ _ s demo_file_number demo_fs_facts(2), where k = 0 and off = 0 and sz = 100 and b = 0 and ?b1.0 = 0 and ?b2.0 = 0]
    by (auto simp: demo_fs_super demo_fs_facts c str_def)
qed

section \<open>Attributes\<close>

text \<open>What \<open>remote_getattr\<close> fills in from an inode.\<close>

definition stat_of :: "mem \<Rightarrow> nat \<Rightarrow> stat" where
  "stat_of d ino = \<lparr>st_mode = ucast (ino_mode d ino), st_nlink = ucast (ino_links d ino), st_size = uint (ino_size d ino),
     st_blocks = ino_nr_blocks d ino\<rparr>"

definition attributes :: "mem \<Rightarrow> nat \<Rightarrow> readdir_entry" where
  "attributes d ino = \<lparr>re_path = None, re_mode = ucast (ino_mode d ino), re_size = ino_size d ino,
     re_n_link = ucast (ino_links d ino), re_blocks = ino_nr_blocks d ino\<rparr>"

lemma attributes_sent:
  "\<exists>q r. serialize_getattr_response (new_nipc_getattr_response e cid) = Some q \<and> packet_ok q \<and>
    pkt_type q = tipo_code nipc_getattr_response \<and> unat (pkt_data_length q) = 16 \<and>
    deserialize_getattr_response g q = Some r \<and> gr_entry r = e\<lparr>re_path := None\<rparr>"
proof -
  let ?b = "le32 (re_mode e) @ le32 (re_n_link e) @ le32 (re_size e) @ le32 (re_blocks e)"
  have "serialize_getattr_response (new_nipc_getattr_response e cid) = Some (packet_of (tipo_code nipc_getattr_response) 0 ?b)"
    by (simp add: serialize_getattr_response_def new_nipc_getattr_response_def empty_nipc_getattr_response_def Let_def)
  moreover have "read_u32 ?b 12 = Some (re_blocks e)"
    using read_u32_suffix [of 12 "le32 (re_mode e) @ le32 (re_n_link e) @ le32 (re_size e)" "re_blocks e"] by simp
  ultimately show ?thesis
    by (simp add: packet_of_def packet_ok_def deserialize_getattr_response_def empty_nipc_getattr_response_def)
qed

lemma serve_getattr_tree:
  fixes m :: nipc_getattr_t
  assumes "fs_tree (disk (fs s)) t I"
  defines "n \<equiv> resolve t 2 (string_split (ga_path m) SEPARADOR)"
  shows "if n = 0 then serve_getattr s m = Some ([error_packet ENOENT (ga_client_id m)], s)
    else \<exists>ino q. inodo_at (disk (fs s)) n = Some ino \<and> serve_getattr s m = Some ([q], s) \<and>
      serialize_getattr_response (new_nipc_getattr_response (attributes (disk (fs s)) ino) (ga_client_id m)) = Some q"
proof -
  let ?d = "disk (fs s)"
  have p: "getNroInodoDeLaDireccionDelPath ?d (ga_path m) = Some n" using path_number [OF assms(1)] by (simp add: n_def)
  show ?thesis
  proof (cases "n = 0")
    case True
    then show ?thesis using p
      by (simp add: serve_getattr_def Let_def getInodoDeLaDireccionDelPath_def send_no_ok_packet)
  next
    case False
    then have "n \<in> I" using resolve_in [OF assms(1), of 2] assms(1) by (simp add: n_def fs_tree_def)
    then obtain ino where i: "inodo_at ?d n = Some ino" using assms(1) by (auto simp: fs_tree_def node_ok_def)
    then have "getInodo ?d n = Some (Some ino)" by (auto simp: inodo_at_def split: bind_splits)
    moreover obtain q where "serialize_getattr_response (new_nipc_getattr_response (attributes ?d ino) (ga_client_id m)) = Some q"
      using attributes_sent by blast
    ultimately show ?thesis using p i False
      by (auto simp: serve_getattr_def Let_def getInodoDeLaDireccionDelPath_def attributes_def)
  qed
qed

lemma getattr_found:
  assumes "delivers net (answers b b1 b2)" and "path_ok path" and "lib (remote_cache cl) = None"
    and "getNroInodoDeLaDireccionDelPath (disk (fs (cl_net cl))) path = Some n" and "n \<noteq> 0"
    and "inodo_at (disk (fs (cl_net cl))) n = Some ino"
  shows "remote_getattr g net cl path = Some (0, Some (stat_of (disk (fs (cl_net cl))) ino), cl)"
proof -
  let ?m = "new_nipc_getattr (client_id cl) path" and ?d = "disk (fs (cl_net cl))"
  have m: "ga_path ?m = path" "request_ok (Req_getattr ?m)"
    using assms(2) by (simp_all add: getattr_ok_def new_nipc_getattr_def empty_nipc_getattr_def)
  have "getInodo ?d n = Some (Some ino)" using assms(6) by (auto simp: inodo_at_def split: bind_splits)
  moreover obtain q r where q: "serialize_getattr_response (new_nipc_getattr_response (attributes ?d ino) (ga_client_id ?m)) = Some q"
    "packet_ok q" "pkt_type q = tipo_code nipc_getattr_response" "unat (pkt_data_length q) = 16"
    "deserialize_getattr_response g q = Some r" "gr_entry r = attributes ?d ino"
    using attributes_sent [of "attributes ?d ino" "ga_client_id ?m" g] by (auto simp: attributes_def)
  ultimately have "serve_getattr (cl_net cl) ?m = Some ([q], cl_net cl)"
    using assms(4,5) m(1) by (simp add: serve_getattr_def Let_def getInodoDeLaDireccionDelPath_def attributes_def)
  then have "consultar net cl (serialize_getattr ?m) = Some (q, cl)"
    using consultar_serve [OF assms(1) m(2), where qs = "[]" and s' = "cl_net cl" and cl = cl, of q] q by (simp add: serve_def)
  then show ?thesis using q assms(3) by (simp add: remote_getattr_def pedir_con_cache_def Let_def stat_of_def attributes_def)
qed



end
