(* ===== verification/Writes.thy ===== *)
theory Writes
  imports Reads
begin

text \<open>
  Writing a file in place, without a cache: the loop of \<open>serve_write\<close> over the blocks of the range puts every byte of
  the request at its address and leaves the rest of the disk alone.
\<close>

section \<open>Addresses of the bytes of a file\<close>

text \<open>The logical blocks \<open>A\<close> to \<open>L\<close> are different blocks behind the superblock, inside the 4 GB of addresses.\<close>

definition blocks_ok :: "mem \<Rightarrow> nat \<Rightarrow> nat \<Rightarrow> nat \<Rightarrow> bool" where
  "blocks_ok d ino A L \<longleftrightarrow> inj_on (blk d ino) {A..L} \<and>
     (\<forall>a \<in> {A..L}. 2 \<le> unat (blk d ino a) \<and> (unat (blk d ino a) + 1) * unat (tamanioDeBloque d) \<le> 2 ^ 32)"

lemma obtenerBloque_at:
  assumes "blocks_ok d ino A L" and "a \<in> {A..L}"
  shows "obtenerBloque d (blk d ino a) = unat (blk d ino a) * unat (tamanioDeBloque d)"
proof -
  let ?b = "unat (blk d ino a)" and ?B = "unat (tamanioDeBloque d)"
  have "(?b + 1) * ?B \<le> 2 ^ 32" using assms unfolding blocks_ok_def by blast
  then have "?b * ?B < 2 ^ 32 \<or> ?B = 0" by (simp add: add_mult_distrib) linarith
  then show ?thesis by (auto simp: obtenerBloque_def unat_word_ariths)
qed

lemma block_of: "x = q * B + r \<Longrightarrow> r < B \<Longrightarrow> x div B = q \<and> x mod B = (r :: nat)"
  by simp

lemma mem_write_untouched: "(\<And>j. j < length bs \<Longrightarrow> x \<noteq> a + j) \<Longrightarrow> mem_write m a bs x = m x"
  unfolding mem_write_def by (metis add_diff_inverse_nat less_diff_conv2 not_less add.commute)

lemma block_and_rest:
  assumes "p * B + r = q * B + s" and "r < B" and "s < (B :: nat)"
  shows "p = q \<and> r = s"
proof -
  have "(p * B + r) div B = p" "(q * B + s) div B = q" using assms(2,3) by simp_all
  then have "p = q" using assms(1) by simp
  then show ?thesis using assms(1) by simp
qed

lemma file_addr_inj:
  assumes "blocks_ok d ino A L" and "x div unat (tamanioDeBloque d) \<in> {A..L}" and "y div unat (tamanioDeBloque d) \<in> {A..L}"
    and "0 < unat (tamanioDeBloque d)" and "file_addr d ino x = file_addr d ino y"
  shows "x = y"
proof -
  let ?B = "unat (tamanioDeBloque d)"
  have "unat (blk d ino (x div ?B)) * ?B + x mod ?B = unat (blk d ino (y div ?B)) * ?B + y mod ?B"
    using assms(5) obtenerBloque_at [OF assms(1,2)] obtenerBloque_at [OF assms(1,3)] by (simp add: file_addr_def Let_def)
  from block_and_rest [OF this] have e: "blk d ino (x div ?B) = blk d ino (y div ?B)" "x mod ?B = y mod ?B"
    using assms(4) by (simp_all add: word_unat_eq_iff)
  have "inj_on (blk d ino) {A..L}" using assms(1) by (simp add: blocks_ok_def)
  from inj_onD [OF this e(1) assms(2,3)] e(2) show ?thesis by (metis div_mult_mod_eq)
qed

section \<open>One block\<close>

lemma overwrite_block:
  assumes "pos + length bytes \<le> B"
  shows "mem_write d p (take pos (mem_read d p B) @ bytes @ drop (pos + length bytes) (mem_read d p B)) =
    mem_write d (p + pos) bytes"
proof
  fix x
  show "mem_write d p (take pos (mem_read d p B) @ bytes @ drop (pos + length bytes) (mem_read d p B)) x =
    mem_write d (p + pos) bytes x"
    using assms by (auto simp: mem_write_def nth_append)
qed

text \<open>One round of the loop of \<open>serve_write\<close> without a cache.\<close>

lemma escribir_step:
  assumes "lib k = None" and pos: "pos = desplazamientoDentroDelBloque d (wt_offset m + w)"
    and c: "c = (if w + (tamanioDeBloque d - pos) > wt_size m then wt_size m - w else tamanioDeBloque d - pos)"
    and "unat w + unat c \<le> length (wt_data m)" and le: "unat pos + unat c \<le> unat (tamanioDeBloque d)"
  shows "escribir_bloques m k d w (n # ns) =
    escribir_bloques m k (mem_write d (obtenerBloque d n + unat pos) (take (unat c) (drop (unat w) (wt_data m)))) (w + c) ns"
proof -
  let ?B = "unat (tamanioDeBloque d)"
  define by' where "by' = take (unat c) (drop (unat w) (wt_data m))"
  have l: "length by' = unat c" using assms(4) by (simp add: by'_def)
  define bl where "bl = (if pos \<noteq> 0 \<or> tamanioDeBloque d - c \<noteq> 0 then traerBloque k d n else replicate ?B 0)"
  have lb: "length bl = ?B" using assms(1) by (simp add: traerBloque_def bl_def)
  have w: "mem_write d (obtenerBloque d n) (take (unat pos) bl @ by' @ drop (unat pos + unat c) bl) =
      mem_write d (obtenerBloque d n + unat pos) by'"
  proof (cases "pos \<noteq> 0 \<or> tamanioDeBloque d - c \<noteq> 0")
    case True
    then have "bl = mem_read d (obtenerBloque d n) ?B"
      using assms(1) by (simp add: bl_def traerBloque_def traerBloqueDeDisco_def)
    then show ?thesis using overwrite_block [of "unat pos" by' ?B d "obtenerBloque d n"] l le by simp
  next
    case False
    then have "pos = 0" "c = tamanioDeBloque d" by auto
    then show ?thesis using lb by simp
  qed
  define nb where "nb = take (unat pos) bl @ by' @ drop (unat pos + unat c) bl"
  have sob: "sobrescribir bl (unat pos) by' = Some nb" using l lb le by (simp add: sobrescribir_def nb_def)
  have len: "length nb = ?B" using l lb le by (simp add: nb_def)
  have rb: "read_buf (wt_data m) (unat w) (unat c) = Some by'" using assms(4) by (simp add: read_buf_def by'_def)
  have "grabarBloque k d n nb = Some (k, mem_write d (obtenerBloque d n + unat pos) by')"
    using assms(1) len w [folded nb_def] by (simp add: grabarBloque_def read_buf_def)
  then show ?thesis
    by (simp only: escribir_bloques.simps Let_def pos [symmetric] c [symmetric] bl_def [symmetric] rb sob
        Option.bind.simps prod.case by'_def [symmetric])
qed

section \<open>The loop\<close>

text \<open>The first \<open>w\<close> bytes of the data are in place from offset \<open>off\<close> on, and nothing else has changed.\<close>

definition escrito :: "mem \<Rightarrow> nat \<Rightarrow> nat \<Rightarrow> buffer \<Rightarrow> nat \<Rightarrow> mem \<Rightarrow> bool" where
  "escrito d ino off bytes w d' \<longleftrightarrow> tamanioDeBloque d' = tamanioDeBloque d \<and>
     (\<forall>i < w. d' (file_addr d ino (off + i)) = bytes ! i) \<and>
     (\<forall>x. (\<forall>i < w. x \<noteq> file_addr d ino (off + i)) \<longrightarrow> d' x = d x)"

text \<open>The bytes of a piece that does not leave its block stand one after the other on the disk.\<close>

lemma piece_addr:
  assumes "pos mod unat (tamanioDeBloque d) + c \<le> unat (tamanioDeBloque d)" and "j < c"
  shows "(pos + j) div unat (tamanioDeBloque d) = pos div unat (tamanioDeBloque d)" and "file_addr d ino (pos + j) = file_addr d ino pos + j"
proof -
  let ?B = "unat (tamanioDeBloque d)"
  have "pos + j = pos div ?B * ?B + (pos mod ?B + j)" by simp
  moreover have "pos mod ?B + j < ?B" using assms by linarith
  ultimately have e: "(pos + j) div ?B = pos div ?B" "(pos + j) mod ?B = pos mod ?B + j" using block_of by blast+
  show "(pos + j) div ?B = pos div ?B" by (fact e)
  show "file_addr d ino (pos + j) = file_addr d ino pos + j" using e by (simp add: file_addr_def Let_def)
qed

lemma piece_in_range:
  assumes "A = off div unat (tamanioDeBloque d)" and "(off + w) div unat (tamanioDeBloque d) \<le> L"
    and "(off + w) mod unat (tamanioDeBloque d) + c \<le> unat (tamanioDeBloque d)" and "i < w + c"
  shows "(off + i) div unat (tamanioDeBloque d) \<in> {A..L}"
proof (cases "i < w")
  case True
  then have "(off + i) div unat (tamanioDeBloque d) \<le> (off + w) div unat (tamanioDeBloque d)" by (simp add: div_le_mono)
  then show ?thesis using assms(1,2) by (simp add: div_le_mono)
next
  case False
  then have "off + i = off + w + (i - w)" "i - w < c" using assms(4) by auto
  then have "(off + i) div unat (tamanioDeBloque d) = (off + w) div unat (tamanioDeBloque d)" using piece_addr(1) [OF assms(3)] by metis
  then show ?thesis using assms(1,2) by (simp add: div_le_mono)
qed

lemma superblock_kept:
  assumes "blocks_ok d ino A L" and "pos div unat (tamanioDeBloque d) \<in> {A..L}" and "1024 \<le> unat (tamanioDeBloque d)"
  shows "tamanioDeBloque (mem_write d' (file_addr d ino pos) ys) = tamanioDeBloque d'"
proof -
  have "2 \<le> unat (blk d ino (pos div unat (tamanioDeBloque d)))" using assms(1,2) by (auto simp: blocks_ok_def)
  then have "2 * unat (tamanioDeBloque d) \<le> file_addr d ino pos"
    using obtenerBloque_at [OF assms(1,2)] by (simp add: file_addr_def Let_def trans_le_add1)
  then show ?thesis using assms(3) by (simp add: tamanioDeBloque_def sb_log_block_size_def rd32_def read_superblock_def mem_simps)
qed

lemma escrito_step:
  assumes e: "escrito d ino off bytes w d'" and ok: "blocks_ok d ino A L" and B: "1024 \<le> unat (tamanioDeBloque d)"
    and A: "A = off div unat (tamanioDeBloque d)" and a: "(off + w) div unat (tamanioDeBloque d) \<le> L"
    and c: "(off + w) mod unat (tamanioDeBloque d) + c \<le> unat (tamanioDeBloque d)" and "w + c \<le> length bytes"
  shows "escrito d ino off bytes (w + c) (mem_write d' (file_addr d ino (off + w)) (take c (drop w bytes)))"
proof -
  let ?by = "take c (drop w bytes)" and ?p = "file_addr d ino (off + w)"
  note in_range = piece_in_range [OF A a c] and at = piece_addr(2) [OF c, where ino = ino]
  have "(off + w) div unat (tamanioDeBloque d) \<in> {A..L}" using a A by (simp add: div_le_mono)
  then have t: "tamanioDeBloque (mem_write d' ?p ?by) = tamanioDeBloque d'" by (rule superblock_kept [OF ok _ B])
  have keep: "mem_write d' ?p ?by x = d' x" if "\<And>j. j < c \<Longrightarrow> x \<noteq> file_addr d ino (off + (w + j))" for x
    by (intro mem_write_untouched) (metis that at add.assoc length_take min_less_iff_conj)
  have v: "mem_write d' ?p ?by (file_addr d ino (off + i)) = bytes ! i" if "i < w + c" for i
  proof (cases "i < w")
    case True
    have "file_addr d ino (off + i) \<noteq> file_addr d ino (off + (w + j))" if "j < c" for j
    proof
      assume "file_addr d ino (off + i) = file_addr d ino (off + (w + j))"
      from file_addr_inj [OF ok _ _ _ this] show False using in_range [of "w + j"] in_range [of i] that True B by auto
    qed
    then show ?thesis using keep e True by (simp add: escrito_def)
  next
    case False
    then obtain j where j: "i = w + j" by (metis le_iff_add not_less)
    then have "j < c" using that by simp
    then show ?thesis using at [of j] assms(7) j by (simp add: add.assoc [symmetric])
  qed
  have "mem_write d' ?p ?by x = d x" if "\<forall>i < w + c. x \<noteq> file_addr d ino (off + i)" for x
    using keep [of x] e that by (simp add: escrito_def)
  then show ?thesis using t v e by (simp add: escrito_def)
qed

text \<open>The number of bytes of a round, as a word and as a number.\<close>

lemma round_length:
  assumes "w < unat (n :: u32)" and "unat off + unat n + unat t < 2 ^ 32" and "0 < t"
  shows "unat ((off + of_nat w) mod t) = (unat off + w) mod unat t"
    and "unat (if of_nat w + (t - (off + of_nat w) mod t) > n then n - of_nat w else t - (off + of_nat w) mod t) =
      min (unat n - w) (unat t - (unat off + w) mod unat t)"
proof -
  define r where "r = (off + of_nat w) mod t"
  have w: "unat (of_nat w :: u32) = w" using assms(1) u32_lt [of n] by (intro unat_of_nat_small) simp
  have "unat (off + of_nat w) = unat off + w" using assms w by (simp add: unat_word_ariths)
  then show r: "unat ((off + of_nat w) mod t) = (unat off + w) mod unat t" by (simp add: unat_mod)
  have t: "0 < unat t" using assms(3) by (simp add: unat_gt_0)
  have lt: "unat r < unat t" using r t by (simp add: r_def)
  then have tr: "unat (t - r) = unat t - unat r" by (simp add: unat_sub word_le_nat_alt)
  then have s: "unat (of_nat w + (t - r)) = w + (unat t - unat r)" using assms w lt by (simp add: unat_word_ariths)
  have nw: "unat (n - of_nat w) = unat n - w" using assms(1) w by (simp add: unat_sub word_le_nat_alt)
  show "unat (if of_nat w + (t - (off + of_nat w) mod t) > n then n - of_nat w else t - (off + of_nat w) mod t) =
      min (unat n - w) (unat t - (unat off + w) mod unat t)"
    unfolding r_def [symmetric] r [symmetric] using s tr nw assms(1) by (auto simp: word_less_nat_alt)
qed

text \<open>After a round the loop is at the next logical block, or at the end.\<close>

lemma round_next:
  assumes B: "0 < (B :: nat)" and L: "L = (off + n - 1) div B" and a: "a \<le> L" "(off + w) div B = a" and w: "w < n"
    and c: "c = min (n - w) (B - (off + w) mod B)"
  shows "(off + w) mod B + c \<le> B" and "w + c \<le> n" and "if Suc a \<le> L then (off + (w + c)) div B = Suc a \<and> w + c < n else w + c = n"
proof -
  define r where "r = (off + w) mod B"
  have r: "r < B" "off + w = a * B + r" using B a(2) by (auto simp: r_def)
  show "(off + w) mod B + c \<le> B" "w + c \<le> n" using r(1) w c by (auto simp: r_def [symmetric])
  define s where "s = (off + n - 1) mod B"
  have s: "s < B" "off + n - 1 = L * B + s" using B L by (auto simp: s_def)
  show "if Suc a \<le> L then (off + (w + c)) div B = Suc a \<and> w + c < n else w + c = n"
  proof (cases "Suc a \<le> L")
    case True
    then have "Suc a * B \<le> L * B" by (rule mult_le_mono1)
    then have "B - r < n - w" using r s w by simp
    then have "c = B - r" using c by (simp add: r_def)
    then have "off + (w + c) = Suc a * B" "w + c < n" using r \<open>B - r < n - w\<close> by simp_all
    then show ?thesis using True B by simp
  next
    case False
    then have "a = L" using a(1) by simp
    then have "n - w \<le> B - r" using r s w by simp
    then show ?thesis using False c w by (simp add: r_def)
  qed
qed

lemma escribir_all:
  assumes lib: "lib k = None" and bs: "tamanioDeBloque d = push_bit j 1024" "j \<le> 4"
    and n: "length (wt_data m) = unat (wt_size m)"
    and le: "unat (wt_offset m) + unat (wt_size m) + unat (tamanioDeBloque d) < 2 ^ 32"
    and A: "A = unat (wt_offset m) div unat (tamanioDeBloque d)"
    and L: "L = (unat (wt_offset m) + unat (wt_size m) - 1) div unat (tamanioDeBloque d)"
    and ok: "blocks_ok d ino A L" and "a \<le> Suc L" and "A \<le> a"
    and "escrito d ino (unat (wt_offset m)) (wt_data m) w d'"
    and "if a \<le> L then (unat (wt_offset m) + w) div unat (tamanioDeBloque d) = a \<and> w < unat (wt_size m) else w = unat (wt_size m)"
  shows "\<exists>d''. escribir_bloques m k d' (of_nat w) (map (blk d ino) [a..<Suc L]) = Some (k, d'', wt_size m) \<and>
    escrito d ino (unat (wt_offset m)) (wt_data m) (unat (wt_size m)) d''"
  using assms(9-)
proof (induction arbitrary: w d' rule: inc_induct)
  case base
  then show ?case by (simp split: if_splits)
next
  case (step a)
  let ?B = "unat (tamanioDeBloque d)" and ?off = "unat (wt_offset m)" and ?n = "unat (wt_size m)"
  note B = block_size_pos [OF bs]
  have a: "a \<le> L" "(?off + w) div ?B = a" "w < ?n" using step.hyps step.prems(3) by auto
  have t: "tamanioDeBloque d' = tamanioDeBloque d" using step.prems(2) by (simp add: escrito_def)
  then have ob: "obtenerBloque d' x = obtenerBloque d x" for x by (simp add: obtenerBloque_def)
  define pos where "pos = desplazamientoDentroDelBloque d' (wt_offset m + of_nat w)"
  define c where "c = (if of_nat w + (tamanioDeBloque d' - pos) > wt_size m then wt_size m - of_nat w else tamanioDeBloque d' - pos)"
  have pos: "unat pos = (?off + w) mod ?B"
    and c: "unat c = min (?n - w) (?B - (?off + w) mod ?B)"
    using round_length [OF a(3) le] B t by (auto simp: pos_def c_def desplazamientoDentroDelBloque_def word_less_nat_alt)
  note nx = round_next [OF _ L a(1,2,3) c]
  have w: "unat (of_nat w :: u32) = w" using a(3) u32_lt [of "wt_size m"] by (intro unat_of_nat_small) simp
  let ?d1 = "mem_write d' (obtenerBloque d' (blk d ino a) + unat pos) (take (unat c) (drop (unat (of_nat w :: u32)) (wt_data m)))"
  have "escribir_bloques m k d' (of_nat w) (map (blk d ino) [a..<Suc L]) =
      escribir_bloques m k d' (of_nat w) (blk d ino a # map (blk d ino) [Suc a..<Suc L])"
    using a(1) by (simp add: upt_conv_Cons del: upt_Suc)
  also have "\<dots> = escribir_bloques m k ?d1 (of_nat w + c) (map (blk d ino) [Suc a..<Suc L])"
    by (rule escribir_step [OF lib pos_def c_def]) (use nx B w n t pos in auto)
  finally have e: "escribir_bloques m k d' (of_nat w) (map (blk d ino) [a..<Suc L]) =
      escribir_bloques m k ?d1 (of_nat (w + unat c)) (map (blk d ino) [Suc a..<Suc L])" by simp
  have "?d1 = mem_write d' (file_addr d ino (?off + w)) (take (unat c) (drop w (wt_data m)))"
    using a(2) pos by (simp add: w ob file_addr_def Let_def)
  then have "escrito d ino ?off (wt_data m) (w + unat c) ?d1"
    using escrito_step [OF step.prems(2) ok B(1) A, of "unat c"] a nx B n by auto
  from step.IH [OF _ this] show ?case using nx(3) B step.prems(1) e by auto
qed

section \<open>What a write does\<close>

lemma serve_write_eff:
  fixes s :: "'c server"
  assumes "tamanioDeBloque (disk (fs s)) = push_bit k 1024" and "k \<le> 4" and "open_rep (adm s) f"
    and "lib (rcache s) = None"
    and "numeroInodo (disk (fs s)) (wt_path m) = Some nro" and "inodo_at (disk (fs s)) nro = Some ino"
    and "0 < wt_size m" and "length (wt_data m) = unat (wt_size m)"
    and "unat (wt_offset m) + unat (wt_size m) + unat (tamanioDeBloque (disk (fs s))) < 2 ^ 32"
    and "nroBloqueDentroDelInodo (disk (fs s)) (wt_offset m + wt_size m - 1) < cantidadDeBloques (disk (fs s)) ino"
    and "blocks_ok (disk (fs s)) ino (unat (wt_offset m) div unat (tamanioDeBloque (disk (fs s))))
      ((unat (wt_offset m) + unat (wt_size m) - 1) div unat (tamanioDeBloque (disk (fs s))))"
  shows "\<exists>a d'. serve_write s m = Some ([new_nipc_ok (wt_client_id m)], s\<lparr>fs := (fs s)\<lparr>disk := d'\<rparr>, adm := a\<rparr>) \<and>
    open_rep a f \<and>
    (\<forall>i < unat (wt_size m). d' (file_addr (disk (fs s)) ino (unat (wt_offset m) + i)) = wt_data m ! i) \<and>
    (\<forall>x. (\<forall>i < unat (wt_size m). x \<noteq> file_addr (disk (fs s)) ino (unat (wt_offset m) + i)) \<longrightarrow> d' x = disk (fs s) x)"
proof -
  let ?d = "disk (fs s)" and ?off = "unat (wt_offset m)" and ?n = "unat (wt_size m)"
  let ?B = "unat (tamanioDeBloque ?d)"
  have le: "?off + ?n < 2 ^ 32" using assms(9) by linarith
  have n: "0 < ?n" using assms(7) by (simp add: unat_gt_0)
  have g: "agrandar_hasta (fs s) ino (nroBloqueDentroDelInodo ?d (wt_offset m + wt_size m - 1)) = Some (fs s)"
    using assms(10) by (subst agrandar_hasta.simps) (auto simp: not_le)
  have nums: "numerosDeBloques ?d ino (wt_offset m) (wt_size m) =
      Some (map (blk ?d ino) [?off div ?B..<Suc ((?off + ?n - 1) div ?B)])"
    by (rule numeros_blocks [OF assms(1,2,7) le])
  have start: "escrito ?d ino ?off (wt_data m) 0 ?d" by (simp add: escrito_def)
  have "?off div ?B \<le> (?off + ?n - 1) div ?B" using n by (intro div_le_mono) simp
  then have "\<exists>d'. escribir_bloques m (rcache s) ?d (of_nat 0) (map (blk ?d ino) [?off div ?B..<Suc ((?off + ?n - 1) div ?B)]) =
      Some (rcache s, d', wt_size m) \<and> escrito ?d ino ?off (wt_data m) ?n d'"
    using n by (intro escribir_all [OF assms(4,1,2,8,9) refl refl assms(11) _ _ start]) auto
  then obtain d' where d': "escribir_bloques m (rcache s) ?d 0 (map (blk ?d ino) [?off div ?B..<Suc ((?off + ?n - 1) div ?B)]) =
      Some (rcache s, d', wt_size m)" "escrito ?d ino ?off (wt_data m) ?n d'" by (auto simp del: upt_Suc)
  obtain p a where a: "obtener_o_crear_archivo_abierto (adm s) nro = Some (p, a)" "open_rep a f"
    using lock_total [OF assms(3)] by blast
  obtain q b where b: "obtener_o_crear_archivo_abierto a nro = Some (q, b)" "open_rep b f"
    using lock_total [OF a(2)] by blast
  have i: "getInodo ?d nro = Some (Some ino)" using assms(6) by (auto simp: inodo_at_def split: bind_splits)
  have "serve_write s m = Some ([new_nipc_ok (wt_client_id m)], s\<lparr>fs := (fs s)\<lparr>disk := d'\<rparr>, adm := b\<rparr>)"
    using g nums d'(1) a(1) b(1) i assms(5)
    by (simp add: serve_write_def obtenerInodo_def bloquearEscritura_def desbloquear_def send_ok_def)
  then show ?thesis using d'(2) b(2) by (auto simp: escrito_def)
qed

text \<open>
  Writing a file in place: without a cache, for a file that already has the blocks of the range and whose blocks
  there are different blocks behind the superblock, a write of at least one byte answers OK, every byte of the
  data is on the disk at its place in the file, every other byte of the disk is what it was, and the counts
  of open files stay. The size of the inode is not changed, even when the write ends past it.
\<close>

theorem write_bytes:
  fixes s :: "'c server"
  assumes "tamanioDeBloque (disk (fs s)) = push_bit k 1024" and "k \<le> 4" and "open_rep (adm s) f"
    and "lib (rcache s) = None"
    and "numeroInodo (disk (fs s)) (wt_path m) = Some nro" and "inodo_at (disk (fs s)) nro = Some ino"
    and "0 < wt_size m" and "length (wt_data m) = unat (wt_size m)"
    and "unat (wt_offset m) + unat (wt_size m) + unat (tamanioDeBloque (disk (fs s))) < 2 ^ 32"
    and "nroBloqueDentroDelInodo (disk (fs s)) (wt_offset m + wt_size m - 1) < cantidadDeBloques (disk (fs s)) ino"
    and "blocks_ok (disk (fs s)) ino (unat (wt_offset m) div unat (tamanioDeBloque (disk (fs s))))
      ((unat (wt_offset m) + unat (wt_size m) - 1) div unat (tamanioDeBloque (disk (fs s))))"
  shows "\<exists>a d'. serve_write s m = Some ([new_nipc_ok (wt_client_id m)], s\<lparr>fs := (fs s)\<lparr>disk := d'\<rparr>, adm := a\<rparr>) \<and>
    open_rep a f \<and>
    (\<forall>i < unat (wt_size m). d' (file_addr (disk (fs s)) ino (unat (wt_offset m) + i)) = wt_data m ! i) \<and>
    (\<forall>x. (\<forall>i < unat (wt_size m). x \<noteq> file_addr (disk (fs s)) ino (unat (wt_offset m) + i)) \<longrightarrow> d' x = disk (fs s) x)"
  by (rule serve_write_eff [OF assms])

section \<open>Writing through the cache\<close>

lemma disk_block_written:
  assumes "tamanioDeBloque d = push_bit j 1024" and "j \<le> 4"
    and "2 \<le> unat n" and "(unat n + 1) * unat (tamanioDeBloque d) \<le> 2 ^ 32" and "length b = unat (tamanioDeBloque d)"
  shows "traerBloqueDeDisco (mem_write d (obtenerBloque d n) b) n = b"
proof -
  let ?B = "unat (tamanioDeBloque d)"
  note B = block_size_pos [OF assms(1,2)]
  have "unat n * ?B < 2 ^ 32" using assms(4) B by (simp add: add_mult_distrib)
  then have ob: "obtenerBloque d n = unat n * ?B" by (simp add: obtenerBloque_def unat_word_ariths)
  have "2 * 1024 \<le> unat n * ?B" using assms(3) B(1) by (rule mult_le_mono)
  then have "tamanioDeBloque (mem_write d (obtenerBloque d n) b) = tamanioDeBloque d"
    by (simp add: ob tamanioDeBloque_def sb_log_block_size_def rd32_def read_superblock_def mem_simps)
  then show ?thesis using assms(5) by (simp add: traerBloqueDeDisco_def obtenerBloque_def)
qed

lemma other_block_kept:
  assumes "tamanioDeBloque d = push_bit j 1024" and "j \<le> 4" and "2 \<le> unat n" and "(unat n + 1) * unat (tamanioDeBloque d) \<le> 2 ^ 32"
    and "length b = unat (tamanioDeBloque d)" and "m \<noteq> n" and "(unat m + 1) * unat (tamanioDeBloque d) \<le> 2 ^ 32"
  shows "traerBloqueDeDisco (mem_write d (obtenerBloque d n) b) m = traerBloqueDeDisco d m"
proof -
  let ?B = "unat (tamanioDeBloque d)"
  note B = block_size_pos [OF assms(1,2)]
  have "unat n * ?B < 2 ^ 32" "unat m * ?B < 2 ^ 32" using assms(4,7) B by (simp_all add: add_mult_distrib)
  then have o: "obtenerBloque d n = unat n * ?B" "obtenerBloque d m = unat m * ?B" by (simp_all add: obtenerBloque_def unat_word_ariths)
  have "2 * 1024 \<le> unat n * ?B" using assms(3) B(1) by (rule mult_le_mono)
  then have t: "tamanioDeBloque (mem_write d (obtenerBloque d n) b) = tamanioDeBloque d"
    by (simp add: o tamanioDeBloque_def sb_log_block_size_def rd32_def read_superblock_def mem_simps)
  have "unat m \<noteq> unat n" using assms(6) by (simp add: word_unat_eq_iff)
  then have "Suc (unat m) \<le> unat n \<or> Suc (unat n) \<le> unat m" by linarith
  then have "Suc (unat m) * ?B \<le> unat n * ?B \<or> Suc (unat n) * ?B \<le> unat m * ?B" using mult_le_mono1 by blast
  then have "unat m * ?B + ?B \<le> unat n * ?B \<or> unat n * ?B + length b \<le> unat m * ?B" using assms(5) by (simp add: add.commute)
  then have "mem_read (mem_write d (unat n * ?B) b) (unat m * ?B) ?B = mem_read d (unat m * ?B) ?B"
    by (intro mem_read_write_disjoint) auto
  then show ?thesis using t o by (simp add: traerBloqueDeDisco_def obtenerBloque_def)
qed

text \<open>
  C20. A write and the cache: let the cache, if there is one, obey the contract of memcached and hold only blocks as they are on the disk. Then
  \<open>grabarBloque\<close> puts the block on the disk, and afterwards \<open>traerBloque\<close> of every other block is right: it gets
  what is on the disk, where that block is as before. Of the block itself it gets the new bytes, or the bytes from before
  the write; the latter only when the cache held the block, since it is offered with \<open>memcached_add\<close>, which
  need not replace a value. (Block numbers whose address wraps around are left out.)
\<close>

theorem write_through_cache:
  assumes "coherent k d" and "tamanioDeBloque d = push_bit j 1024" and "j \<le> 4"
    and "2 \<le> unat n" and "(unat n + 1) * unat (tamanioDeBloque d) \<le> 2 ^ 32" and "length b = unat (tamanioDeBloque d)"
  shows "\<exists>k' d'. grabarBloque k d n b = Some (k', d') \<and> traerBloqueDeDisco d' n = b \<and>
    (traerBloque k' d' n = b \<or> traerBloque k' d' n = traerBloqueDeDisco d n \<and>
       (\<exists>mc. lib k = Some mc \<and> traerBloqueDeCache mc (conn k) n \<noteq> None)) \<and>
    (\<forall>m. m \<noteq> n \<and> (unat m + 1) * unat (tamanioDeBloque d) \<le> 2 ^ 32 \<longrightarrow>
       traerBloque k' d' m = traerBloqueDeDisco d' m \<and> traerBloqueDeDisco d' m = traerBloqueDeDisco d m)"
proof -
  let ?d = "mem_write d (obtenerBloque d n) b"
  have t: "traerBloqueDeDisco ?d n = b" by (rule disk_block_written [OF assms(2-)])
  note o = other_block_kept [OF assms(2-6)]
  show ?thesis
  proof (cases "lib k")
    case None
    then have "grabarBloque k d n b = Some (k, ?d)" using assms(6) by (simp add: grabarBloque_def read_buf_def)
    then show ?thesis using None t o by (intro exI [of _ k] exI [of _ ?d]) (simp add: traerBloque_def)
  next
    case (Some mc)
    define c where "c = mc_add mc (conn k) (string_from_uint32 n) b"
    have g: "grabarBloque k d n b = Some (k\<lparr>conn := c\<rparr>, ?d)"
      using Some assms(6) by (simp add: grabarBloque_def guardarBloqueEnCache_def read_buf_def c_def)
    have L: "memcached_laws mc" "\<And>m w. traerBloqueDeCache mc (conn k) m = Some w \<Longrightarrow> w = traerBloqueDeDisco d m"
      using assms(1) Some by (auto simp: coherent_def)
    have a: "m = n \<and> w = b \<or> traerBloqueDeCache mc (conn k) m = Some w \<and> w = traerBloqueDeDisco d m"
      if "traerBloqueDeCache mc c m = Some w" for m w using block_added [OF L(1), of "conn k" n b m w] L(2) that by (auto simp: c_def)
    have "traerBloque (k\<lparr>conn := c\<rparr>) ?d n = b \<or> traerBloque (k\<lparr>conn := c\<rparr>) ?d n = traerBloqueDeDisco d n \<and>
        traerBloqueDeCache mc (conn k) n \<noteq> None"
      using Some t a [of n] by (cases "traerBloqueDeCache mc c n") (auto simp: traerBloque_def)
    moreover have "traerBloque (k\<lparr>conn := c\<rparr>) ?d m = traerBloqueDeDisco d m"
      if "m \<noteq> n" "(unat m + 1) * unat (tamanioDeBloque d) \<le> 2 ^ 32" for m
      using Some a [of m] o [OF that] that(1) by (cases "traerBloqueDeCache mc c m") (auto simp: traerBloque_def)
    ultimately show ?thesis using g t o Some by (intro exI [of _ "k\<lparr>conn := c\<rparr>"] exI [of _ ?d]) auto
  qed
qed

section \<open>Witnesses\<close>

theorem write_bytes_witness:
  "\<exists>a d'. serve_write demo_server \<lparr>wt_nipcType = 3, wt_client_id = 7, wt_path = str ''/a'', wt_data = str ''ey'', wt_size = 2,
     wt_offset = 1\<rparr> = Some ([new_nipc_ok 7], demo_server\<lparr>fs := (fs demo_server)\<lparr>disk := d'\<rparr>, adm := a\<rparr>) \<and>
     mem_read d' 7168 4 = str ''heya''"
proof -
  let ?m = "\<lparr>wt_nipcType = 3, wt_client_id = 7, wt_path = str ''/a'', wt_data = str ''ey'', wt_size = 2, wt_offset = 1\<rparr>"
  have b: "blk demo_fs 5376 0 = 7"
    by (simp add: blk_def getPtrNroBloqueLogicoDentroInodo_def esBloqueDirecto_def demo_fs_facts)
  then have f: "file_addr demo_fs 5376 1 = 7169" "file_addr demo_fs 5376 (Suc (Suc 0)) = 7170"
    by (simp_all add: file_addr_def demo_fs_super obtenerBloque_def)
  have ok: "blocks_ok demo_fs 5376 0 0" using b by (simp add: blocks_ok_def demo_fs_super)
  have l: "(\<forall>i < 2. P i) \<longleftrightarrow> P 0 \<and> P 1" for P :: "nat \<Rightarrow> bool" by (auto simp: less_2_cases_iff)
  obtain a d' where w: "serve_write demo_server ?m =
      Some ([new_nipc_ok 7], demo_server\<lparr>fs := (fs demo_server)\<lparr>disk := d'\<rparr>, adm := a\<rparr>)"
    "d' 7169 = 101" "d' 7170 = 121" "\<forall>x. x \<noteq> 7169 \<and> x \<noteq> 7170 \<longrightarrow> d' x = demo_fs x"
    using write_bytes [of demo_server 0 "\<lambda>_. 0" ?m 3 5376] demo_file_number demo_fs_facts demo_fs_super inicializar_rep
      demo_file_facts ok f by (auto simp: str_def l)
  then have "mem_read d' 7168 4 = str ''heya''" by (simp add: mem_read_def str_def demo_fs_data upt_rec)
  then show ?thesis using w(1) by blast
qed

theorem write_through_cache_witness:
  "\<exists>k' d'. grabarBloque (rcache cached_server) demo_fs 7 (replicate 1024 2) = Some (k', d') \<and>
     traerBloqueDeDisco d' 7 = replicate 1024 2 \<and> traerBloque k' d' 6 = traerBloqueDeDisco demo_fs 6"
  using write_through_cache [OF cached_coherent, of 0 7 "replicate 1024 2"] by (auto simp: demo_fs_super)

text \<open>Both outcomes for the block itself occur, the old bytes with the first memcached and the new ones with the second.\<close>

lemma add_or_replace:
  "map_option (\<lambda>(k, d). traerBloque k d 7) (grabarBloque \<lparr>lib = Some demo_memcached,
     conn = [string_from_uint32 7 \<mapsto> old]\<rparr> demo_fs 7 (replicate 1024 2)) = Some old"
  "map_option (\<lambda>(k, d). traerBloque k d 7) (grabarBloque \<lparr>lib = Some replacing_memcached,
     conn = [string_from_uint32 7 \<mapsto> old]\<rparr> demo_fs 7 (replicate 1024 2)) = Some (replicate 1024 2)"
  by (simp_all add: grabarBloque_def guardarBloqueEnCache_def traerBloque_def traerBloqueDeCache_def demo_memcached_def
      replacing_memcached_def read_buf_def demo_fs_super)

end
