(* ===== verification/WriteThrough.thy ===== *)
theory WriteThrough
  imports EndToEnd Writes
begin

text \<open>
  Writing through all layers: the client's \<open>remote_write\<close> with its query of the attributes, the frames on the network, the switch and
  \<open>serve_write\<close> of the server, the inode and the blocks on the disk.
\<close>

lemma one_piece:
  assumes "sz \<le> maximumReadWriteSize cl" and "unat (maximumReadWriteSize cl) < 2 ^ 31"
  shows "request_size cl sz 0 = sz"
proof -
  have u: "unat sz \<le> unat (maximumReadWriteSize cl)" using assms(1) by (simp add: word_le_nat_alt)
  then have "sint sz = int (unat sz)" "sint (maximumReadWriteSize cl) = int (unat (maximumReadWriteSize cl))"
    using assms(2) by (intro sint_small; simp)+
  then have "\<not> sint (maximumReadWriteSize cl) < sint sz" using u by (simp only: of_nat_less_iff not_less)
  then show ?thesis by (simp add: request_size_def)
qed

text \<open>The state of a server whose file system can be written in place.\<close>

definition writable :: "'c server \<Rightarrow> (u32 \<Rightarrow> int) \<Rightarrow> nat \<Rightarrow> nat \<Rightarrow> nat \<Rightarrow> nat \<Rightarrow> bool" where
  "writable s f k ino off n \<longleftrightarrow> tamanioDeBloque (disk (fs s)) = push_bit k 1024 \<and> k \<le> 4 \<and> open_rep (adm s) f \<and> lib (rcache s) = None \<and>
     nroBloqueDentroDelInodo (disk (fs s)) (of_nat off + of_nat n - 1) < cantidadDeBloques (disk (fs s)) ino \<and>
     blocks_ok (disk (fs s)) ino (off div unat (tamanioDeBloque (disk (fs s)))) ((off + n - 1) div unat (tamanioDeBloque (disk (fs s))))"

text \<open>The request of one piece, served.\<close>

lemma piece_written:
  assumes "delivers net (answers b b1 b2)" and "path_ok path" and "numeroInodo (disk (fs (cl_net cl))) path = Some nro"
    and "inodo_at (disk (fs (cl_net cl))) nro = Some ino" and W: "writable (cl_net cl) f k ino off (unat sz)" and "0 < sz"
    and "length input = unat sz" and "length path + length input + 64 < 2 ^ 32" and off: "off + unat sz < 2 ^ 31"
  obtains m s' where "new_nipc_write (client_id cl) path input sz (of_nat off) = Some m"
    "consultar net cl (serialize_write m) = Some (new_nipc_ok (client_id cl), cl\<lparr>cl_net := s'\<rparr>)" "open_rep (adm s') f"
    "\<forall>i < unat sz. disk (fs s') (file_addr (disk (fs (cl_net cl))) ino (off + i)) = input ! i"
    "\<forall>x. (\<forall>i < unat sz. x \<noteq> file_addr (disk (fs (cl_net cl))) ino (off + i)) \<longrightarrow> disk (fs s') x = disk (fs (cl_net cl)) x"
proof -
  let ?s = "cl_net cl" and ?d = "disk (fs (cl_net cl))"
  have w: "tamanioDeBloque ?d = push_bit k 1024" "k \<le> 4" "open_rep (adm ?s) f" "lib (rcache ?s) = None"
    and w2: "nroBloqueDentroDelInodo ?d (of_nat off + sz - 1) < cantidadDeBloques ?d ino"
      "blocks_ok ?d ino (off div unat (tamanioDeBloque ?d)) ((off + unat sz - 1) div unat (tamanioDeBloque ?d))"
    using W unfolding writable_def by auto
  define m where "m = empty_nipc_write\<lparr>wt_client_id := client_id cl, wt_path := path, wt_data := input, wt_size := sz, wt_offset := of_nat off\<rparr>"
  have m: "wt_offset m = of_nat off" "wt_size m = sz" "wt_data m = input" "wt_path m = path" "wt_client_id m = client_id cl"
    by (simp_all add: m_def)
  have u: "unat (of_nat off :: u32) = off" using off by (simp add: unat_of_nat_small)
  have "k = 0 \<or> k = 1 \<or> k = 2 \<or> k = 3 \<or> k = 4" using w by auto
  then have B: "unat (tamanioDeBloque ?d) \<le> 2 ^ 14" using w by auto
  have "\<exists>a d'. serve_write ?s m = Some ([new_nipc_ok (wt_client_id m)], ?s\<lparr>fs := (fs ?s)\<lparr>disk := d'\<rparr>, adm := a\<rparr>) \<and> open_rep a f \<and>
    (\<forall>i < unat (wt_size m). d' (file_addr ?d ino (unat (wt_offset m) + i)) = wt_data m ! i) \<and>
    (\<forall>x. (\<forall>i < unat (wt_size m). x \<noteq> file_addr ?d ino (unat (wt_offset m) + i)) \<longrightarrow> d' x = ?d x)"
    by (rule serve_write_eff [OF w]) (use w2 assms(3,4,6,7) m u off B in simp_all)
  then obtain a d' where r: "serve_write ?s m = Some ([new_nipc_ok (client_id cl)], ?s\<lparr>fs := (fs ?s)\<lparr>disk := d'\<rparr>, adm := a\<rparr>)" "open_rep a f"
    "\<forall>i < unat sz. d' (file_addr ?d ino (off + i)) = input ! i"
    "\<forall>x. (\<forall>i < unat sz. x \<noteq> file_addr ?d ino (off + i)) \<longrightarrow> d' x = ?d x"
    unfolding m u by blast
  let ?s' = "?s\<lparr>fs := (fs ?s)\<lparr>disk := d'\<rparr>, adm := a\<rparr>"
  have "request_ok (Req_write m)" using assms(2,7,8) by (simp add: write_ok_def m_def empty_nipc_write_def)
  from consultar_serve [OF assms(1) this, of cl "new_nipc_ok (client_id cl)" "[]" ?s']
  have c: "consultar net cl (serialize_write m) = Some (new_nipc_ok (client_id cl), cl\<lparr>cl_net := ?s'\<rparr>)"
    using r(1) by (simp add: serve_def new_nipc_ok_def packet_ok_def)
  have n: "new_nipc_write (client_id cl) path input sz (of_nat off) = Some m"
    using assms(7) by (simp add: new_nipc_write_def read_buf_def m_def)
  show ?thesis by (rule that [OF n c]) (use r(2-4) in simp_all)
qed

text \<open>
  C3. Writing a file from end to end: the client writes, over a network that delivers and in one request, inside a file of the server; the
  call returns the size, every byte of the input is on the disk of the server at its place in the file, every other
  byte of that disk is what it was, and the counts of open files stay.
\<close>

theorem write_end_to_end:
  assumes "delivers net (answers b b1 b2)" and "path_ok path" and "lib (remote_cache cl) = None"
    and "numeroInodo (disk (fs (cl_net cl))) path = Some nro" and "nro \<noteq> 0" and "inodo_at (disk (fs (cl_net cl))) nro = Some ino"
    and "writable (cl_net cl) f k ino off (unat sz)" and "0 < sz" and "length input = unat sz" and "length path + length input + 64 < 2 ^ 32"
    and "sz \<le> maximumReadWriteSize cl" and "unat (maximumReadWriteSize cl) < 2 ^ 31"
    and "off + unat sz \<le> unat (ino_size (disk (fs (cl_net cl))) ino)" and "unat (ino_size (disk (fs (cl_net cl))) ino) < 2 ^ 31"
  shows "\<exists>s'. remote_write g net cl path input sz (int off) = Some (int (unat sz), cl\<lparr>cl_net := s'\<rparr>) \<and> open_rep (adm s') f \<and>
    (\<forall>i < unat sz. disk (fs s') (file_addr (disk (fs (cl_net cl))) ino (off + i)) = input ! i) \<and>
    (\<forall>x. (\<forall>i < unat sz. x \<noteq> file_addr (disk (fs (cl_net cl))) ino (off + i)) \<longrightarrow> disk (fs s') x = disk (fs (cl_net cl)) x)"
proof -
  let ?d = "disk (fs (cl_net cl))"
  have off: "off + unat sz < 2 ^ 31" using assms(13,14) by simp
  obtain m s' where r: "new_nipc_write (client_id cl) path input sz (of_nat off) = Some m"
    "consultar net cl (serialize_write m) = Some (new_nipc_ok (client_id cl), cl\<lparr>cl_net := s'\<rparr>)" "open_rep (adm s') f"
    "\<forall>i < unat sz. disk (fs s') (file_addr ?d ino (off + i)) = input ! i"
    "\<forall>x. (\<forall>i < unat sz. x \<noteq> file_addr ?d ino (off + i)) \<longrightarrow> disk (fs s') x = ?d x"
    using piece_written [OF assms(1,2,4,6-10) off] .
  have z: "request_size cl sz 0 = sz" by (rule one_piece [OF assms(11,12)])
  have "write_loop net cl' path input sz o' sz = Some (Inr sz, cl')" for cl' :: "('a server, 'b) client" and o' by (subst write_loop.simps) simp
  then have "write_loop net cl path input sz (int off) 0 = Some (Inr sz, cl\<lparr>cl_net := s'\<rparr>)"
    using assms(8) r(1,2) z by (subst write_loop.simps) (simp add: new_nipc_ok_def)
  moreover have "remote_getattr g net cl path = Some (0, Some (stat_of ?d ino), cl)"
    using getattr_found [OF assms(1-3) _ assms(5,6)] assms(4) by (simp add: numeroInodo_def)
  moreover have "int (off + unat sz) \<le> int (unat (ino_size ?d ino))" using assms(13) by (simp only: of_nat_le_iff)
  then have "\<not> st_size (stat_of ?d ino) < int off + uint sz" by (simp add: stat_of_def)
  moreover have "sint sz = int (unat sz)" using off by (intro sint_small) simp
  ultimately have "remote_write g net cl path input sz (int off) = Some (int (unat sz), cl\<lparr>cl_net := s'\<rparr>)"
    using assms(3) by (simp add: remote_write_def olvidar_def)
  then show ?thesis using r by (intro exI [of _ s']) simp
qed

theorem write_end_to_end_witness:
  "\<exists>s'. remote_write 0 (line (answers 0 0 0)) block_client (str ''/a'') (str ''ey'') 2 (int 1) = Some (2, block_client\<lparr>cl_net := s'\<rparr>) \<and>
     mem_read (disk (fs s')) 7168 4 = str ''heya''"
proof -
  have b: "blk demo_fs 5376 0 = 7"
    by (simp add: blk_def getPtrNroBloqueLogicoDentroInodo_def esBloqueDirecto_def demo_fs_facts)
  then have f: "file_addr demo_fs 5376 1 = 7169" "file_addr demo_fs 5376 (Suc (Suc 0)) = 7170"
    by (simp_all add: file_addr_def demo_fs_super obtenerBloque_def)
  have ok: "writable demo_server (\<lambda>_. 0) 0 5376 1 2" using b demo_file_facts
    by (simp add: writable_def blocks_ok_def demo_fs_super inicializar_rep)
  have l: "(\<forall>i < 2. P i) \<longleftrightarrow> P 0 \<and> P 1" for P :: "nat \<Rightarrow> bool" by (auto simp: less_2_cases_iff)
  have c: "cl_net block_client = demo_server" "maximumReadWriteSize block_client = 1024" "lib (remote_cache block_client) = None"
    by (simp_all add: block_client_def)
  obtain s' where w: "remote_write 0 (line (answers 0 0 0)) block_client (str ''/a'') (str ''ey'') 2 (int 1) = Some (2, block_client\<lparr>cl_net := s'\<rparr>)"
    "disk (fs s') 7169 = 101" "disk (fs s') 7170 = 121" "\<forall>x. x \<noteq> 7169 \<and> x \<noteq> 7170 \<longrightarrow> disk (fs s') x = demo_fs x"
    using write_end_to_end [OF delivers_line demo_path_ok(1) c(3), where nro = 3 and ino = 5376 and f = "\<lambda>_. 0" and k = 0 and off = 1 and sz = 2
        and input = "str ''ey''" and g = 0 and b = 0 and ?b1.0 = 0 and ?b2.0 = 0] ok f demo_file_number demo_fs_facts
    by (auto simp: c str_def l)
  then have "mem_read (disk (fs s')) 7168 4 = str ''heya''" by (simp add: mem_read_def str_def demo_fs_data upt_rec)
  then show ?thesis using w(1) by blast
qed

end
