(* ===== verification/Config.thy ===== *)
theory Config
  imports Dictionary CString
begin

text \<open>
  Configuration files and log levels: \<open>commons/config.c\<close>, the levels of \<open>commons/log.c\<close>, and what the client reads from
  its configuration when it starts (\<open>initialize_configuration\<close> of \<open>fsc/src/fileSystemClient.c\<close>). The file is the argument:
  its bytes, or nothing when it cannot be opened. Writing the log and \<open>atof\<close> are not modelled.
\<close>

section \<open>Configuration files\<close>

record t_config =
  cf_path :: cstr
  cf_properties :: "cstr t_dictionary"

text \<open>
  One line: a comment, or the first two pieces between \<open>=\<close> as key and value. A line without \<open>=\<close> puts a null value; a
  line without any piece dereferences the null key.
\<close>

definition add_cofiguration :: "cstr t_dictionary \<Rightarrow> cstr \<Rightarrow> cstr t_dictionary option" where
  "add_cofiguration props line =
     (if string_starts_with line (str ''#'') then Some props
      else (case string_split line (str ''='') of
          [] \<Rightarrow> None
        | [k] \<Rightarrow> Some (dictionary_put props k None)
        | k # v # _ \<Rightarrow> Some (dictionary_put props k (Some v))))"

fun add_lines :: "cstr t_dictionary \<Rightarrow> cstr list \<Rightarrow> cstr t_dictionary option" where
  "add_lines props [] = Some props"
| "add_lines props (line # lines) = do { props1 \<leftarrow> add_cofiguration props line; add_lines props1 lines }"

definition config_create :: "cstr \<Rightarrow> buffer option \<Rightarrow> t_config option" where
  "config_create path file = (case file of
      None \<Rightarrow> Some \<lparr>cf_path = path, cf_properties = dictionary_create\<rparr>
    | Some bytes \<Rightarrow> do {
        text \<leftarrow> c_str (bytes @ [0]);
        props \<leftarrow> add_lines dictionary_create (string_split text [10]);
        Some \<lparr>cf_path = path, cf_properties = props\<rparr> })"

definition config_has_property :: "t_config \<Rightarrow> cstr \<Rightarrow> bool" where
  "config_has_property self name = dictionary_has_key (cf_properties self) name"

text \<open>\<open>None\<close> is the null pointer.\<close>

definition config_get_string_value :: "t_config \<Rightarrow> cstr \<Rightarrow> cstr option" where
  "config_get_string_value self name = dictionary_get (cf_properties self) name"

text \<open>\<open>atoi\<close> of the C library: blanks, a sign, digits; undefined outside of the range of \<open>int\<close>.\<close>

definition is_digit :: "byte \<Rightarrow> bool" where
  "is_digit c \<longleftrightarrow> 48 \<le> c \<and> c \<le> 57"

definition digits_value :: "cstr \<Rightarrow> int" where
  "digits_value s = foldl (\<lambda>n c. n * 10 + (uint c - 48)) 0 (takeWhile is_digit s)"

definition atoi :: "cstr \<Rightarrow> int option" where
  "atoi s = (let t = dropWhile c_isspace s;
       n = (case t of
          [] \<Rightarrow> 0
        | c # rest \<Rightarrow> if c = 45 then - digits_value rest else if c = 43 then digits_value rest else digits_value t)
     in if - (2 ^ 31) \<le> n \<and> n < 2 ^ 31 then Some n else None)"

text \<open>A missing key is a null pointer that \<open>atoi\<close> reads.\<close>

definition config_get_int_value :: "t_config \<Rightarrow> cstr \<Rightarrow> int option" where
  "config_get_int_value self name = do { v \<leftarrow> config_get_string_value self name; atoi v }"

definition config_get_long_value :: "t_config \<Rightarrow> cstr \<Rightarrow> int option" where
  "config_get_long_value self name = do { v \<leftarrow> config_get_string_value self name; atoi v }"

definition config_keys_amount :: "t_config \<Rightarrow> int" where
  "config_keys_amount self = dictionary_size (cf_properties self)"

section \<open>Log levels\<close>

definition enum_names :: "cstr list" where
  "enum_names = [str ''TRACE'', str ''DEBUG'', str ''INFO'', str ''WARNING'', str ''ERROR'']"

text \<open>The name of a level; undefined past the table.\<close>

definition log_level_as_string :: "u32 \<Rightarrow> cstr option" where
  "log_level_as_string level = (if unat level < length enum_names then Some (enum_names ! unat level) else None)"

fun level_loop :: "cstr \<Rightarrow> u32 \<Rightarrow> cstr list \<Rightarrow> u32" where
  "level_loop level i [] = - 1"
| "level_loop level i (name # names) = (if string_equals_ignore_case level name then i else level_loop level (i + 1) names)"

definition log_level_from_string :: "cstr \<Rightarrow> u32" where
  "log_level_from_string level = level_loop level 0 enum_names"

text \<open>The enumeration is unsigned: the -1 of an unknown level is above every level.\<close>

definition isEnableLevelInLogger :: "u32 \<Rightarrow> u32 \<Rightarrow> bool" where
  "isEnableLevelInLogger detail level \<longleftrightarrow> level \<ge> detail"

section \<open>The configuration of the client\<close>

record fsc_settings =
  logger_detail :: u32
  logger_sockets_detail :: u32
  fileSystemIP :: cstr
  fileSystemPort :: u16
  maximum_size :: u32
  cache_server :: "(cstr \<times> u16) option"

text \<open>
  The values in the order they are read. A name or level that is missing is a null pointer that is dereferenced; the
  file of a log may be missing. The size is a product of 32-bit integers, undefined when it overflows.
\<close>

definition initialize_configuration :: "t_config \<Rightarrow> fsc_settings option" where
  "initialize_configuration config = do {
     log_level \<leftarrow> config_get_string_value config (str ''logger.level'');
     log_name \<leftarrow> config_get_string_value config (str ''logger.name'');
     log_has_console \<leftarrow> config_get_int_value config (str ''logger.has_console'');
     log_socket_level \<leftarrow> config_get_string_value config (str ''logger.sockets.level'');
     log_socket_name \<leftarrow> config_get_string_value config (str ''logger.sockets.name'');
     log_socket_has_console \<leftarrow> config_get_int_value config (str ''logger.sockets.has_console'');
     ip \<leftarrow> config_get_string_value config (str ''filesystem.ip'');
     port \<leftarrow> config_get_int_value config (str ''filesystem.port'');
     maxsize \<leftarrow> config_get_int_value config (str ''readwrite.maxsize'');
     ensure (- (2 ^ 31) \<le> maxsize * 1024 \<and> maxsize * 1024 < 2 ^ 31);
     active \<leftarrow> config_get_int_value config (str ''is.active.cache'');
     cache \<leftarrow> (if active \<noteq> 0
       then do {
         host \<leftarrow> config_get_string_value config (str ''cache.host'');
         cport \<leftarrow> config_get_int_value config (str ''cache.port'');
         Some (Some (host, word_of_int cport)) }
       else Some None);
     Some \<lparr>logger_detail = log_level_from_string log_level, logger_sockets_detail = log_level_from_string log_socket_level,
           fileSystemIP = ip, fileSystemPort = word_of_int port, maximum_size = word_of_int (maxsize * 1024),
           cache_server = cache\<rparr> }"

section \<open>Reading a file that was written\<close>

datatype config_line = Comment cstr | Setting cstr cstr

fun line_text :: "config_line \<Rightarrow> cstr" where
  "line_text (Comment c) = 35 # c"
| "line_text (Setting k v) = k @ 61 # v"

fun line_ok :: "config_line \<Rightarrow> bool" where
  "line_ok (Comment c) \<longleftrightarrow> 10 \<notin> set c \<and> 0 \<notin> set c"
| "line_ok (Setting k v) \<longleftrightarrow> k \<noteq> [] \<and> v \<noteq> [] \<and> hd k \<noteq> 35 \<and> set (k @ v) \<inter> {0, 10, 61} = {}"

fun settings :: "config_line list \<Rightarrow> (cstr \<times> cstr option) list" where
  "settings [] = []"
| "settings (Comment c # ls) = settings ls"
| "settings (Setting k v # ls) = (k, Some v) # settings ls"

lemma add_line:
  assumes "line_ok l"
  shows "add_cofiguration props (line_text l) =
    Some (case l of Comment c \<Rightarrow> props | Setting k v \<Rightarrow> dictionary_put props k (Some v))"
proof (cases l)
  case (Comment c)
  then show ?thesis by (simp add: add_cofiguration_def string_starts_with_def strncmp_eq_def str_def)
next
  case (Setting k v)
  then have c: "component {61} k" "component {61} v" using assms by (auto simp: component_def)
  have "string_split_loop (61 # k @ 61 # v) {61} = [k, v]"
    using string_split_loop_join [of 61 "{61}" "[k, v]"] c by simp
  then have "string_split (k @ 61 # v) (str ''='') = [k, v]"
    by (simp add: string_split_def string_duplicate_def str_def string_split_loop_skip)
  moreover have "\<not> string_starts_with (k @ 61 # v) (str ''#'')"
    using Setting assms by (cases k) (auto simp: string_starts_with_def strncmp_eq_def str_def)
  ultimately show ?thesis using Setting by (simp add: add_cofiguration_def)
qed

lemma add_all:
  "list_all line_ok ls \<Longrightarrow> add_lines props (map line_text ls) = Some (fold (\<lambda>(k, v) d. dictionary_put d k v) (settings ls) props)"
  by (induction ls arbitrary: props rule: settings.induct) (simp_all add: add_line del: line_text.simps line_ok.simps)

lemma line_component: "line_ok l \<Longrightarrow> component {10} (line_text l) \<and> is_cstr (line_text l)"
  by (cases l) (auto simp: component_def is_cstr_def)

lemma join_is_cstr: "list_all (\<lambda>x. is_cstr x) xs \<Longrightarrow> is_cstr (join_path 10 xs)"
  by (induction xs) (auto simp: is_cstr_def)

lemma config_contents:
  assumes "list_all line_ok ls" and "\<forall>k' \<in> fst ` set (settings ls). dictionary_hash k' = dictionary_hash k \<longrightarrow> k' = k"
  shows "\<exists>c. config_create path (Some (join_path 10 (map line_text ls))) = Some c \<and>
    config_get_string_value c k = (case map_of (settings ls) k of None \<Rightarrow> None | Some v \<Rightarrow> v) \<and>
    config_keys_amount c = int (length (settings ls))"
proof -
  let ?d = "fold (\<lambda>(k, v) d. dictionary_put d k v) (settings ls) dictionary_create"
  have "list_all (\<lambda>x. is_cstr x) (map line_text ls)" using assms(1) line_component by (induction ls) auto
  from join_is_cstr [OF this] have "c_str (join_path 10 (map line_text ls) @ [0]) = Some (join_path 10 (map line_text ls))"
    by simp
  moreover have "string_split (join_path 10 (map line_text ls)) [10] = map line_text ls"
    using string_split_loop_join [of 10 "{10}" "map line_text ls"] assms(1) line_component
    by (auto simp: string_split_def string_duplicate_def list_all_iff)
  ultimately have "config_create path (Some (join_path 10 (map line_text ls))) = Some \<lparr>cf_path = path, cf_properties = ?d\<rparr>"
    using add_all [OF assms(1)] by (simp add: config_create_def)
  then show ?thesis
    using dict.get_put_all_map [OF assms(2)] dict.put_all_count [of "settings ls" dictionary_create]
    by (simp add: config_get_string_value_def config_keys_amount_def dict.empty_count)
qed



text \<open>
  Log levels: the name of each of the five levels gives the level and back, and a string that is none of the five
  names, in any case, gives a level at which no message of the logger is written.
\<close>

theorem log_levels:
  "if list_ex (string_equals_ignore_case level) enum_names
   then map_option (string_equals_ignore_case level) (log_level_as_string (log_level_from_string level)) = Some True
   else list_all (\<lambda>l. \<not> isEnableLevelInLogger (log_level_from_string level) l) [0, 1, 2, 3, 4]"
proof -
  have "unat (- 1 :: u32) = 4294967295" by (simp add: unsigned_minus_1_eq_mask mask_eq_exp_minus_1)
  then have "\<not> (- 1 :: u32) \<le> 0" "\<not> (- 1 :: u32) \<le> 1" "\<not> (- 1 :: u32) \<le> 2" "\<not> (- 1 :: u32) \<le> 3" "\<not> (- 1 :: u32) \<le> 4"
    by (simp_all only: word_le_nat_alt) simp_all
  then show ?thesis
    by (auto simp: log_level_from_string_def enum_names_def log_level_as_string_def isEnableLevelInLogger_def)
qed

end
