(* ===== verification/Startup.thy ===== *)
theory Startup
  imports Config
begin

unbundle bit_operations_syntax

text \<open>
  How the server starts and follows its configuration, from \<open>rfs/src/main_rfs.c\<close>: \<open>initialize_configuration\<close>, the loop of
  \<open>listen_config\<close> over the events that \<open>inotify\<close> delivers, and the time that \<open>do_sleep\<close> asks for. The configuration file and the
  bytes read from \<open>inotify\<close> are arguments. Creating loggers, threads, semaphores and connections is left out.
\<close>

section \<open>Configuration of the server\<close>

record rfs_settings =
  sleep_time :: int
  sleep_type :: cstr
  rfs_logger_detail :: u32
  rfs_sockets_detail :: u32
  disk_path :: cstr
  listening_port :: u16
  max_connections :: int
  max_events :: int
  max_threads :: u32
  rfs_cache_server :: "(cstr \<times> u16) option"

text \<open>
  The values in the order they are read. \<open>None\<close>: a missing name, level or number is a null pointer that is dereferenced,
  and without the path of the disk \<open>mapear_archivo\<close> ends the program. The files of the logs may be missing.
\<close>

definition initialize_configuration :: "t_config \<Rightarrow> rfs_settings option" where
  "initialize_configuration config = do {
     log_level \<leftarrow> config_get_string_value config (str ''logger.level'');
     log_name \<leftarrow> config_get_string_value config (str ''logger.name'');
     log_has_console \<leftarrow> config_get_int_value config (str ''logger.has_console'');
     time \<leftarrow> config_get_int_value config (str ''sleep_time'');
     type \<leftarrow> config_get_string_value config (str ''sleep_type'');
     log_socket_level \<leftarrow> config_get_string_value config (str ''logger.sockets.level'');
     log_socket_name \<leftarrow> config_get_string_value config (str ''logger.sockets.name'');
     log_socket_has_console \<leftarrow> config_get_int_value config (str ''logger.sockets.has_console'');
     disco \<leftarrow> config_get_string_value config (str ''filesystem.disk'');
     port \<leftarrow> config_get_int_value config (str ''connections.listen_port'');
     connections \<leftarrow> config_get_int_value config (str ''connections.max_connections'');
     events \<leftarrow> config_get_int_value config (str ''connections.max_events'');
     threads \<leftarrow> config_get_int_value config (str ''connections.max_threads'');
     active \<leftarrow> config_get_int_value config (str ''is.active.cache'');
     cache \<leftarrow> (if active \<noteq> 0
       then do {
         host \<leftarrow> config_get_string_value config (str ''cache.host'');
         cport \<leftarrow> config_get_int_value config (str ''cache.port'');
         Some (Some (host, word_of_int cport)) }
       else Some None);
     Some \<lparr>sleep_time = time, sleep_type = type, rfs_logger_detail = log_level_from_string log_level,
           rfs_sockets_detail = log_level_from_string log_socket_level, disk_path = disco, listening_port = word_of_int port,
           max_connections = connections, max_events = events, max_threads = word_of_int threads, rfs_cache_server = cache\<rparr> }"

section \<open>Sleeping\<close>

text \<open>The argument of \<open>usleep\<close>: a product of 32-bit unsigned integers.\<close>

definition do_sleep :: "int \<Rightarrow> cstr \<Rightarrow> u32" where
  "do_sleep time type = (if type = str ''MICRO'' then word_of_int time * 1000000 else word_of_int time * 1000000000)"

text \<open>
  The time slept is exact as long as the product fits: up to 4294 for \<open>MICRO\<close>, where the unit is the second, and up to
  4 otherwise, where the unit is 1000 seconds; beyond that it wraps.
\<close>

theorem sleep_bounds:
  assumes "0 \<le> time" and "time < 2 ^ 31"
  shows "unat (do_sleep time type) = nat (time * (if type = str ''MICRO'' then 1000000 else 1000000000)) mod 2 ^ 32"
proof -
  have "unat (word_of_int time :: u32) = nat time" using assms by (simp add: unsigned_of_int nat_take_bit_eq take_bit_nat_eq_self)
  then show ?thesis using assms by (simp add: do_sleep_def unat_word_ariths nat_mult_distrib)
qed

theorem sleep_bounds_witness: "unat (do_sleep 5 (str ''MILI'')) = 705032704"
  using sleep_bounds [of 5 "str ''MILI''"] by (simp add: str_def)

section \<open>Changes of the configuration\<close>

definition IN_MODIFY :: u32 where "IN_MODIFY = 2"
definition IN_ISDIR :: u32 where "IN_ISDIR = 0x40000000"
definition PATH_CONFIG :: cstr where "PATH_CONFIG = str ''rfs.conf''"

text \<open>What is read again when the file changes.\<close>

definition releer :: "buffer option \<Rightarrow> (int \<times> cstr) option" where
  "releer file = do {
     config \<leftarrow> config_create PATH_CONFIG file;
     time \<leftarrow> config_get_int_value config (str ''sleep_time'');
     type \<leftarrow> config_get_string_value config (str ''sleep_type'');
     Some (time, type) }"

text \<open>
  The inner loop of \<open>listen_config\<close> over a buffer of events (\<open>struct inotify_event\<close>: the mask at 4, the length of the name
  at 12, the name at 16). \<open>archivo offset\<close> is the file when the event at \<open>offset\<close> is handled. The offset only moves
  past an event that modifies a file.
\<close>

partial_function (option) listen_loop :: "(nat \<Rightarrow> buffer option) \<Rightarrow> buffer \<Rightarrow> nat \<Rightarrow> int \<times> cstr \<Rightarrow> (int \<times> cstr) option" where
  [code]: "listen_loop archivo buf offset s =
     (if offset < length buf
      then Option.bind (read_u32 buf (offset + 4)) (\<lambda>mask.
        Option.bind (read_u32 buf (offset + 12)) (\<lambda>len.
        if mask AND IN_MODIFY \<noteq> 0 \<and> mask AND IN_ISDIR = 0
        then Option.bind (releer (archivo offset)) (\<lambda>s1. listen_loop archivo buf (offset + 16 + unat len) s1)
        else listen_loop archivo buf offset s))
      else Some s)"

record inotify_event =
  ev_wd :: u32
  ev_mask :: u32
  ev_cookie :: u32
  ev_name :: buffer

definition event_bytes :: "inotify_event \<Rightarrow> buffer" where
  "event_bytes e = le32 (ev_wd e) @ le32 (ev_mask e) @ le32 (ev_cookie e) @ le32 (of_nat (length (ev_name e))) @ ev_name e"

definition modifies :: "inotify_event \<Rightarrow> bool" where
  "modifies e \<longleftrightarrow> ev_mask e AND IN_MODIFY \<noteq> 0 \<and> ev_mask e AND IN_ISDIR = 0"

text \<open>The events one after the other; any other event than the change of a file stops everything.\<close>

fun run_events :: "(nat \<Rightarrow> buffer option) \<Rightarrow> nat \<Rightarrow> inotify_event list \<Rightarrow> int \<times> cstr \<Rightarrow> (int \<times> cstr) option" where
  "run_events archivo off [] s = Some s"
| "run_events archivo off (e # es) s = (if modifies e
     then do { s1 \<leftarrow> releer (archivo off); run_events archivo (off + 16 + length (ev_name e)) es s1 }
     else None)"

lemma event_reads:
  assumes "length (ev_name e) < 2 ^ 32"
  shows "read_u32 (pre @ event_bytes e @ post) (length pre + 4) = Some (ev_mask e)"
    and "read_u32 (pre @ event_bytes e @ post) (length pre + 12) = Some (of_nat (length (ev_name e)))"
  using read_u32_mid [of "length pre + 4" "pre @ le32 (ev_wd e)"] read_u32_mid [of "length pre + 12" "pre @ le32 (ev_wd e) @ le32 (ev_mask e) @ le32 (ev_cookie e)"]
  by (simp_all add: event_bytes_def)

lemma stuck_event:
  assumes "listen_loop archivo buf offset s = Some r"
  shows "offset < length buf \<and> read_u32 buf (offset + 4) = Some m \<longrightarrow> m AND IN_MODIFY \<noteq> 0 \<and> m AND IN_ISDIR = 0"
    (is "?P buf offset")
proof (rule listen_loop.raw_induct [OF _ assms])
  fix loop archivo buf offset s r
  assume IH: "\<And>archivo buf offset s r. loop archivo buf offset s = Some r \<Longrightarrow> ?P buf offset"
    and st: "(if offset < length buf
      then Option.bind (read_u32 buf (offset + 4)) (\<lambda>mask.
        Option.bind (read_u32 buf (offset + 12)) (\<lambda>len.
        if mask AND IN_MODIFY \<noteq> 0 \<and> mask AND IN_ISDIR = 0
        then Option.bind (releer (archivo offset)) (\<lambda>s1. loop archivo buf (offset + 16 + unat len) s1)
        else loop archivo buf offset s))
      else Some s) = Some r"
  show "?P buf offset"
  proof (intro impI, rule ccontr)
    assume a: "offset < length buf \<and> read_u32 buf (offset + 4) = Some m" "\<not> (m AND IN_MODIFY \<noteq> 0 \<and> m AND IN_ISDIR = 0)"
    then have "loop archivo buf offset s = Some r" using st by (auto split: bind_splits if_splits)
    then show False using IH a by blast
  qed
qed

lemma listen_loop_events:
  "list_all (\<lambda>e. length (ev_name e) < 2 ^ 32) es \<Longrightarrow>
    listen_loop archivo (pre @ concat (map event_bytes es)) (length pre) s = run_events archivo (length pre) es s"
proof (induction es arbitrary: pre s)
  case Nil
  then show ?case by (subst listen_loop.simps) simp
next
  case (Cons e es)
  have l: "length (event_bytes e) = 16 + length (ev_name e)" by (simp add: event_bytes_def)
  note rd = event_reads [of e pre "concat (map event_bytes es)"]
  have n: "unat (of_nat (length (ev_name e)) :: u32) = length (ev_name e)"
    using Cons.prems by (simp add: unsigned_of_nat take_bit_nat_eq_self)
  have IH: "listen_loop archivo (pre @ event_bytes e @ concat (map event_bytes es)) (length pre + 16 + length (ev_name e)) =
      run_events archivo (length pre + 16 + length (ev_name e)) es"
    by (rule ext) (use Cons.IH [of "pre @ event_bytes e"] Cons.prems l in \<open>simp add: add.assoc\<close>)
  show ?case
  proof (cases "modifies e")
    case True
    then show ?thesis using Cons.prems rd l n IH by (subst listen_loop.simps) (simp add: modifies_def)
  next
    case False
    then have "listen_loop archivo (pre @ event_bytes e @ concat (map event_bytes es)) (length pre) s = None"
      using stuck_event [of archivo "pre @ event_bytes e @ concat (map event_bytes es)" "length pre" s _ "ev_mask e"] Cons.prems rd l
      by (cases "listen_loop archivo (pre @ event_bytes e @ concat (map event_bytes es)) (length pre) s")
        (auto simp: modifies_def)
    then show ?thesis using False by simp
  qed
qed

text \<open>
  C31. Changes of the configuration: on a buffer of any events the loop of \<open>listen_config\<close> reads the settings again for each change
  of the file, in order, and returns; at the first event of another kind (a directory, or the file deleted or
  moved) it does not return, because the offset stays at that event.
\<close>

theorem config_events:
  assumes "list_all (\<lambda>e. length (ev_name e) < 2 ^ 32) es"
  shows "listen_loop archivo (concat (map event_bytes es)) 0 s = run_events archivo 0 es s"
  using listen_loop_events [OF assms, of archivo "[]"] by simp

definition demo_conf_file :: buffer where
  "demo_conf_file = join_path 10 (map line_text [Setting (str ''sleep_time'') (str ''3''), Setting (str ''sleep_type'') (str ''MILI'')])"

lemma demo_releer: "releer (Some demo_conf_file) = Some (3, str ''MILI'')"
proof -
  let ?ls = "[Setting (str ''sleep_time'') (str ''3''), Setting (str ''sleep_type'') (str ''MILI'')]"
  have h: "dictionary_hash (str ''sleep_time'') \<noteq> dictionary_hash (str ''sleep_type'')" by code_simp
  have k: "str ''sleep_type'' \<noteq> str ''sleep_time''" by (simp add: str_def)
  have ok: "list_all line_ok ?ls" by (simp add: str_def)
  obtain c where c: "config_create PATH_CONFIG (Some demo_conf_file) = Some c" "config_get_string_value c (str ''sleep_time'') = Some (str ''3'')"
    using config_contents [OF ok, of "str ''sleep_time''" PATH_CONFIG] h by (auto simp: demo_conf_file_def)
  moreover have "config_get_string_value c (str ''sleep_type'') = Some (str ''MILI'')"
    using config_contents [OF ok, of "str ''sleep_type''" PATH_CONFIG] h c(1) k by (auto simp: demo_conf_file_def)
  moreover have "atoi (str ''3'') = Some 3" by code_simp
  ultimately show ?thesis by (simp add: releer_def config_get_int_value_def)
qed

theorem config_events_witness:
  "listen_loop (\<lambda>_. Some demo_conf_file)
     (event_bytes \<lparr>ev_wd = 1, ev_mask = 2, ev_cookie = 0, ev_name = []\<rparr>) 0 (0, str ''MICRO'') = Some (3, str ''MILI'') \<and>
   listen_loop (\<lambda>_. None) (event_bytes \<lparr>ev_wd = 1, ev_mask = 0x8000, ev_cookie = 0, ev_name = []\<rparr>) 0 (0, str ''MICRO'') = None"
  using config_events [of "[\<lparr>ev_wd = 1, ev_mask = 2, ev_cookie = 0, ev_name = []\<rparr>]"] demo_releer
    config_events [of "[\<lparr>ev_wd = 1, ev_mask = 0x8000, ev_cookie = 0, ev_name = []\<rparr>]"]
  by (simp add: modifies_def IN_MODIFY_def IN_ISDIR_def)

end
