(* ===== verification/Log.thy ===== *)
theory Log
  imports Config
begin

text \<open>
  The logger: \<open>commons/log.c\<close>, \<open>commons/temporal.c\<close>, \<open>commons/error.c\<close>, and of \<open>printf\<close> the conversions that the programs use in
  their messages. The clock, the process and thread ids and the result of \<open>fopen\<close> are arguments; a file is the
  bytes written to it. \<open>None\<close> is a write past the end of one of the buffers of fixed size, or a null pointer.
\<close>

section \<open>Formats\<close>

text \<open>An argument of a variadic call: a string, possibly null, or an integer.\<close>

datatype arg = A_str "cstr option" | A_int int

fun octal_of :: "nat \<Rightarrow> cstr" where
  "octal_of n = (if n < 8 then [of_nat (48 + n)] else octal_of (n div 8) @ [of_nat (48 + n mod 8)])"

declare octal_of.simps [simp del]

definition int_digits :: "int \<Rightarrow> cstr" where
  "int_digits n = (if n < 0 then 45 # digits_of (nat (- n)) else digits_of (nat n))"

text \<open>One conversion: \<open>%s\<close>, \<open>%d\<close>, \<open>%u\<close>, \<open>%o\<close>.\<close>

definition conversion :: "byte \<Rightarrow> arg \<Rightarrow> cstr option" where
  "conversion k a = (case a of
      A_str s \<Rightarrow> (if k = 115 then s else None)
    | A_int n \<Rightarrow> (if k = 100 then Some (int_digits n)
                  else if k = 117 \<and> 0 \<le> n then Some (digits_of (nat n))
                  else if k = 111 \<and> 0 \<le> n then Some (octal_of (nat n)) else None))"

lemma dropWhile_rest: "dropWhile P cs = k # rest \<Longrightarrow> length rest < Suc (length cs)"
  using length_dropWhile_le [of P cs] by simp

text \<open>The template; \<open>h\<close> and \<open>l\<close> between \<open>%\<close> and the conversion are sizes of the argument.\<close>

function vsprintf :: "cstr \<Rightarrow> arg list \<Rightarrow> cstr option" where
  "vsprintf [] args = Some []"
| "vsprintf (c # cs) args =
     (if c \<noteq> 37 then map_option ((#) c) (vsprintf cs args)
      else (case dropWhile (\<lambda>c. c = 104 \<or> c = 108) cs of
              [] \<Rightarrow> None
            | k # rest \<Rightarrow>
                (case args of
                   [] \<Rightarrow> None
                 | a # as \<Rightarrow> do { s \<leftarrow> conversion k a; t \<leftarrow> vsprintf rest as; Some (s @ t) })))"
  by pat_completeness auto
termination
  by (relation "measure (\<lambda>(t, _). length t)") (simp_all add: dropWhile_rest)

section \<open>Errors and the time of day\<close>

text \<open>The bytes that are on the console afterwards.\<close>

definition error_show :: "cstr \<Rightarrow> arg list \<Rightarrow> buffer \<Rightarrow> buffer option" where
  "error_show message arguments out = do {
     let error_message = string_append (str ''[[ERROR]]'') message;
     t \<leftarrow> vsprintf error_message arguments;
     Some (out @ t) }"

record reloj =
  rj_time :: "(nat \<times> nat \<times> nat) option"
  rj_millitm :: "u16 option"

definition two_digits :: "nat \<Rightarrow> cstr" where
  "two_digits n = [of_nat (48 + n div 10), of_nat (48 + n mod 10)]"

text \<open>\<open>strftime\<close> with \<open>%H:%M:%S\<close>: a \<open>struct tm\<close> has fields of two digits.\<close>

definition strftime_hms :: "nat \<times> nat \<times> nat \<Rightarrow> cstr" where
  "strftime_hms tm = (case tm of (h, m, s) \<Rightarrow> two_digits h @ [58] @ two_digits m @ [58] @ two_digits s)"

text \<open>
  The string, or a null pointer (\<open>None\<close> inside) when there is no time, and the console. The buffer of the string
  has the size of \<open>hh:mm:ss:mmmm\<close> and its end, that of the first part the size of \<open>hh:mm:ss\<close>.
\<close>

definition temporal_get_string_time :: "reloj \<Rightarrow> buffer \<Rightarrow> (cstr option \<times> buffer) option" where
  "temporal_get_string_time r out = (case rj_time r of
      None \<Rightarrow> do { out1 \<leftarrow> error_show (str ''Error getting date!'') [] out; Some (None, out1) }
    | Some log_tm \<Rightarrow> (case rj_millitm r of
        None \<Rightarrow> do { out1 \<leftarrow> error_show (str ''Error getting time!'') [] out; Some (None, out1) }
      | Some millitm \<Rightarrow> do {
          let partial_time = strftime_hms log_tm;
          ensure (length partial_time < length (str ''hh:mm:ss'') + 1);
          str_time \<leftarrow> vsprintf (str ''%s:%hu'') [A_str (Some partial_time), A_int (uint millitm)];
          ensure (length str_time < length (str ''hh:mm:ss:mmmm'') + 1);
          Some (Some str_time, out) }))"

section \<open>Loggers\<close>

record t_log =
  lg_file :: "buffer option"
  lg_is_active_console :: bool
  lg_detail :: u32
  lg_program_name :: cstr
  lg_pid :: int

text \<open>
  The file asked for and what \<open>fopen\<close> finds in it; the logger, or a null pointer (\<open>None\<close> inside). \<open>strdup\<close> reads the
  name.
\<close>

definition log_create :: "cstr option \<Rightarrow> buffer option \<Rightarrow> cstr option \<Rightarrow> bool \<Rightarrow> u32 \<Rightarrow> int \<Rightarrow> t_log option option" where
  "log_create file file_opened program_name is_active_console detail pid =
     (if file \<noteq> None \<and> file_opened = None then Some None
      else do {
        name \<leftarrow> program_name;
        Some (Some \<lparr>lg_file = (if file = None then None else file_opened), lg_is_active_console = is_active_console,
                    lg_detail = detail, lg_program_name = name, lg_pid = pid\<rparr>) })"

text \<open>\<open>fclose\<close> of a null file is undefined. The value is the file that stays.\<close>

definition log_destroy :: "t_log \<Rightarrow> buffer option" where
  "log_destroy logger = lg_file logger"

definition LOG_MAX_LENGTH_MESSAGE :: nat where "LOG_MAX_LENGTH_MESSAGE = 1024"
definition LOG_MAX_LENGTH_BUFFER :: nat where "LOG_MAX_LENGTH_BUFFER = LOG_MAX_LENGTH_MESSAGE + 100"

text \<open>The line goes to the file and to the console. The thread id is printed as a signed integer.\<close>

definition log_write_in_level :: "t_log \<Rightarrow> u32 \<Rightarrow> cstr \<Rightarrow> arg list \<Rightarrow> reloj \<Rightarrow> u32 \<Rightarrow> buffer \<Rightarrow> (t_log \<times> buffer) option" where
  "log_write_in_level logger level message_template list_arguments r thread_id out =
     (if isEnableLevelInLogger (lg_detail logger) level
      then do {
        message \<leftarrow> vsprintf message_template list_arguments;
        ensure (length message < LOG_MAX_LENGTH_MESSAGE + 1);
        (time, out1) \<leftarrow> temporal_get_string_time r out;
        level_name \<leftarrow> log_level_as_string level;
        buffer \<leftarrow> vsprintf (str ''[%s] %s %s/(%d:%d): %s'' @ [10])
          [A_str (Some level_name), A_str time, A_str (Some (lg_program_name logger)), A_int (lg_pid logger),
           A_int (sint thread_id), A_str (Some message)];
        ensure (length buffer < LOG_MAX_LENGTH_BUFFER + 1);
        Some (logger\<lparr>lg_file := map_option (\<lambda>f. f @ buffer) (lg_file logger)\<rparr>,
              if lg_is_active_console logger then out1 @ buffer else out1) }
      else Some (logger, out))"

definition log_trace :: "t_log \<Rightarrow> cstr \<Rightarrow> arg list \<Rightarrow> reloj \<Rightarrow> u32 \<Rightarrow> buffer \<Rightarrow> (t_log \<times> buffer) option" where
  "log_trace logger = log_write_in_level logger 0"

definition log_debug :: "t_log \<Rightarrow> cstr \<Rightarrow> arg list \<Rightarrow> reloj \<Rightarrow> u32 \<Rightarrow> buffer \<Rightarrow> (t_log \<times> buffer) option" where
  "log_debug logger = log_write_in_level logger 1"

definition log_info :: "t_log \<Rightarrow> cstr \<Rightarrow> arg list \<Rightarrow> reloj \<Rightarrow> u32 \<Rightarrow> buffer \<Rightarrow> (t_log \<times> buffer) option" where
  "log_info logger = log_write_in_level logger 2"

definition log_warning :: "t_log \<Rightarrow> cstr \<Rightarrow> arg list \<Rightarrow> reloj \<Rightarrow> u32 \<Rightarrow> buffer \<Rightarrow> (t_log \<times> buffer) option" where
  "log_warning logger = log_write_in_level logger 3"

definition log_error :: "t_log \<Rightarrow> cstr \<Rightarrow> arg list \<Rightarrow> reloj \<Rightarrow> u32 \<Rightarrow> buffer \<Rightarrow> (t_log \<times> buffer) option" where
  "log_error logger = log_write_in_level logger 4"

section \<open>The line of a message\<close>

lemma length_digits: "0 < k \<Longrightarrow> n < 10 ^ k \<Longrightarrow> length (digits_of n) \<le> k"
proof (induction k arbitrary: n)
  case (Suc k)
  show ?case
  proof (cases "n < 10")
    case False
    then have "0 < k" using Suc.prems by (cases k) auto
    moreover have "n div 10 < 10 ^ k" using Suc.prems by (simp add: less_mult_imp_div_less)
    ultimately show ?thesis using Suc.IH [of "n div 10"] False by (simp add: digits_of.simps [of n])
  qed (simp add: digits_of.simps [of n])
qed simp

lemma length_int_digits:
  assumes "- (2 ^ 31) \<le> n" and "n < 2 ^ 31"
  shows "length (int_digits n) \<le> 11"
proof -
  have "nat (- n) < 10 ^ 10" "nat n < 10 ^ 10" using assms by (simp_all add: nat_less_iff)
  then show ?thesis using length_digits [of 10 "nat (- n)"] length_digits [of 10 "nat n"] by (simp add: int_digits_def)
qed

definition clock_ok :: "reloj \<Rightarrow> bool" where
  "clock_ok r \<longleftrightarrow> (case rj_time r of Some (h, m, s) \<Rightarrow> h < 24 \<and> m < 60 \<and> s \<le> 60 | None \<Rightarrow> False) \<and>
     (case rj_millitm r of Some t \<Rightarrow> t < 1000 | None \<Rightarrow> False)"

definition time_text :: "reloj \<Rightarrow> cstr" where
  "time_text r = strftime_hms (the (rj_time r)) @ [58] @ digits_of (unat (the (rj_millitm r)))"

lemma template_time: "vsprintf (str ''%s:%hu'') [A_str (Some x), A_int (uint (t :: u16))] = Some (x @ [58] @ digits_of (unat t))"
  by (simp add: str_def conversion_def)

lemma time_of_day:
  assumes "clock_ok r"
  shows "temporal_get_string_time r out = Some (Some (time_text r), out)" and "length (time_text r) \<le> 12"
proof -
  obtain h m s t where r: "rj_time r = Some (h, m, s)" "rj_millitm r = Some t" "t < 1000"
    using assms by (auto simp: clock_ok_def split: option.splits)
  have "unat t < 10 ^ 3" using r(3) by (simp add: word_less_nat_alt)
  then have l: "length (digits_of (unat t)) \<le> 3" using length_digits [of 3 "unat t"] by simp
  then show "length (time_text r) \<le> 12" using r by (simp add: time_text_def strftime_hms_def two_digits_def)
  have "length (str ''hh:mm:ss'') = 8" "length (str ''hh:mm:ss:mmmm'') = 13" by (simp_all add: str_def)
  then show "temporal_get_string_time r out = Some (Some (time_text r), out)"
    using r l by (simp add: temporal_get_string_time_def template_time time_text_def strftime_hms_def two_digits_def del: vsprintf.simps)
qed

text \<open>The line \<open>[LEVEL] time name/(pid:thread): message\<close>.\<close>

definition log_line :: "t_log \<Rightarrow> cstr \<Rightarrow> reloj \<Rightarrow> u32 \<Rightarrow> cstr \<Rightarrow> cstr" where
  "log_line logger name r thread_id message =
     str ''['' @ name @ str ''] '' @ time_text r @ str '' '' @ lg_program_name logger @ str ''/('' @ int_digits (lg_pid logger) @
     str '':'' @ int_digits (sint thread_id) @ str ''): '' @ message @ [10]"

lemma template_line:
  "vsprintf (str ''[%s] %s %s/(%d:%d): %s'' @ [10])
     [A_str (Some l), A_str (Some t), A_str (Some n), A_int p, A_int i, A_str (Some m)] =
   Some (str ''['' @ l @ str ''] '' @ t @ str '' '' @ n @ str ''/('' @ int_digits p @ str '':'' @ int_digits i @ str ''): '' @ m @ [10])"
  by (simp add: str_def conversion_def)

lemma level_name:
  assumes "level < 5"
  obtains name where "log_level_as_string level = Some name" "length name \<le> 7"
proof -
  have "unat level < 5" using assms by (simp add: word_less_nat_alt)
  then have "unat level < length enum_names" "length (enum_names ! unat level) \<le> 7"
    by (auto simp: enum_names_def str_def less_Suc_eq numeral_eq_Suc nth_Cons')
  then show ?thesis using that by (simp add: log_level_as_string_def)
qed

lemma line_fits:
  assumes "clock_ok r" and "length name \<le> 7" and "length (lg_program_name logger) \<le> 48" and "- (2 ^ 31) \<le> lg_pid logger"
    and "lg_pid logger < 2 ^ 31" and "length message \<le> 1024"
  shows "length (log_line logger name r i message) \<le> 1124"
proof -
  have "- (2 ^ 31) \<le> sint i" "sint i < 2 ^ 31" using sint_ge [of i] sint_lt [of i] by simp_all
  then show ?thesis using time_of_day(2) [OF assms(1)] length_int_digits [of "sint i"] length_int_digits [of "lg_pid logger"] assms
    by (simp add: log_line_def str_def)
qed

text \<open>
  C27. What a call of the logger does, for a program name of at most 48 bytes: below the level of the logger nothing; with a
  message of up to 1024 bytes the whole line is added once to the file and, if it is active, to the console,
  and no buffer overflows; with a longer message the buffer of the message overflows.
\<close>

theorem log_write_outcome:
  assumes "vsprintf template args = Some message" and "clock_ok r" and "level < 5" and "length (lg_program_name logger) \<le> 48"
    and "- (2 ^ 31) \<le> lg_pid logger" and "lg_pid logger < 2 ^ 31"
  shows "log_write_in_level logger level template args r i out =
    (if level < lg_detail logger then Some (logger, out)
     else if 1024 < length message then None
     else (let line = log_line logger (the (log_level_as_string level)) r i message in
       Some (logger\<lparr>lg_file := map_option (\<lambda>f. f @ line) (lg_file logger)\<rparr>, if lg_is_active_console logger then out @ line else out)))"
proof -
  obtain name where n: "log_level_as_string level = Some name" "length name \<le> 7" using level_name [OF assms(3)] .
  show ?thesis
  proof (cases "level < lg_detail logger \<or> 1024 < length message")
    case True
    then show ?thesis using assms(1) by (auto simp: log_write_in_level_def isEnableLevelInLogger_def LOG_MAX_LENGTH_MESSAGE_def)
  next
    case False
    then have "length (log_line logger name r i message) \<le> 1124" using line_fits assms n by simp
    moreover have "lg_detail logger \<le> level" "\<not> level < lg_detail logger" "length message < 1025" using False by auto
    ultimately show ?thesis using assms(1) n time_of_day(1) [OF assms(2)]
      by (simp add: log_write_in_level_def isEnableLevelInLogger_def LOG_MAX_LENGTH_MESSAGE_def LOG_MAX_LENGTH_BUFFER_def template_line
          log_line_def Let_def del: vsprintf.simps)
  qed
qed

definition demo_log :: t_log where
  "demo_log = \<lparr>lg_file = Some [], lg_is_active_console = False, lg_detail = 1, lg_program_name = str ''rfs'', lg_pid = 42\<rparr>"

theorem log_write_outcome_witness:
  "log_write_in_level demo_log 1 (str ''unlink %s (pide %d)'') [A_str (Some (replicate 1500 97)), A_int 7]
     \<lparr>rj_time = Some (12, 5, 9), rj_millitm = Some 30\<rparr> 1 [] = None \<and>
   log_write_in_level demo_log 1 (str ''unlink %s (pide %d)'') [A_str (Some (str ''/a'')), A_int 7]
     \<lparr>rj_time = Some (12, 5, 9), rj_millitm = Some 30\<rparr> 1 [] =
   Some (demo_log\<lparr>lg_file := Some (str ''[DEBUG] 12:05:09:30 rfs/(42:1): unlink /a (pide 7)'' @ [10])\<rparr>, [])"
proof -
  let ?r = "\<lparr>rj_time = Some (12, 5, 9), rj_millitm = Some 30\<rparr>"
  have v: "vsprintf (str ''unlink %s (pide %d)'') [A_str (Some x), A_int 7] = Some (str ''unlink '' @ x @ str '' (pide 7)'')" for x
    by (simp add: str_def conversion_def int_digits_def digits_of.simps)
  have c: "clock_ok ?r" "length (lg_program_name demo_log) \<le> 48" "(1 :: u32) < 5" by (simp_all add: clock_ok_def demo_log_def str_def)
  note w = log_write_outcome [OF v c(1,3,2), where i = 1 and out = "[]"]
  have "log_write_in_level demo_log 1 (str ''unlink %s (pide %d)'') [A_str (Some (replicate 1500 97)), A_int 7] ?r 1 [] = None"
    by (subst w) (simp_all add: demo_log_def str_def)
  moreover have "the (log_level_as_string 1) = str ''DEBUG''" by code_simp
  moreover have "log_line demo_log (str ''DEBUG'') ?r 1 (str ''unlink '' @ str ''/a'' @ str '' (pide 7)'') =
      str ''[DEBUG] 12:05:09:30 rfs/(42:1): unlink /a (pide 7)'' @ [10]" by code_simp
  moreover have "length (str ''unlink '' @ str ''/a'' @ str '' (pide 7)'') \<le> 1024" by (simp add: str_def)
  moreover have "lg_detail demo_log = 1" "lg_file demo_log = Some []" "\<not> lg_is_active_console demo_log" "lg_pid demo_log = 42"
    by (simp_all add: demo_log_def)
  ultimately show ?thesis using w [of "str ''/a''"] by (simp add: Let_def)
qed

end
