(* ===== verification/Connections.thy ===== *)
theory Connections
  imports Sockets
begin

unbundle bit_operations_syntax

text \<open>
  Making sockets: the rest of \<open>commons/src/sockets/sockets.c\<close>. The kernel is a record with the descriptors that are open, their
  flags and addresses; what \<open>socket\<close>, \<open>bind\<close> and \<open>inet_addr\<close> answer are arguments.
\<close>

section \<open>Addresses\<close>

definition AF_INET :: u16 where "AF_INET = 2"
definition O_NONBLOCK :: u32 where "O_NONBLOCK = 0x800"
definition INADDR_ANY :: u32 where "INADDR_ANY = 0"

record sockaddr_in =
  sin_family :: u16
  sin_port :: u16
  sin_addr :: u32

text \<open>Network order is the other one on a little-endian machine.\<close>

definition htons :: "u16 \<Rightarrow> u16" where
  "htons port = push_bit 8 port OR drop_bit 8 port"

definition socket_address :: "u32 \<Rightarrow> u16 \<Rightarrow> sockaddr_in" where
  "socket_address ip port = \<lparr>sin_family = AF_INET, sin_port = htons port, sin_addr = ip\<rparr>"

text \<open>The struct in memory; the last eight bytes are those of \<open>memset\<close>.\<close>

definition address_bytes :: "sockaddr_in \<Rightarrow> buffer" where
  "address_bytes a = le16 (sin_family a) @ le16 (sin_port a) @ le32 (sin_addr a) @ replicate 8 0"

section \<open>Sockets\<close>

record kernel =
  k_open :: "int set"
  k_flags :: "int \<Rightarrow> u32"
  k_nodelay :: "int set"
  k_bound :: "int \<rightharpoonup> sockaddr_in"
  k_peer :: "int \<rightharpoonup> sockaddr_in"

text \<open>A new descriptor, or -1.\<close>

definition sys_socket :: "int \<Rightarrow> kernel \<Rightarrow> kernel" where
  "sys_socket fd k = (if fd < 0 then k else k\<lparr>k_open := insert fd (k_open k), k_flags := (k_flags k)(fd := 2)\<rparr>)"

definition sys_close :: "int \<Rightarrow> kernel \<Rightarrow> kernel" where
  "sys_close fd k = k\<lparr>k_open := k_open k - {fd}\<rparr>"

text \<open>\<open>fcntl\<close> answers -1 for a descriptor that is not open.\<close>

definition make_socket_non_blocking :: "int \<Rightarrow> kernel \<Rightarrow> int \<times> kernel" where
  "make_socket_non_blocking sfd k =
     (if sfd \<notin> k_open k then (- 1, k) else (0, k\<lparr>k_flags := (k_flags k)(sfd := k_flags k sfd OR O_NONBLOCK)\<rparr>))"

text \<open>No result is looked at: not that of \<open>socket\<close>, nor that of \<open>connect\<close>, which is still in progress when this returns.\<close>

definition socket_connect :: "int \<Rightarrow> u32 \<Rightarrow> u16 \<Rightarrow> kernel \<Rightarrow> int \<times> kernel" where
  "socket_connect socketDescriptor remoteIP port k =
     (let k1 = sys_socket socketDescriptor k;
          k2 = (if socketDescriptor \<in> k_open k1 then k1\<lparr>k_nodelay := insert socketDescriptor (k_nodelay k1)\<rparr> else k1);
          k3 = snd (make_socket_non_blocking socketDescriptor k2);
          address = socket_address remoteIP port
      in (socketDescriptor,
          if socketDescriptor \<in> k_open k3 then k3\<lparr>k_peer := (k_peer k3)(socketDescriptor \<mapsto> address)\<rparr> else k3))"

definition socket_binded :: "int \<Rightarrow> bool \<Rightarrow> u16 \<Rightarrow> kernel \<Rightarrow> int \<times> kernel" where
  "socket_binded socketDescriptor bind_ok port k =
     (let k1 = sys_socket socketDescriptor k in
      if socketDescriptor < 0 then (- 1, k1)
      else
        let k2 = snd (make_socket_non_blocking socketDescriptor k1);
            address = socket_address INADDR_ANY port
        in if \<not> bind_ok then (- 1, sys_close socketDescriptor k2)
           else (socketDescriptor, k2\<lparr>k_bound := (k_bound k2)(socketDescriptor \<mapsto> address)\<rparr>))"

section \<open>What they do\<close>

text \<open>The port is stored with its high byte first, whatever the machine.\<close>

lemma le16_htons: "le16 (htons port) = [ucast (drop_bit 8 port), ucast port]"
proof -
  have "(ucast (htons port) :: byte) = ucast (drop_bit 8 port)" "(ucast (drop_bit 8 (htons port)) :: byte) = ucast port"
    by (rule bit_word_eqI; auto simp: htons_def bit_simps)+
  then show ?thesis unfolding le16_def by (simp only:)
qed

lemma address_layout: "address_bytes (socket_address ip port) = [2, 0, ucast (drop_bit 8 port), ucast port] @ le32 ip @ replicate 8 0"
proof -
  have "le16 AF_INET = [2, 0]" by code_simp
  then show ?thesis by (simp add: address_bytes_def socket_address_def le16_htons)
qed

text \<open>
  The socket the server listens on: when there is a descriptor and the port is free, it is open, does not block and is bound to any
  address and the port in network order; when the port is taken, the answer is -1 and no descriptor stays
  open.
\<close>

theorem listening_socket:
  assumes "0 \<le> fd" and "fd \<notin> k_open k"
  shows "\<exists>k'. socket_binded fd b port k = (if b then fd else - 1, k') \<and> k_open k' = (if b then insert fd (k_open k) else k_open k) \<and>
    k_flags k' fd AND O_NONBLOCK = O_NONBLOCK \<and>
    (b \<longrightarrow> map_option address_bytes (k_bound k' fd) = Some ([2, 0, ucast (drop_bit 8 port), ucast port] @ replicate 12 0))"
proof -
  have "le32 0 = replicate 4 0" by code_simp
  then have "address_bytes (socket_address INADDR_ANY port) = [2, 0, ucast (drop_bit 8 port), ucast port] @ replicate 12 0"
    unfolding address_layout INADDR_ANY_def by (simp add: numeral_eq_Suc)
  then show ?thesis using assms
    by (auto simp: socket_binded_def sys_socket_def sys_close_def make_socket_non_blocking_def Let_def O_NONBLOCK_def)
qed

definition demo_kernel :: kernel where
  "demo_kernel = \<lparr>k_open = {0, 1, 2}, k_flags = (\<lambda>_. 2), k_nodelay = {}, k_bound = Map.empty, k_peer = Map.empty\<rparr>"

theorem listening_socket_witness:
  "\<exists>k'. socket_binded 3 True 0x1F90 demo_kernel = (3, k') \<and>
     map_option address_bytes (k_bound k' 3) = Some ([2, 0, 0x1F, 0x90] @ replicate 12 0)"
  using listening_socket [of 3 demo_kernel True "0x1F90"] by (auto simp: demo_kernel_def)

end
