(* ===== verification/Inodes.thy ===== *)
theory Inodes
  imports Ext2
begin

text \<open>
  Allocation of inodes, \<open>getInodoLibre\<close> of \<open>rfs/src/funciones_rfs.c\<close> (definitions in \<open>Ext2\<close>): the search through the
  bitmaps of the groups and the update of bitmap and counters.
\<close>

text \<open>The descriptor of a group lies behind the superblock, and the bitmap of its inodes behind the descriptor.\<close>

definition inode_meta :: "mem \<Rightarrow> nat \<Rightarrow> bool" where
  "inode_meta d g \<longleftrightarrow> read_superblock + 44 \<le> g \<and> g + 32 \<le> ba_bitarray (inode_bitmap d g)"

lemma pedir_inodo:
  assumes g: "leerGroupDescriptor d nro = Some g" and m: "inode_meta d g"
    and i: "i < unat (sb_inodes_per_group d)" and ov: "1 + unat nro * unat (sb_inodes_per_group d) + i < 2 ^ 32"
  defines "n \<equiv> 1 + sb_inodes_per_group d * nro + of_nat i"
  shows "\<exists>d'. actualizarEstructurasCuandoPidoInodo d n = Some d' \<and>
    (\<forall>j. bitarray_test_bit d' (inode_bitmap d g) j \<longleftrightarrow> j = i \<or> bitarray_test_bit d (inode_bitmap d g) j) \<and>
    sb_free_inodes d' = sb_free_inodes d - 1 \<and> gd_free_inodes_count d' g = gd_free_inodes_count d g - 1 \<and>
    (\<forall>x. (x < read_superblock + 16 \<or> read_superblock + 20 \<le> x) \<and> (x < g + 14 \<or> g + 16 \<le> x) \<and>
       x \<noteq> ba_bitarray (inode_bitmap d g) + i div 8 \<longrightarrow> d' x = d x)"
proof -
  note G = group_arith [OF i ov]
  let ?bm = "inode_bitmap d g"
  obtain r where r: "reduce_loop (sb_inodes_per_group d) n = Some r" "unat (r - 1) = i" using G(3) by (auto simp: n_def)
  define d1 where "d1 = bitarray_set_bit d ?bm i"
  define d2 where "d2 = set_sb_free_inodes d1 (sb_free_inodes d1 - 1)"
  define d3 where "d3 = set_gd_free_inodes_count d2 g (gd_free_inodes_count d2 g - 1)"
  obtain v where v: "d1 = d(ba_bitarray ?bm + i div 8 := v)" using bitarray_ops_upd(1) by (metis d1_def)
  have M: "read_superblock + 44 \<le> g" "g + 32 \<le> ba_bitarray ?bm" using m by (auto simp: inode_meta_def)
  have "(n - 1) div sb_inodes_per_group d = nro" unfolding n_def by (rule G(2))
  then have a: "actualizarEstructurasCuandoPidoInodo d n = Some d3"
    using g r by (simp add: actualizarEstructurasCuandoPidoInodo_def d1_def d2_def d3_def Let_def)
  have bits: "bitarray_test_bit d3 ?bm j = bitarray_test_bit d1 ?bm j" for j
    by (rule test_bit_cong) (use M in \<open>simp add: d2_def d3_def set_sb_free_inodes_def set_gd_free_inodes_count_def mem_simps\<close>)
  have "bitarray_test_bit d1 ?bm j \<longleftrightarrow> j = i \<or> bitarray_test_bit d ?bm j" for j
    unfolding d1_def ba.test_setb by auto
  moreover have "sb_free_inodes d3 = sb_free_inodes d - 1" "gd_free_inodes_count d3 g = gd_free_inodes_count d g - 1"
    using M by (simp_all add: d3_def d2_def v sb_free_inodes_def set_sb_free_inodes_def set_gd_free_inodes_count_def
        gd_free_inodes_count_def mem_simps)
  moreover have "d3 x = d x" if "x < read_superblock + 16 \<or> read_superblock + 20 \<le> x" "x < g + 14 \<or> g + 16 \<le> x"
      "x \<noteq> ba_bitarray ?bm + i div 8" for x
    using that by (auto simp: d3_def d2_def v set_sb_free_inodes_def set_gd_free_inodes_count_def mem_simps)
  ultimately show ?thesis using a bits by auto
qed

text \<open>A group whose inodes are all in use.\<close>

definition group_full :: "mem \<Rightarrow> u32 \<Rightarrow> bool" where
  "group_full d nro \<longleftrightarrow> (case leerGroupDescriptor d nro of
      None \<Rightarrow> False
    | Some g \<Rightarrow> list_all (bitarray_test_bit d (inode_bitmap d g)) [0..<unat (sb_inodes_per_group d)])"

lemma full_group_skipped: "group_full d nro \<Longrightarrow> getInodoLibreDelBitmap d nro = Some 0"
  by (auto simp: group_full_def getInodoLibreDelBitmap_def list_all_iff dest: first_clear_spec split: option.splits)

lemma inodo_loop_from:
  assumes "n \<le> unat nro" and "\<And>j. j < unat nro \<Longrightarrow> group_full d (of_nat j)"
    and "getInodoLibreDelBitmap d nro = Some v" and "v \<noteq> 0"
  shows "inodo_loop d (of_nat n) = Some v"
  using assms(1)
proof (induction rule: inc_induct)
  case base
  then show ?case using assms(3,4) by (subst inodo_loop.simps) simp
next
  case (step n)
  then have "inodo_loop d (of_nat n + 1) = Some v" by (simp add: add.commute)
  then show ?case using step full_group_skipped [OF assms(2) [of n]] by (subst inodo_loop.simps) simp
qed

lemma inode_taken:
  assumes "leerGroupDescriptor d nro = Some g" and "inode_meta d g" and "sb_free_inodes d \<noteq> 0"
    and "list_all (\<lambda>j. group_full d (of_nat j)) [0..<unat nro]"
    and "m < unat (sb_inodes_per_group d)" and "\<not> bitarray_test_bit d (inode_bitmap d g) m"
    and "1 + (unat nro + 1) * unat (sb_inodes_per_group d) < 2 ^ 32"
  shows "\<exists>i n d'. getInodoLibre d = Some (n, d') \<and> i < unat (sb_inodes_per_group d) \<and>
    unat n = 1 + unat nro * unat (sb_inodes_per_group d) + i \<and> \<not> bitarray_test_bit d (inode_bitmap d g) i \<and>
    (\<forall>j. bitarray_test_bit d' (inode_bitmap d g) j \<longleftrightarrow> j = i \<or> bitarray_test_bit d (inode_bitmap d g) j) \<and>
    sb_free_inodes d' = sb_free_inodes d - 1 \<and> gd_free_inodes_count d' g = gd_free_inodes_count d g - 1 \<and>
    (\<forall>x. (x < read_superblock + 16 \<or> read_superblock + 20 \<le> x) \<and> (x < g + 14 \<or> g + 16 \<le> x) \<and>
       x \<noteq> ba_bitarray (inode_bitmap d g) + i div 8 \<longrightarrow> d' x = d x)"
proof -
  let ?bm = "inode_bitmap d g" and ?k = "unat (sb_inodes_per_group d)"
  obtain i where fi: "first_clear d ?bm ?k 0 = Some i"
    using first_clear_None [of d ?bm ?k 0] assms(5,6) by (cases "first_clear d ?bm ?k 0") auto
  note fc = first_clear_spec [OF fi]
  have lt: "i < ?k" using fc by simp
  then have ov: "1 + unat nro * ?k + i < 2 ^ 32" using assms(7) by simp
  let ?n = "1 + sb_inodes_per_group d * nro + of_nat i"
  have n: "unat ?n = 1 + unat nro * ?k + i" by (rule group_arith(1) [OF lt ov])
  then have "?n \<noteq> 0" by (metis Suc_eq_plus1_left add.assoc nat.distinct(1) unat_0)
  moreover have "getInodoLibreDelBitmap d nro = Some ?n"
    using assms(1) fi by (simp add: getInodoLibreDelBitmap_def nroInodoInicioDeGrupo_def add.commute)
  ultimately have "inodo_loop d 0 = Some ?n"
    using inodo_loop_from [of 0 nro d ?n] assms(4) by (simp add: list_all_iff)
  moreover obtain d' where "actualizarEstructurasCuandoPidoInodo d ?n = Some d' \<and>
    (\<forall>j. bitarray_test_bit d' ?bm j \<longleftrightarrow> j = i \<or> bitarray_test_bit d ?bm j) \<and>
    sb_free_inodes d' = sb_free_inodes d - 1 \<and> gd_free_inodes_count d' g = gd_free_inodes_count d g - 1 \<and>
    (\<forall>x. (x < read_superblock + 16 \<or> read_superblock + 20 \<le> x) \<and> (x < g + 14 \<or> g + 16 \<le> x) \<and>
       x \<noteq> ba_bitarray ?bm + i div 8 \<longrightarrow> d' x = d x)" using pedir_inodo [OF assms(1,2) lt ov] by blast
  ultimately show ?thesis using assms(3) n fc lt
    by (intro exI [of _ i] exI [of _ ?n] exI [of _ d']) (simp add: getInodoLibre_def)
qed

text \<open>
  C28. Inodes are given out once: when every group before one with a clear bit is full, \<open>getInodoLibre\<close> ends and returns
  the inode of a clear bit of that group; it sets that bit and no other, takes one off both counters, and
  changes no other byte of the disk.
\<close>

theorem inode_allocation:
  assumes "leerGroupDescriptor d nro = Some g" and "inode_meta d g" and "sb_free_inodes d \<noteq> 0"
    and "list_all (\<lambda>j. group_full d (of_nat j)) [0..<unat nro]"
    and "m < unat (sb_inodes_per_group d)" and "\<not> bitarray_test_bit d (inode_bitmap d g) m"
    and "1 + (unat nro + 1) * unat (sb_inodes_per_group d) < 2 ^ 32"
  shows "\<exists>i n d'. getInodoLibre d = Some (n, d') \<and> i < unat (sb_inodes_per_group d) \<and>
    unat n = 1 + unat nro * unat (sb_inodes_per_group d) + i \<and> \<not> bitarray_test_bit d (inode_bitmap d g) i \<and>
    (\<forall>j. bitarray_test_bit d' (inode_bitmap d g) j \<longleftrightarrow> j = i \<or> bitarray_test_bit d (inode_bitmap d g) j) \<and>
    sb_free_inodes d' = sb_free_inodes d - 1 \<and> gd_free_inodes_count d' g = gd_free_inodes_count d g - 1 \<and>
    (\<forall>x. (x < read_superblock + 16 \<or> read_superblock + 20 \<le> x) \<and> (x < g + 14 \<or> g + 16 \<le> x) \<and>
       x \<noteq> ba_bitarray (inode_bitmap d g) + i div 8 \<longrightarrow> d' x = d x)"
  using inode_taken [OF assms] .

text \<open>The disk of \<open>Ext2\<close> with six free inodes: inodes 1 and 2 are in use.\<close>

definition demo_inodes :: mem where
  "demo_inodes = wr32 (wr8 demo_disk 4096 3) 1040 6"

theorem inode_allocation_witness:
  "\<exists>n d'. getInodoLibre demo_inodes = Some (n, d') \<and> sb_free_inodes d' = 5"
proof -
  have f: "leerGroupDescriptor demo_inodes 0 = Some 2048" "ba_bitarray (inode_bitmap demo_inodes 2048) = 4096"
    "sb_free_inodes demo_inodes = 6" "sb_inodes_per_group demo_inodes = 8"
    "\<not> bitarray_test_bit demo_inodes (inode_bitmap demo_inodes 2048) 2" by code_simp+
  then have "inode_meta demo_inodes 2048" by (simp add: inode_meta_def read_superblock_def)
  then show ?thesis using inode_allocation [OF f(1), of 2] f by auto
qed

end
