(* ===== verification/Entries.thy ===== *)
theory Entries
  imports Files Inodes
begin

text \<open>
  Adding and removing the entries of a directory (\<open>agregarEntradaDirectorio\<close>, \<open>eliminarEntradaDirectorio\<close> of
  \<open>Directory\<close>), as operations on the chains of entries of its blocks.
\<close>

section \<open>Memory that agrees\<close>

lemma rd32_cong: "(\<And>x. a \<le> x \<Longrightarrow> x < a + 4 \<Longrightarrow> d' x = d x) \<Longrightarrow> rd32 d' a = rd32 d a"
  by (auto simp: rd32_def mem_read_def intro!: arg_cong [where f = of_le32])

lemma rd16_cong: "(\<And>x. a \<le> x \<Longrightarrow> x < a + 2 \<Longrightarrow> d' x = d x) \<Longrightarrow> rd16 d' a = rd16 d a"
  by (auto simp: rd16_def mem_read_def intro!: arg_cong [where f = of_le16])

lemma leerEntrada_cong:
  assumes "\<And>x. p \<le> x \<Longrightarrow> x < p + 8 + unat (de_name_len (leerEntrada d p)) \<Longrightarrow> d' x = d x"
  shows "leerEntrada d' p = leerEntrada d p"
proof -
  have "rd32 d' p = rd32 d p" "rd16 d' (p + 4) = rd16 d (p + 4)" using assms by (auto intro!: rd32_cong rd16_cong)
  moreover have "rd8 d' (p + 6) = rd8 d (p + 6)" "rd8 d' (p + 7) = rd8 d (p + 7)" using assms by (auto simp: rd8_def)
  moreover have "mem_read d' (p + 8) (unat (rd8 d (p + 6))) = mem_read d (p + 8) (unat (rd8 d (p + 6)))"
    using assms by (auto simp: mem_read_def leerEntrada_def Let_def)
  ultimately show ?thesis by (simp add: leerEntrada_def Let_def)
qed

lemma le_of_le:
  "length bs = 4 \<Longrightarrow> le32 (of_le32 bs) = bs" "length cs = 2 \<Longrightarrow> le16 (of_le16 cs) = cs"
proof -
  have z: "\<not> bit (a :: byte) (8 + n)" "\<not> bit a (16 + n)" "\<not> bit a (24 + n)" for a n
    by (auto dest: bit_imp_le_length)
  have l: "\<exists>a b c e. bs = [a, b, c, e]" if "length bs = 4" for bs :: buffer
    using that by (auto simp: numeral_eq_Suc length_Suc_conv)
  have l2: "\<exists>a b. cs = [a, b]" if "length cs = 2" for cs :: buffer
    using that by (auto simp: numeral_eq_Suc length_Suc_conv)
  show "length bs = 4 \<Longrightarrow> le32 (of_le32 bs) = bs"
    using l [of bs] by (auto simp: le32_def of_le32_def intro!: bit_word_eqI simp: bit_simps z)
  show "length cs = 2 \<Longrightarrow> le16 (of_le16 cs) = cs"
    using l2 [of cs] by (auto simp: le16_def of_le16_def intro!: bit_word_eqI simp: bit_simps z)
qed

lemma wr_same: "wr32 d a (rd32 d a) = d" "wr16 d a (rd16 d a) = d" "wr8 d a (rd8 d a) = d"
proof -
  show "wr32 d a (rd32 d a) = d" by (simp add: wr32_def rd32_def le_of_le)
  show "wr16 d a (rd16 d a) = d" by (simp add: wr16_def rd16_def le_of_le)
  show "wr8 d a (rd8 d a) = d" by (auto simp: wr8_def rd8_def mem_write_def fun_eq_iff less_Suc_eq_le)
qed

text \<open>Writing an entry back with another length changes the length on the disk and nothing else.\<close>

lemma grabar_len: "grabarEntrada d p ((leerEntrada d p)\<lparr>de_entry_len := l\<rparr>) = wr16 d (p + 4) l"
proof -
  let ?d = "wr16 d (p + 4) l"
  have "rd8 d (p + 6) = rd8 ?d (p + 6)" "rd8 d (p + 7) = rd8 ?d (p + 7)"
    "mem_read d (p + 8) n = mem_read ?d (p + 8) n" for n by (auto simp: rd8_def mem_read_def mem_simps)
  then show ?thesis by (simp add: grabarEntrada_def leerEntrada_def Let_def wr_same)
qed

section \<open>Directories of direct blocks\<close>

text \<open>An entry that holds its name, which has no NUL, and ends at a multiple of 4.\<close>

definition entry_fits :: "DirEntry \<Rightarrow> bool" where
  "entry_fits e \<longleftrightarrow> 8 + unat (de_name_len e) \<le> unat (de_entry_len e) \<and> 4 dvd unat (de_entry_len e) \<and> 0 \<notin> set (de_name e)"

text \<open>The address of a direct block of the directory.\<close>

definition dir_at :: "mem \<Rightarrow> nat \<Rightarrow> nat \<Rightarrow> nat" where
  "dir_at d ino i = posicionarInicioBloque d (rd32 d (ino + 40 + 4 * i))"

text \<open>
  A directory of up to 12 blocks, filled by entries that fit, which lie behind the superblock and apart from each
  other and from the inode.
\<close>

definition directory :: "mem \<Rightarrow> nat \<Rightarrow> DirEntry list list \<Rightarrow> bool" where
  "directory d ino ess \<longleftrightarrow> dir_blocks d ino ess \<and> length ess \<le> 12 \<and>
     list_all (list_all entry_fits) ess \<and>
     (\<forall>i < length ess. 2048 \<le> dir_at d ino i \<and>
        (dir_at d ino i + unat (tamanioDeBloque d) \<le> ino \<or> ino + 128 \<le> dir_at d ino i) \<and>
        (\<forall>j < i. dir_at d ino i + unat (tamanioDeBloque d) \<le> dir_at d ino j \<or>
           dir_at d ino j + unat (tamanioDeBloque d) \<le> dir_at d ino i))"

lemma dir_at_direct: "i < 12 \<Longrightarrow> posicionarme d ino (of_nat i) 0 = Some (dir_at d ino i)"
  by (simp add: posicionarme_def getPtrNroBloqueLogicoDentroInodo_def esBloqueDirecto_def desplazarme_def dir_at_def
      word_less_nat_alt take_bit_nat_eq_self unat_of_nat mult.commute)

lemma directory_block:
  assumes "directory d ino ess" and "i < length ess"
  shows "dir_block d (dir_at d ino i) (ess ! i)" and "posicionarme d ino (of_nat i) 0 = Some (dir_at d ino i)"
    and "list_all entry_fits (ess ! i)"
  using assms dir_at_direct [of i d ino] by (auto simp: directory_def dir_blocks_def list_all_length)

lemma directory_apart:
  assumes "directory d ino ess" and "i < length ess" and "j < length ess" and "i \<noteq> j"
  shows "dir_at d ino i + unat (tamanioDeBloque d) \<le> dir_at d ino j \<or> dir_at d ino j + unat (tamanioDeBloque d) \<le> dir_at d ino i"
  using assms unfolding directory_def by (metis nat_neq_iff)

lemma directory_offset:
  assumes "directory d ino ess" and "i < length ess"
  shows "of_nat i * tamanioDeBloque d < ino_size d ino"
    and "nroBloqueDentroDelInodo d (of_nat i * tamanioDeBloque d) = of_nat i"
    and "of_nat i * tamanioDeBloque d + tamanioDeBloque d = of_nat (Suc i) * tamanioDeBloque d"
proof -
  note D = assms(1) [unfolded directory_def dir_blocks_def]
  then have bo: "(length ess + 1) * unat (tamanioDeBloque d) < 2 ^ 32" "0 < tamanioDeBloque d" by auto
  show "of_nat i * tamanioDeBloque d < ino_size d ino"
    using D assms(2) block_offset(1) [OF _ bo, of i] by (simp add: word_less_nat_alt unat_gt_0)
  show "nroBloqueDentroDelInodo d (of_nat i * tamanioDeBloque d) = of_nat i"
    "of_nat i * tamanioDeBloque d + tamanioDeBloque d = of_nat (Suc i) * tamanioDeBloque d"
    using assms(2) block_offset(2,3) [OF _ bo, of i] by (simp_all add: nroBloqueDentroDelInodo_def)
qed

lemma dir_chain_cong:
  "dir_chain d p es \<Longrightarrow> list_all entry_fits es \<Longrightarrow> (\<And>x. p \<le> x \<Longrightarrow> x < p + chain_len es \<Longrightarrow> d' x = d x) \<Longrightarrow> dir_chain d' p es"
proof (induction es arbitrary: p)
  case (Cons e es)
  have "leerEntrada d' p = leerEntrada d p"
    by (rule leerEntrada_cong) (use Cons.prems in \<open>auto simp: entry_fits_def\<close>)
  then show ?case using Cons by auto
qed simp

text \<open>A change inside one of the blocks leaves the directory and its other blocks as they are.\<close>

lemma directory_frame:
  assumes "directory d ino ess" and "k < length ess"
    and o: "\<And>x. x < dir_at d ino k \<or> dir_at d ino k + unat (tamanioDeBloque d) \<le> x \<Longrightarrow> d' x = d x"
  shows "tamanioDeBloque d' = tamanioDeBloque d" and "i < 12 \<Longrightarrow> dir_at d' ino i = dir_at d ino i"
    and "ino_size d' ino = ino_size d ino"
    and "i < length ess \<Longrightarrow> i \<noteq> k \<Longrightarrow> dir_block d' (dir_at d ino i) (ess ! i)"
proof -
  have k: "2048 \<le> dir_at d ino k" "dir_at d ino k + unat (tamanioDeBloque d) \<le> ino \<or> ino + 128 \<le> dir_at d ino k"
    using assms(1,2) by (auto simp: directory_def)
  show b: "tamanioDeBloque d' = tamanioDeBloque d"
    using k(1) by (auto simp: tamanioDeBloque_def sb_log_block_size_def read_superblock_def intro!: rd32_cong o
        arg_cong [where f = "\<lambda>w. push_bit (unat w) _"])
  have n: "rd32 d' (ino + y) = rd32 d (ino + y)" if "y + 4 \<le> 128" for y
    using k(2) that by (intro rd32_cong o) auto
  then show "ino_size d' ino = ino_size d ino" using n [of 4] by (simp add: ino_size_def)
  show "dir_at d' ino i = dir_at d ino i" if "i < 12"
    using that b n [of "40 + 4 * i"] by (simp add: dir_at_def posicionarInicioBloque_def add.assoc)
  show "dir_block d' (dir_at d ino i) (ess ! i)" if i: "i < length ess" and ik: "i \<noteq> k"
  proof -
    note B = directory_block [OF assms(1) i]
    have "dir_chain d' (dir_at d ino i) (ess ! i)"
    proof (rule dir_chain_cong [of d])
      fix x assume "dir_at d ino i \<le> x" "x < dir_at d ino i + chain_len (ess ! i)"
      then show "d' x = d x" using directory_apart [OF assms(1) i assms(2) ik] B(1)
        by (intro o) (auto simp: dir_block_def)
    qed (use B in \<open>auto simp: dir_block_def\<close>)
    then show ?thesis using B(1) b by (simp add: dir_block_def)
  qed
qed

text \<open>Another chain in one of the blocks, and nothing changed outside it.\<close>

lemma directory_update:
  assumes "directory d ino ess" and "k < length ess"
    and o: "\<And>x. x < dir_at d ino k \<or> dir_at d ino k + unat (tamanioDeBloque d) \<le> x \<Longrightarrow> d' x = d x"
    and "dir_chain d' (dir_at d ino k) es" and "chain_len es = unat (tamanioDeBloque d)" and "list_all entry_fits es"
  shows "directory d' ino (ess[k := es])"
proof -
  note D = assms(1) [unfolded directory_def]
  note F = directory_frame [OF assms(1,2) o]
  have "dir_block d' (dir_at d ino i) (ess[k := es] ! i)" if "i < length ess" for i
    using F(1,4) that assms(4,5) directory_block(1) [OF assms(1,2)] by (cases "i = k") (auto simp: dir_block_def)
  then have "dir_blocks d' ino (ess[k := es])" using D F(1-3) by (auto simp: dir_blocks_def dir_at_direct)
  moreover have "list_all (list_all entry_fits) (ess[k := es])"
    using D assms(6) set_update_subset_insert [of ess k es] by (auto simp: list_all_iff)
  ultimately show ?thesis using D F(1,2) by (simp add: directory_def)
qed

text \<open>A block size below 64 KB is at most 32 KB.\<close>

lemma block_size_half:
  assumes "tamanioDeBloque d < 2 ^ 16"
  shows "unat (tamanioDeBloque d) \<le> 2 ^ 15"
proof -
  let ?j = "unat (sb_log_block_size d) + 10"
  have t: "tamanioDeBloque d = 2 ^ ?j" by (simp add: tamanioDeBloque_def push_bit_eq_mult power_add)
  show ?thesis
  proof (cases "?j < 32")
    case True
    then have "unat (of_nat (2 ^ ?j) :: u32) = 2 ^ ?j" by (simp only: unsigned_of_nat take_bit_nat_eq_self) (simp add: take_bit_nat_eq_self)
    then have u: "unat (tamanioDeBloque d) = 2 ^ ?j" by (simp only: t of_nat_power of_nat_numeral)
    then have "(2 :: nat) ^ ?j < 2 ^ 16" using assms by (simp add: word_less_nat_alt)
    then have "?j < 16" by (rule power_less_imp_less_exp [rotated]) simp
    then show ?thesis unfolding u by (intro power_increasing) auto
  next
    case False
    then have "tamanioDeBloque d = 0" unfolding t by (intro exp_eq_zero_iff [THEN iffD2]) simp
    then show ?thesis by simp
  qed
qed

section \<open>Removing an entry\<close>

abbreviation matches :: "cstr \<Rightarrow> DirEntry \<Rightarrow> bool" where
  "matches n e \<equiv> string_equals_ignore_case (entry_name e) n"

text \<open>Passing over the first entry, when the scan of a block stands in a chain.\<close>

lemma chain_step:
  assumes "dir_chain d p (e # es)" and "unat c + chain_len (e # es) = unat (tamanioDeBloque d)" and "tamanioDeBloque d < 2 ^ 16"
  shows "unat (c + de_entry_len e) + chain_len es = unat (tamanioDeBloque d)" and "unat c < unat (tamanioDeBloque d)"
    and "leerEntrada d p = e" and "dir_chain d (p + unat (de_entry_len e)) es"
proof -
  have "unat (tamanioDeBloque d) < 2 ^ 16" using assms(3) by (simp add: word_less_nat_alt)
  then have "unat (c + de_entry_len e) = unat c + unat (de_entry_len e)" using assms(2) by (intro unat_add_u16) simp
  then show "unat (c + de_entry_len e) + chain_len es = unat (tamanioDeBloque d)" using assms(2) by simp
  show "unat c < unat (tamanioDeBloque d)" using assms unat_pos_u16 [of "de_entry_len e"] by auto
qed (use assms in auto)

lemma eliminar_loop_miss:
  "dir_chain d p es \<Longrightarrow> unat c + chain_len es = unat (tamanioDeBloque d) \<Longrightarrow> tamanioDeBloque d < 2 ^ 16 \<Longrightarrow>
    list_all (\<lambda>x. \<not> matches n x) es \<Longrightarrow> eliminar_loop d n p c ant = Some None"
proof (induction es arbitrary: p c ant)
  case Nil
  then show ?case by (subst eliminar_loop.simps) simp
next
  case (Cons e es)
  note st = chain_step [OF Cons.prems(1-3)]
  show ?case using st Cons.IH [OF st(4,1)] Cons.prems(3,4) by (subst eliminar_loop.simps) (simp add: Let_def)
qed

lemma eliminar_loop_hit:
  "dir_chain d p (pre @ e # post) \<Longrightarrow> unat c + chain_len (pre @ e # post) = unat (tamanioDeBloque d) \<Longrightarrow>
    tamanioDeBloque d < 2 ^ 16 \<Longrightarrow> list_all (\<lambda>x. \<not> matches n x) pre \<Longrightarrow> matches n e \<Longrightarrow>
    eliminar_loop d n p c ant =
      Some (Some (p + chain_len pre, ucast (de_entry_len e), if pre = [] then ant else ucast (de_entry_len (last pre))))"
proof (induction pre arbitrary: p c ant)
  case Nil
  note st = chain_step [OF Nil.prems(1-3) [unfolded append_Nil]]
  show ?case using st Nil.prems(5) by (subst eliminar_loop.simps) (simp add: Let_def)
next
  case (Cons a pre)
  note st = chain_step [OF Cons.prems(1-3) [unfolded append_Cons]]
  show ?case using st Cons.IH [OF st(4,1)] Cons.prems(3-5)
    by (subst eliminar_loop.simps) (simp add: Let_def add.assoc)
qed

lemma eliminar_bloques_from:
  assumes "directory d ino ess" and "i \<le> k" and "k < length ess"
    and "list_all (\<lambda>x. \<not> matches n x) (concat (take k ess))" and "eliminar_loop d n (dir_at d ino k) 0 0 = Some (Some hit)"
  shows "eliminar_bloques d ino n (ino_size d ino) (of_nat i * tamanioDeBloque d) = Some (of_nat k, hit)"
  using assms(2)
proof (induction rule: inc_induct)
  case base
  show ?case using assms(3,5) directory_block(2) [OF assms(1,3)] directory_offset(1,2) [OF assms(1,3)]
    by (subst eliminar_bloques.simps) simp
next
  case (step i)
  have i: "i < length ess" using step assms(3) by simp
  have "ess ! i \<in> set (take k ess)" using step i by (auto simp: in_set_conv_nth)
  then have "list_all (\<lambda>x. \<not> matches n x) (ess ! i)" using assms(4) by (auto simp: list_all_iff)
  then have "eliminar_loop d n (dir_at d ino i) 0 0 = Some None"
    using directory_block(1) [OF assms(1) i] by (intro eliminar_loop_miss) (auto simp: dir_block_def)
  then show ?case using step.IH directory_block(2) [OF assms(1) i] directory_offset [OF assms(1) i]
    by (subst eliminar_bloques.simps) simp
qed

lemma unat_u16_32: "unat (ucast (w :: u16) :: u32) = unat w"
  by (simp add: unsigned_ucast_eq take_bit_nat_eq_self unsigned_less [where w = w, THEN less_trans])

lemma u16_add_32: "(ucast ((ucast v :: u32) + ucast w) :: u16) = v + w"
  using unsigned_less [where 'a = nat and w = v] unsigned_less [where 'a = nat and w = w]
  by (intro word_unat_eq_iff [THEN iffD2])
    (simp add: unsigned_ucast_eq [where 'a = nat] unat_word_ariths unat_u16_32 take_bit_eq_mod mod_mod_cancel)

lemma leer_wr16_len: "leerEntrada (wr16 d (p + 4) l) p = (leerEntrada d p)\<lparr>de_entry_len := l\<rparr>"
proof -
  have "mem_read (wr16 d (p + 4) l) (p + 8) n = mem_read d (p + 8) n" for n by (auto simp: mem_read_def mem_simps)
  then show ?thesis by (simp add: leerEntrada_def Let_def mem_simps)
qed

text \<open>An entry takes over the space of the next one.\<close>

definition absorb :: "DirEntry \<Rightarrow> DirEntry \<Rightarrow> DirEntry" where
  "absorb a e = a\<lparr>de_entry_len := de_entry_len a + de_entry_len e\<rparr>"

lemma absorb_simps [simp]:
  "de_inode (absorb a e) = de_inode a" "entry_name (absorb a e) = entry_name a"
  by (simp_all add: absorb_def entry_name_def)

lemma absorb_chain:
  assumes "dir_chain d p (pre @ a # e # post)" and "list_all entry_fits (pre @ a # e # post)"
    and "chain_len (pre @ a # e # post) < 2 ^ 16"
  shows "dir_chain (wr16 d (p + chain_len pre + 4) (de_entry_len a + de_entry_len e)) p (pre @ absorb a e # post) \<and>
    chain_len (pre @ absorb a e # post) = chain_len (pre @ a # e # post) \<and> list_all entry_fits (pre @ absorb a e # post)"
proof -
  let ?q = "p + chain_len pre" and ?l = "de_entry_len a + de_entry_len e"
  let ?d = "wr16 d (?q + 4) ?l"
  have l: "unat ?l = unat (de_entry_len a) + unat (de_entry_len e)" using assms(3) by (intro unat_add_u16) simp
  have fa: "8 \<le> unat (de_entry_len a)" using assms(2) by (simp add: entry_fits_def)
  have c: "dir_chain d p pre" "leerEntrada d ?q = a" "dir_chain d (?q + unat ?l) post"
    using assms(1) l by (auto simp: dir_chain_append add.assoc)
  have "dir_chain ?d p pre" by (rule dir_chain_cong [OF c(1)]) (use assms(2) in \<open>simp_all add: mem_simps\<close>)
  moreover have "dir_chain ?d (?q + unat ?l) post"
    by (rule dir_chain_cong [OF c(3)]) (use assms(2) fa l in \<open>simp_all add: mem_simps\<close>)
  moreover have "leerEntrada ?d ?q = absorb a e" using c(2) by (simp only: leer_wr16_len absorb_def)
  moreover have "?l \<noteq> 0" using l fa by (auto simp: unat_eq_zero)
  moreover have "entry_fits (absorb a e)" using assms(2) l by (auto simp: entry_fits_def absorb_def)
  ultimately show ?thesis using l assms(2) by (simp add: dir_chain_append absorb_def)
qed

lemma eliminar_absorbs:
  assumes D: "directory d ino ess" and k: "k < length ess" and b: "ess ! k = pre @ a # e # post"
    and m: "matches n e" and u: "list_all (\<lambda>x. \<not> matches n x) (concat (take k ess) @ pre @ [a])"
  defines "d' \<equiv> wr16 d (dir_at d ino k + chain_len pre + 4) (de_entry_len a + de_entry_len e)"
  shows "eliminarEntradaDirectorio d ino n = Some d' \<and> directory d' ino (ess[k := pre @ absorb a e # post])"
proof -
  let ?at = "dir_at d ino k"
  note K = directory_block [OF D k, unfolded b dir_block_def]
  have lim: "unat (tamanioDeBloque d) < 2 ^ 16" using K(1) by (simp add: word_less_nat_alt)
  have "eliminar_loop d n ?at 0 0 = Some (Some (?at + chain_len (pre @ [a]), ucast (de_entry_len e), ucast (de_entry_len a)))"
    using eliminar_loop_hit [of d ?at "pre @ [a]" e post 0 n 0] K(1) m u by simp
  then have eb: "eliminar_bloques d ino n (ino_size d ino) 0 =
      Some (of_nat k, ?at + chain_len (pre @ [a]), ucast (de_entry_len e), ucast (de_entry_len a))"
    using eliminar_bloques_from [OF D _ k, of 0 n] u by simp
  have l: "leerEntrada d (?at + chain_len pre) = a" using K(1) by (auto simp: dir_chain_append)
  have fa: "8 \<le> unat (de_entry_len a)" using K(3) by (simp add: entry_fits_def)
  have "unat (de_entry_len e) < unat (tamanioDeBloque d)" using K(1) fa by auto
  then have ne: "ucast (de_entry_len e) \<noteq> tamanioDeBloque d" using unat_u16_32 [of "de_entry_len e"] by auto
  have "eliminarEntradaDirectorio d ino n =
      Some (grabarEntrada d (?at + chain_len pre) (a\<lparr>de_entry_len := de_entry_len a + de_entry_len e\<rparr>))"
    using eb ne l by (simp add: eliminarEntradaDirectorio_def Let_def unat_u16_32 u16_add_32)
  also have "\<dots> = Some d'" using grabar_len [of d "?at + chain_len pre" "de_entry_len a + de_entry_len e"] l
    by (simp add: d'_def)
  finally have "eliminarEntradaDirectorio d ino n = Some d'" .
  moreover note ch = absorb_chain [of d ?at pre a e post, folded d'_def]
  have "directory d' ino (ess[k := pre @ absorb a e # post])"
    using ch K lim fa by (intro directory_update [OF D k]) (auto simp: d'_def mem_simps)
  ultimately show ?thesis by simp
qed

lemma first_match_append:
  "first_match n (es @ fs) = (if list_all (\<lambda>x. \<not> matches n x) es then first_match n fs else first_match n es)"
  by (induction es) auto

lemma first_match_none: "list_all (\<lambda>x. \<not> matches n x) es \<Longrightarrow> first_match n es = 0"
  by (induction es) auto

lemma lookup_none: "list_all (\<lambda>x. \<not> matches n x) (concat ess) \<Longrightarrow> lookup n ess = 0"
  by (induction ess) (auto simp: first_match_none)

lemma lookup_update: "first_match n es = first_match n (ess ! k) \<Longrightarrow> lookup n (ess[k := es]) = lookup n ess"
  by (induction ess arbitrary: k) (auto split: nat.splits)

lemma concat_update: "k < length ess \<Longrightarrow> concat (ess[k := es]) = concat (take k ess) @ es @ concat (drop (Suc k) ess)"
  by (simp add: upd_conv_take_nth_drop)

lemma lookup_hit:
  assumes "k < length ess" and "ess ! k = pre @ e # post" and "list_all (\<lambda>x. \<not> matches n x) (concat (take k ess) @ pre)"
    and "matches n e" and "de_inode e \<noteq> 0"
  shows "lookup n ess = de_inode e"
  using assms
proof (induction ess arbitrary: k)
  case (Cons es ess)
  then show ?case by (cases k) (auto simp: first_match_append first_match_none)
qed simp

lemma absorb_lookup:
  assumes "k < length ess" and "ess ! k = pre @ a # e # post" and "list_all (\<lambda>x. \<not> matches n x) (concat (take k ess) @ pre @ [a])"
  shows "\<not> matches m e \<Longrightarrow> lookup m (ess[k := pre @ absorb a e # post]) = lookup m ess"
    and "list_all (\<lambda>x. \<not> matches n x) (post @ concat (drop (Suc k) ess)) \<Longrightarrow> lookup n (ess[k := pre @ absorb a e # post]) = 0"
proof -
  show "lookup m (ess[k := pre @ absorb a e # post]) = lookup m ess" if "\<not> matches m e"
    using that assms(2) by (intro lookup_update) (simp add: first_match_append)
  show "lookup n (ess[k := pre @ absorb a e # post]) = 0" if "list_all (\<lambda>x. \<not> matches n x) (post @ concat (drop (Suc k) ess))"
    using that assms(1,3) by (intro lookup_none) (simp add: concat_update)
qed

text \<open>
  C9. Removing an entry of a directory: when the first entry with the name is not the first one of its block,
  \<open>eliminarEntradaDirectorio\<close> ends, gives its space to the entry before it and changes nothing else of the disk than the
  length of that entry. The directory stays well formed; every other name is looked up as before; and
  the removed name is not found any more, if no second entry has it.
\<close>

theorem entry_removed:
  assumes "directory d ino ess" and "k < length ess" and "ess ! k = pre @ a # e # post"
    and "matches n e" and "list_all (\<lambda>x. \<not> matches n x) (concat (take k ess) @ pre @ [a])"
  shows "\<exists>d' p. eliminarEntradaDirectorio d ino n = Some d' \<and> directory d' ino (ess[k := pre @ absorb a e # post]) \<and>
    (\<forall>x. x \<notin> {p, p + 1} \<longrightarrow> d' x = d x) \<and>
    (\<forall>m. \<not> matches m e \<longrightarrow> buscarNroInodoEnEntradasDirectorio d' ino m = buscarNroInodoEnEntradasDirectorio d ino m) \<and>
    (list_all (\<lambda>x. \<not> matches n x) (post @ concat (drop (Suc k) ess)) \<longrightarrow> buscarNroInodoEnEntradasDirectorio d' ino n = Some 0)"
proof -
  let ?p = "dir_at d ino k + chain_len pre + 4"
  define d' where "d' = wr16 d ?p (de_entry_len a + de_entry_len e)"
  define ess' where "ess' = ess[k := pre @ absorb a e # post]"
  have d': "eliminarEntradaDirectorio d ino n = Some d'" "directory d' ino ess'"
    using eliminar_absorbs [OF assms] by (auto simp: d'_def ess'_def)
  have lk: "buscarNroInodoEnEntradasDirectorio d' ino m = Some (lookup m ess')"
    "buscarNroInodoEnEntradasDirectorio d ino m = Some (lookup m ess)" for m
    using buscar_lookup d'(2) assms(1) by (auto simp: directory_def)
  note L = absorb_lookup [OF assms(2,3,5), folded ess'_def]
  have "d' x = d x" if "x \<notin> {?p, ?p + 1}" for x
    unfolding d'_def by (rule wr_apply(2)) (use that in auto)
  then show ?thesis using d' lk L by (intro exI [of _ d'] exI [of _ ?p]) (simp add: ess'_def [symmetric])
qed

lemma buscar_bloques_skip:
  assumes "i \<le> k" and "(k + 2) * unat (tamanioDeBloque d) < 2 ^ 32" and "0 < tamanioDeBloque d"
    and "k * unat (tamanioDeBloque d) < unat (ino_size d ino)"
    and "\<And>j. j < k \<Longrightarrow> \<exists>p. posicionarme d ino (of_nat j) 0 = Some p \<and> buscar_loop d n p 0 = Some 0"
    and "posicionarme d ino (of_nat k) 0 = Some q" and "buscar_loop d n q 0 = Some v" and "v \<noteq> 0"
  shows "buscar_bloques d ino n (of_nat i * tamanioDeBloque d) = Some v"
  using assms(1)
proof (induction rule: inc_induct)
  case base
  have bo: "(Suc k + 1) * unat (tamanioDeBloque d) < 2 ^ 32" using assms(2) by simp
  show ?case using assms(4,6-8) block_offset(1,2) [OF _ bo assms(3), of k]
    by (subst buscar_bloques.simps) (simp add: nroBloqueDentroDelInodo_def word_less_nat_alt)
next
  case (step i)
  have bo: "(Suc k + 1) * unat (tamanioDeBloque d) < 2 ^ 32" using assms(2) by simp
  obtain p where p: "posicionarme d ino (of_nat i) 0 = Some p" "buscar_loop d n p 0 = Some 0"
    using assms(5) step by auto
  have "i * unat (tamanioDeBloque d) \<le> k * unat (tamanioDeBloque d)" using step by (intro mult_le_mono1) simp
  then have "of_nat i * tamanioDeBloque d < ino_size d ino"
    using le_less_trans [OF _ assms(4)] step block_offset(1) [OF _ bo assms(3), of i] by (simp only: word_less_nat_alt)
  then show ?case using p step block_offset(2,3) [OF _ bo assms(3), of i]
    by (subst buscar_bloques.simps) (simp add: nroBloqueDentroDelInodo_def)
qed


lemma demo_directory: "directory demo_fs 5248 [[demo_dot, demo_dotdot, demo_file]]"
proof -
  have "dir_at demo_fs 5248 0 = 6144" using dir_at_direct [of 0 demo_fs 5248] demo_fs_facts(6) by simp
  moreover have "entry_fits demo_dot" "entry_fits demo_dotdot" "entry_fits demo_file"
    by (simp_all add: entry_fits_def) code_simp+
  moreover have "dir_blocks demo_fs 5248 [[demo_dot, demo_dotdot, demo_file]]"
    using demo_fs_facts demo_fs_super by (simp add: dir_blocks_def dir_block_def)
  ultimately show ?thesis by (simp add: directory_def demo_fs_super)
qed

theorem entry_removed_witness:
  "\<exists>d'. eliminarEntradaDirectorio demo_fs 5248 (str ''a'') = Some d' \<and>
     buscarNroInodoEnEntradasDirectorio d' 5248 (str ''a'') = Some 0 \<and>
     buscarNroInodoEnEntradasDirectorio d' 5248 (str ''..'') = Some 2"
proof -
  have m: "matches (str ''a'') demo_file" "\<not> matches (str ''..'') demo_file"
    "list_all (\<lambda>x. \<not> matches (str ''a'') x) [demo_dot, demo_dotdot]" by code_simp+
  have "lookup (str ''..'') [[demo_dot, demo_dotdot, demo_file]] = 2" by code_simp
  then have "buscarNroInodoEnEntradasDirectorio demo_fs 5248 (str ''..'') = Some 2"
    using buscar_lookup demo_directory by (auto simp: directory_def)
  then show ?thesis
    using entry_removed [OF demo_directory, of 0 "[demo_dot]" demo_dotdot demo_file "[]" "str ''a''"] m by auto
qed


end
