(* ===== verification/NewEntries.thy ===== *)
theory NewEntries
  imports Entries
begin

text \<open>
  Adding an entry to a directory that has room for it (\<open>agregarEntradaDirectorio\<close> and \<open>agregarNuevaEntrada\<close> of
  \<open>rfs/src/funciones_rfs.c\<close>).
\<close>

section \<open>Sizes\<close>

definition min_len :: "cstr \<Rightarrow> nat" where
  "min_len n = (8 + length n + 3) div 4 * 4"

lemma min_len_bounds: "8 + length n \<le> min_len n" "4 dvd min_len n" "min_len n < 12 + length n"
  by (auto simp: min_len_def)

lemma unat_min_len:
  assumes "length n \<le> 255"
  shows "unat (tamanioMinEntradaDirectorio n) = min_len n"
proof -
  define t :: u32 where "t = 8 + of_nat (length n)"
  have "unat (of_nat (length n) :: u32) = length n" using assms by (simp add: unsigned_of_nat take_bit_nat_eq_self)
  then have t: "unat t = 8 + length n" using assms by (simp add: t_def unat_word_ariths)
  have r: "unat (t mod 4) = (8 + length n) mod 4" by (simp add: unat_mod t)
  have p: "unat (if t mod 4 = 0 then 0 else 4 - t mod 4) = (if (8 + length n) mod 4 = 0 then 0 else 4 - (8 + length n) mod 4)"
  proof (cases "t mod 4 = 0")
    case False
    then have "(8 + length n) mod 4 \<noteq> 0" using r by (metis unat_eq_zero)
    moreover have "t mod 4 \<le> 4" by (simp add: word_le_nat_alt r)
    ultimately show ?thesis using False r by (simp add: unat_sub)
  qed (use r in simp)
  have "tamanioMinEntradaDirectorio n = t + (if t mod 4 = 0 then 0 else 4 - t mod 4)"
    by (simp add: tamanioMinEntradaDirectorio_def Let_def t_def)
  moreover have "min_len n = 8 + length n + (if (8 + length n) mod 4 = 0 then 0 else 4 - (8 + length n) mod 4)"
    by (simp add: min_len_def) presburger
  ultimately show ?thesis using p t assms by (simp add: unat_word_ariths)
qed

text \<open>An entry that has room behind it for another one.\<close>

definition room :: "cstr \<Rightarrow> DirEntry \<Rightarrow> bool" where
  "room n e \<longleftrightarrow> min_len (entry_name e) + min_len n \<le> unat (de_entry_len e)"

lemma entry_name_full: "entry_fits e \<Longrightarrow> entry_name e = de_name e"
  by (auto simp: entry_fits_def entry_name_def takeWhile_eq_all_conv)

lemma min_len_fits:
  assumes "entry_fits e" and "entry_wf e"
  shows "min_len (entry_name e) \<le> unat (de_entry_len e)" and "length (entry_name e) \<le> 255"
proof -
  have l: "length (entry_name e) = unat (de_name_len e)" using assms by (simp add: entry_name_full entry_wf_def)
  obtain q where "unat (de_entry_len e) = 4 * q" using assms(1) by (auto simp: entry_fits_def)
  then show "min_len (entry_name e) \<le> unat (de_entry_len e)"
    using assms(1) l by (auto simp: entry_fits_def min_len_def)
  show "length (entry_name e) \<le> 255" using l unsigned_less [where 'a = nat and w = "de_name_len e"] by simp
qed

lemma resto_nat:
  assumes "entry_fits e" and "entry_wf e"
  shows "unat ((ucast (de_entry_len e) :: u32) - tamanioMinEntradaDirectorio (entry_name e)) =
    unat (de_entry_len e) - min_len (entry_name e)"
  using min_len_fits [OF assms] by (simp add: unat_sub word_le_nat_alt unat_min_len unat_u16_32)

lemma room_test:
  assumes "entry_fits e" and "entry_wf e" and "length n \<le> 255"
  shows "tamanioMinEntradaDirectorio n \<le> ucast (de_entry_len e) - tamanioMinEntradaDirectorio (entry_name e) \<longleftrightarrow> room n e"
  using resto_nat [OF assms(1,2)] min_len_fits [OF assms(1,2)]
  by (auto simp: word_le_nat_alt unat_min_len [OF assms(3)] room_def)

section \<open>The search for room\<close>

lemma chain_wf: "dir_chain d p es \<Longrightarrow> list_all entry_wf es"
  by (induction es arbitrary: p) (auto intro: leerEntrada_wf)

lemma agregar_loop_miss:
  "dir_chain d p es \<Longrightarrow> unat c + chain_len es = unat (tamanioDeBloque d) \<Longrightarrow> tamanioDeBloque d < 2 ^ 16 \<Longrightarrow>
    list_all entry_fits es \<Longrightarrow> length n \<le> 255 \<Longrightarrow> list_all (\<lambda>x. \<not> room n x) es \<Longrightarrow> agregar_loop b n d p c = Some None"
proof (induction es arbitrary: p c)
  case Nil
  then show ?case by (subst agregar_loop.simps) simp
next
  case (Cons e es)
  note st = chain_step [OF Cons.prems(1-3)]
  have "\<not> room n e" "entry_fits e" "entry_wf e" using Cons.prems(4,6) st(3) leerEntrada_wf [of d p] by auto
  then show ?case using st Cons.IH [OF st(4,1)] Cons.prems(3-6) room_test [of e n]
    by (subst agregar_loop.simps) (simp add: Let_def)
qed

text \<open>What the scan does with the entry that has room.\<close>

definition split_entry :: "byte \<Rightarrow> cstr \<Rightarrow> mem \<Rightarrow> nat \<Rightarrow> DirEntry \<Rightarrow> (int \<times> mem) option" where
  "split_entry b n d p a = map_option (\<lambda>(e, d1). if e = 0
       then (0, grabarEntrada d1 p (a\<lparr>de_entry_len := ucast (tamanioMinEntradaDirectorio (entry_name a))\<rparr>)) else (e, d1))
     (agregarNuevaEntrada b d (p + unat (tamanioMinEntradaDirectorio (entry_name a))) n
       (ucast (de_entry_len a) - tamanioMinEntradaDirectorio (entry_name a)))"

lemma agregar_loop_hit:
  "dir_chain d p (pre @ a # post) \<Longrightarrow> unat c + chain_len (pre @ a # post) = unat (tamanioDeBloque d) \<Longrightarrow>
    tamanioDeBloque d < 2 ^ 16 \<Longrightarrow> list_all entry_fits (pre @ a # post) \<Longrightarrow> length n \<le> 255 \<Longrightarrow>
    list_all (\<lambda>x. \<not> room n x) pre \<Longrightarrow> room n a \<Longrightarrow>
    agregar_loop b n d p c = map_option Some (split_entry b n d (p + chain_len pre) a)"
proof (induction pre arbitrary: p c)
  case Nil
  note st = chain_step [OF Nil.prems(1-3) [unfolded append_Nil]]
  have "entry_fits a" "entry_wf a" using Nil.prems(4) st(3) leerEntrada_wf [of d p] by auto
  then show ?case using st Nil.prems(5,7) room_test [of a n]
    by (subst agregar_loop.simps)
      (auto simp: Let_def split_entry_def map_option_case split: option.splits bind_splits)
next
  case (Cons e pre)
  note st = chain_step [OF Cons.prems(1-3) [unfolded append_Cons]]
  have "\<not> room n e" "entry_fits e" "entry_wf e" using Cons.prems(4,6) st(3) leerEntrada_wf [of d p] by auto
  then show ?case using st Cons.IH [OF st(4,1)] Cons.prems(3-7) room_test [of e n]
    by (subst agregar_loop.simps) (simp add: Let_def add.assoc)
qed

lemma agregar_bloques_from:
  assumes "directory d ino ess" and "i \<le> k" and "k < length ess" and "length n \<le> 255"
    and "list_all (\<lambda>x. \<not> room n x) (concat (take k ess))" and "agregar_loop b n d (dir_at d ino k) 0 = Some (Some res)"
  shows "\<exists>off. agregar_bloques b n d ino (ino_size d ino) (of_nat i * tamanioDeBloque d) = Some (Some res, off)"
  using assms(2)
proof (induction rule: inc_induct)
  case base
  show ?case using assms(3,6) directory_block(2) [OF assms(1,3)] directory_offset(1,2) [OF assms(1,3)]
    by (subst agregar_bloques.simps) simp
next
  case (step i)
  have i: "i < length ess" using step assms(3) by simp
  have "ess ! i \<in> set (take k ess)" using step i by (auto simp: in_set_conv_nth)
  then have "list_all (\<lambda>x. \<not> room n x) (ess ! i)" using assms(5) by (auto simp: list_all_iff)
  then have "agregar_loop b n d (dir_at d ino i) 0 = Some None"
    using directory_block(1,3) [OF assms(1) i] assms(4) by (intro agregar_loop_miss) (auto simp: dir_block_def)
  then show ?case using step.IH directory_block(2) [OF assms(1) i] directory_offset [OF assms(1) i]
    by (subst agregar_bloques.simps) simp
qed

section \<open>The new inode\<close>

definition inode_table :: "mem \<Rightarrow> nat \<Rightarrow> nat" where
  "inode_table d g = posicionarInicioBloque d (gd_inode_table d g)"

lemma new_inode_at:
  assumes "leerGroupDescriptor d nro = Some g" and "i < unat (sb_inodes_per_group d)"
    and "1 + unat nro * unat (sb_inodes_per_group d) + i < 2 ^ 32"
  shows "inodo_at d (1 + sb_inodes_per_group d * nro + of_nat i) = Some (inode_table d g + i * 128)"
proof -
  let ?k = "sb_inodes_per_group d" and ?n = "1 + sb_inodes_per_group d * nro + of_nat i"
  note G = group_arith [OF assms(2,3)]
  have "?n \<noteq> 0" using G(1) by (metis Suc_eq_plus1_left add.assoc nat.distinct(1) unat_0)
  then have "\<not> ?n < 1" by (simp only: word_less_1 not_False_eq_True)
  moreover have "unat (?n - nro * ?k) = Suc i"
  proof -
    have "?n - nro * ?k = of_nat (Suc i)" by (simp add: mult.commute)
    moreover have "Suc i < 2 ^ 32" using assms(3) by linarith
    ultimately show ?thesis by (simp only: unsigned_of_nat) (simp add: take_bit_nat_eq_self)
  qed
  ultimately show ?thesis using assms(1) G(2)
    by (simp add: inodo_at_def getInodo_def Let_def inode_table_def)
qed

lemma inodo_at_cong:
  assumes "leerGroupDescriptor d ((n - 1) div sb_inodes_per_group d) = Some g"
    and "\<And>x. 1024 \<le> x \<Longrightarrow> x < 1068 \<Longrightarrow> x < 1036 \<or> 1044 \<le> x \<Longrightarrow> d' x = d x" and "\<And>x. g + 8 \<le> x \<Longrightarrow> x < g + 12 \<Longrightarrow> d' x = d x"
  shows "inodo_at d' n = inodo_at d n"
proof -
  have "rd32 d' (read_superblock + x) = rd32 d (read_superblock + x)" if "x \<in> {0, 20, 24, 32, 40}" for x
    using that by (intro rd32_cong assms(2)) (auto simp: read_superblock_def)
  note M = same_meta [of d' d, OF this]
  have "gd_inode_table d' g = gd_inode_table d g" using assms(3) by (simp add: gd_inode_table_def) (intro rd32_cong, auto)
  then show ?thesis using M assms(1) by (simp add: inodo_at_def getInodo_def Let_def posicionarInicioBloque_def)
qed

text \<open>The bytes a directory depends on: the size of the blocks, its inode and its blocks.\<close>

definition in_directory :: "mem \<Rightarrow> nat \<Rightarrow> DirEntry list list \<Rightarrow> nat \<Rightarrow> bool" where
  "in_directory d ino ess x \<longleftrightarrow> (1048 \<le> x \<and> x < 1052) \<or> (ino \<le> x \<and> x < ino + 128) \<or>
     (\<exists>i < length ess. dir_at d ino i \<le> x \<and> x < dir_at d ino i + unat (tamanioDeBloque d))"

lemma directory_cong:
  assumes "directory d ino ess" and o: "\<And>x. in_directory d ino ess x \<Longrightarrow> d' x = d x"
  shows "directory d' ino ess" and "tamanioDeBloque d' = tamanioDeBloque d" and "i < 12 \<Longrightarrow> dir_at d' ino i = dir_at d ino i"
proof -
  note D = assms(1) [unfolded directory_def]
  show b: "tamanioDeBloque d' = tamanioDeBloque d"
    by (auto simp: tamanioDeBloque_def sb_log_block_size_def read_superblock_def in_directory_def intro!: rd32_cong o
        arg_cong [where f = "\<lambda>w. push_bit (unat w) _"])
  have n: "rd32 d' (ino + y) = rd32 d (ino + y)" if "y + 4 \<le> 128" for y
    using that by (intro rd32_cong o) (auto simp: in_directory_def)
  then have s: "ino_size d' ino = ino_size d ino" using n [of 4] by (simp add: ino_size_def)
  show at: "dir_at d' ino i = dir_at d ino i" if "i < 12" for i
    using that b n [of "40 + 4 * i"] by (simp add: dir_at_def posicionarInicioBloque_def add.assoc)
  have "dir_block d' (dir_at d ino i) (ess ! i)" if i: "i < length ess" for i
  proof -
    note B = directory_block [OF assms(1) i]
    have "dir_chain d' (dir_at d ino i) (ess ! i)"
    proof (rule dir_chain_cong [of d])
      fix x assume "dir_at d ino i \<le> x" "x < dir_at d ino i + chain_len (ess ! i)"
      then show "d' x = d x" using B(1) i by (intro o) (auto simp: dir_block_def in_directory_def)
    qed (use B in \<open>auto simp: dir_block_def\<close>)
    then show ?thesis using B(1) b by (simp add: dir_block_def)
  qed
  then have "dir_blocks d' ino ess" using D b s at by (auto simp: dir_blocks_def dir_at_direct)
  then show "directory d' ino ess" using D b at by (simp add: directory_def)
qed

section \<open>Splitting an entry\<close>

text \<open>The entry that is written, and what is left of the entry before it.\<close>

definition new_entry :: "byte \<Rightarrow> cstr \<Rightarrow> u32 \<Rightarrow> DirEntry \<Rightarrow> DirEntry" where
  "new_entry b n nro a = \<lparr>de_inode = nro, de_entry_len = of_nat (unat (de_entry_len a) - min_len (entry_name a)),
     de_name_len = of_nat (length n), de_type = b, de_name = n\<rparr>"

definition cut_entry :: "DirEntry \<Rightarrow> DirEntry" where
  "cut_entry a = a\<lparr>de_entry_len := of_nat (min_len (entry_name a))\<rparr>"

lemma cut_entry_simps [simp]: "de_inode (cut_entry a) = de_inode a" "entry_name (cut_entry a) = entry_name a"
  by (simp_all add: cut_entry_def entry_name_def)

text \<open>A name that can be written: not empty, at most 255 bytes, no NUL.\<close>

definition name_ok :: "cstr \<Rightarrow> bool" where
  "name_ok n \<longleftrightarrow> n \<noteq> [] \<and> length n \<le> 255 \<and> 0 \<notin> set n"

lemma split_facts:
  assumes "entry_fits a" and "entry_wf a" and "room n a" and "name_ok n"
  shows "unat (de_entry_len (cut_entry a)) = min_len (entry_name a)"
    and "unat (de_entry_len (new_entry b n nro a)) = unat (de_entry_len a) - min_len (entry_name a)"
    and "entry_fits (cut_entry a)" and "entry_fits (new_entry b n nro a)" and "entry_wf (new_entry b n nro a)"
    and "entry_name (new_entry b n nro a) = n" and "unat (de_name_len (new_entry b n nro a)) = length n"
proof -
  note m = min_len_fits [OF assms(1,2)] min_len_bounds [of "entry_name a"] min_len_bounds [of n]
  have l: "unat (de_entry_len a) < 2 ^ 16" using unsigned_less [where 'a = nat and w = "de_entry_len a"] by simp
  show c: "unat (de_entry_len (cut_entry a)) = min_len (entry_name a)"
    using m l by (simp add: cut_entry_def unsigned_of_nat take_bit_nat_eq_self)
  show u: "unat (de_entry_len (new_entry b n nro a)) = unat (de_entry_len a) - min_len (entry_name a)"
    using l by (simp add: new_entry_def unsigned_of_nat take_bit_nat_eq_self)
  show nl: "unat (de_name_len (new_entry b n nro a)) = length n"
    using assms(4) by (simp add: new_entry_def name_ok_def unsigned_of_nat take_bit_nat_eq_self)
  have "length (entry_name a) = unat (de_name_len a)" using assms by (simp add: entry_name_full entry_wf_def)
  then show "entry_fits (cut_entry a)" using c m assms(1) by (simp add: entry_fits_def cut_entry_def)
  have "4 dvd unat (de_entry_len a) - min_len (entry_name a)" using assms(1) m by (simp add: entry_fits_def dvd_diff_nat)
  then show "entry_fits (new_entry b n nro a)"
    unfolding entry_fits_def u nl using assms(3,4) m by (auto simp: room_def name_ok_def new_entry_def)
  show "entry_wf (new_entry b n nro a)" using nl by (simp add: entry_wf_def new_entry_def)
  show "entry_name (new_entry b n nro a) = n"
    using assms(4) by (auto simp: new_entry_def entry_name_def name_ok_def takeWhile_eq_all_conv)
qed

text \<open>The chain after the split: \<open>d3\<close> has the new entry, the last write shortens the old one.\<close>

lemma split_chain:
  assumes ch: "dir_chain d p (pre @ a # post)" and f: "list_all entry_fits (pre @ a # post)"
    and r: "room n a" and n: "name_ok n"
  defines "q \<equiv> p + chain_len pre + min_len (entry_name a)"
  assumes new: "leerEntrada d3 q = new_entry b n nro a"
    and same: "\<And>x. p \<le> x \<Longrightarrow> x < p + chain_len (pre @ a # post) \<Longrightarrow> x < q \<or> q + 8 + length n \<le> x \<Longrightarrow> d3 x = d x"
  shows "leerEntrada d3 (p + chain_len pre) = a" and
    "dir_chain (wr16 d3 (p + chain_len pre + 4) (de_entry_len (cut_entry a))) p (pre @ cut_entry a # new_entry b n nro a # post)"
proof -
  let ?at = "p + chain_len pre" and ?l = "de_entry_len (cut_entry a)" and ?new = "new_entry b n nro a"
  let ?d = "wr16 d3 (?at + 4) ?l"
  have c: "dir_chain d p pre" "leerEntrada d ?at = a" "dir_chain d (?at + unat (de_entry_len a)) post"
    using ch by (auto simp: dir_chain_append)
  have fa: "entry_fits a" "entry_wf a" using f c(2) leerEntrada_wf [of d ?at] by auto
  note S = split_facts(1) [OF fa r n] split_facts(2) [OF fa r n, of b nro]
  note m = min_len_fits [OF fa] min_len_bounds [of "entry_name a"] min_len_bounds [of n]
  have rm: "min_len (entry_name a) + min_len n \<le> unat (de_entry_len a)" using r by (simp add: room_def)
  have nl: "length (entry_name a) = unat (de_name_len a)" using fa by (simp add: entry_name_full entry_wf_def)
  have la: "leerEntrada d3 ?at = leerEntrada d ?at"
    by (rule leerEntrada_cong) (use c(2) m nl rm in \<open>auto simp: q_def intro!: same\<close>)
  then show "leerEntrada d3 ?at = a" using c(2) by simp
  then have a': "leerEntrada ?d ?at = cut_entry a" by (simp only: leer_wr16_len) (simp add: cut_entry_def)
  have w: "?d x = d3 x" if "x < ?at + 4 \<or> ?at + 6 \<le> x" for x
    by (rule wr_apply(2)) (use that in auto)
  have pre: "dir_chain ?d p pre"
    by (rule dir_chain_cong [OF c(1)]) (use f in \<open>auto simp: w q_def intro!: same\<close>)
  have new': "leerEntrada ?d q = ?new"
    using new leerEntrada_cong [of q d3 ?d] m w by (simp add: q_def)
  have post: "dir_chain ?d (?at + unat (de_entry_len a)) post"
    by (rule dir_chain_cong [OF c(3)]) (use f rm m in \<open>auto simp: w q_def intro!: same\<close>)
  have "?l \<noteq> 0" "de_entry_len ?new \<noteq> 0" using S(1,2) m rm by (auto simp: unat_eq_zero)
  moreover have "q + unat (de_entry_len ?new) = ?at + unat (de_entry_len a)" using S(2) rm by (simp add: q_def)
  ultimately show "dir_chain ?d p (pre @ cut_entry a # ?new # post)"
    using pre post new' a' S(1) by (simp add: dir_chain_append q_def add.assoc)
qed

section \<open>Adding an entry\<close>

text \<open>Ranges of bytes apart from the descriptor of a group and its inode bitmap.\<close>

definition off_meta :: "mem \<Rightarrow> nat \<Rightarrow> nat \<Rightarrow> nat \<Rightarrow> bool" where
  "off_meta d g x n \<longleftrightarrow> (x + n \<le> g \<or> g + 32 \<le> x) \<and>
     (x + n \<le> ba_bitarray (inode_bitmap d g) \<or> ba_bitarray (inode_bitmap d g) + (unat (sb_inodes_per_group d) + 7) div 8 \<le> x)"

text \<open>
  A directory and a group whose inodes are given out: inode and blocks of the directory are apart from descriptor
  and bitmap, its blocks are apart from the table of inodes, and its inode is one that is in use, or of another group.
\<close>

definition alloc_apart :: "mem \<Rightarrow> nat \<Rightarrow> nat \<Rightarrow> DirEntry list list \<Rightarrow> bool" where
  "alloc_apart d g ino ess \<longleftrightarrow> 2048 \<le> ino \<and> off_meta d g ino 128 \<and> 2048 \<le> inode_table d g \<and>
     (\<forall>i < length ess. off_meta d g (dir_at d ino i) (unat (tamanioDeBloque d)) \<and>
        (dir_at d ino i + unat (tamanioDeBloque d) \<le> inode_table d g \<or>
         inode_table d g + unat (sb_inodes_per_group d) * 128 \<le> dir_at d ino i)) \<and>
     (\<forall>j < unat (sb_inodes_per_group d). ino + 128 \<le> inode_table d g + j * 128 \<or> inode_table d g + j * 128 + 128 \<le> ino \<or>
        bitarray_test_bit d (inode_bitmap d g) j)"

lemma alloc_keeps:
  assumes D: "directory d ino ess" and A: "alloc_apart d g ino ess" and M: "inode_meta d g"
    and i: "i < unat (sb_inodes_per_group d)"
    and fr: "\<forall>x. (x < read_superblock + 16 \<or> read_superblock + 20 \<le> x) \<and> (x < g + 14 \<or> g + 16 \<le> x) \<and>
       x \<noteq> ba_bitarray (inode_bitmap d g) + i div 8 \<longrightarrow> d1 x = d x"
  shows "in_directory d ino ess x \<Longrightarrow> d1 x = d x"
    and "1024 \<le> x \<Longrightarrow> x < 1068 \<Longrightarrow> x < 1036 \<or> 1044 \<le> x \<Longrightarrow> d1 x = d x" and "g + 8 \<le> x \<Longrightarrow> x < g + 12 \<Longrightarrow> d1 x = d x"
proof -
  have g: "read_superblock + 44 \<le> g" "g + 32 \<le> ba_bitarray (inode_bitmap d g)" using M by (auto simp: inode_meta_def)
  have i8: "i div 8 < (unat (sb_inodes_per_group d) + 7) div 8" using i by linarith
  show "d1 x = d x" if "1024 \<le> x" "x < 1068" "x < 1036 \<or> 1044 \<le> x"
    using fr g that by (auto simp: read_superblock_def)
  then have sb: "d1 x = d x" if "1048 \<le> x" "x < 1052" using that by auto
  show "d1 x = d x" if "g + 8 \<le> x" "x < g + 12" using fr g that by (auto simp: read_superblock_def)
  have off: "d1 x = d x" if "off_meta d g y n" "2048 \<le> y" "y \<le> x" "x < y + n" for y n
    using fr g that i8 by (auto simp: off_meta_def read_superblock_def)
  show "d1 x = d x" if "in_directory d ino ess x"
    using that unfolding in_directory_def
  proof (elim disjE exE conjE)
    fix j assume "j < length ess" "dir_at d ino j \<le> x" "x < dir_at d ino j + unat (tamanioDeBloque d)"
    then show ?thesis using off A D by (auto simp: alloc_apart_def directory_def)
  qed (use sb off A in \<open>auto simp: alloc_apart_def\<close>)
qed

lemma inode_off_directory:
  assumes "directory d ino ess" and "alloc_apart d g ino ess" and "i < unat (sb_inodes_per_group d)"
    and "\<not> bitarray_test_bit d (inode_bitmap d g) i" and "in_directory d ino ess x"
  shows "x < inode_table d g + i * 128 \<or> inode_table d g + i * 128 + 128 \<le> x"
proof -
  have "i * 128 + 128 \<le> unat (sb_inodes_per_group d) * 128" using assms(3) by simp
  then show ?thesis using assms(2-5) unfolding in_directory_def alloc_apart_def by fastforce
qed

text \<open>The disk after the new entry was written and its inode cleared.\<close>

lemma nueva_entrada:
  assumes "getInodoLibre d = Some (nro, d1)" and "nro \<noteq> 0" and "entry_fits a" and "entry_wf a" and "room n a" and "name_ok n"
    and "inodo_at (grabarEntrada d1 (p + min_len (entry_name a)) (new_entry b n nro a)) nro = Some t"
  shows "split_entry b n d p a = Some (0, grabarEntrada
      (wr32 (grabarEntrada d1 (p + min_len (entry_name a)) (new_entry b n nro a)) (t + 4) 0) p (cut_entry a))"
proof -
  note S = split_facts [OF assms(3-6)]
  have l: "length (entry_name a) \<le> 255" "length n \<le> 255" "unat (of_nat (length n) :: byte) = length n"
    using min_len_fits [OF assms(3,4)] assms(6) by (auto simp: name_ok_def unsigned_of_nat take_bit_nat_eq_self)
  have c: "(ucast (tamanioMinEntradaDirectorio (entry_name a)) :: u16) = of_nat (min_len (entry_name a))"
    by (metis l(1) unat_min_len of_nat_unat)
  have r: "(ucast ((ucast (de_entry_len a) :: u32) - tamanioMinEntradaDirectorio (entry_name a)) :: u16) =
      of_nat (unat (de_entry_len a) - min_len (entry_name a))"
    by (metis resto_nat [OF assms(3,4)] of_nat_unat)
  have e: "\<lparr>de_inode = nro, de_entry_len = of_nat (unat (de_entry_len a) - min_len (entry_name a)),
     de_name_len = of_nat (length n), de_type = b, de_name = n\<rparr> = new_entry b n nro a" by (simp add: new_entry_def)
  show ?thesis using assms(1,2,7) l
    by (simp add: split_entry_def agregarNuevaEntrada_def Let_def unat_min_len c r e cut_entry_def [symmetric] set_ino_size_def)
qed

lemma agregar_splits:
  assumes D: "directory d ino ess" and k: "k < length ess" and b: "ess ! k = pre @ a # post"
    and u: "list_all (\<lambda>x. \<not> room n x) (concat (take k ess) @ pre)" and r: "room n a" and n: "name_ok n"
    and g: "leerGroupDescriptor d gr = Some g" and m: "inode_meta d g" and A: "alloc_apart d g ino ess"
    and i: "i < unat (sb_inodes_per_group d)" and ov: "1 + unat gr * unat (sb_inodes_per_group d) + i < 2 ^ 32"
    and bit: "\<not> bitarray_test_bit d (inode_bitmap d g) i"
    and al: "getInodoLibre d = Some (nro, d1)" and nro: "nro = 1 + sb_inodes_per_group d * gr + of_nat i"
    and fr: "\<forall>x. (x < read_superblock + 16 \<or> read_superblock + 20 \<le> x) \<and> (x < g + 14 \<or> g + 16 \<le> x) \<and>
       x \<noteq> ba_bitarray (inode_bitmap d g) + i div 8 \<longrightarrow> d1 x = d x"
  shows "\<exists>d'. agregar_loop t n d (dir_at d ino k) 0 = Some (Some (0, d')) \<and>
    directory d' ino (ess[k := pre @ cut_entry a # new_entry t n nro a # post]) \<and>
    (\<forall>x. (x < dir_at d ino k \<or> dir_at d ino k + unat (tamanioDeBloque d) \<le> x) \<and>
       (x < inode_table d g + i * 128 + 4 \<or> inode_table d g + i * 128 + 8 \<le> x) \<longrightarrow> d' x = d1 x)"
proof -
  let ?at = "dir_at d ino k" and ?bs = "unat (tamanioDeBloque d)" and ?new = "new_entry t n nro a"
  let ?p = "?at + chain_len pre" and ?i = "inode_table d g + i * 128"
  let ?q = "?p + min_len (entry_name a)"
  note K = directory_block [OF D k, unfolded b dir_block_def]
  have fa: "entry_fits a" "entry_wf a" using K(1,3) leerEntrada_wf [of d ?p] by (auto simp: dir_chain_append)
  note C = split_facts(1,3) [OF fa r n] and S = split_facts(2,4-7) [OF fa r n, of t nro]
  have nl: "min_len (entry_name a) + min_len n \<le> unat (de_entry_len a)" "8 + length n \<le> min_len n"
    using r min_len_bounds [of n] by (auto simp: room_def)
  note keep = alloc_keeps [OF D A m i fr] and off = inode_off_directory [OF D A i bit]
  define d2 where "d2 = grabarEntrada d1 ?q ?new"
  define d3 where "d3 = wr32 d2 (?i + 4) 0"
  have d2: "d2 x = d1 x" if "x < ?q \<or> ?q + 8 + length n \<le> x" for x
    using grabarEntrada_other [OF S(3), of x ?q d1] that S(5) by (simp add: d2_def)
  have blk: "in_directory d ino ess x" if "?at \<le> x" "x < ?at + ?bs" for x using that k by (auto simp: in_directory_def)
  have d2o: "d2 x = d1 x" if "x < ?at \<or> ?at + ?bs \<le> x" for x using that K(1) nl by (intro d2) auto
  have "(nro - 1) div sb_inodes_per_group d = gr" unfolding nro by (rule group_arith(2) [OF i ov])
  moreover have at: "2048 \<le> ?at" "?at + ?bs \<le> g \<or> g + 32 \<le> ?at" using D A k by (auto simp: directory_def alloc_apart_def off_meta_def)
  ultimately have "inodo_at d2 nro = inodo_at d nro"
    using g keep(2,3) d2o by (intro inodo_at_cong [where g = g]) auto
  then have ino: "inodo_at d2 nro = Some ?i" using new_inode_at [OF g i ov] nro by simp
  have d3b: "d3 x = d2 x" if "?at \<le> x" "x < ?at + ?bs" for x
    unfolding d3_def by (rule wr_apply(1)) (use off [OF blk [OF that]] in auto)
  have "leerEntrada d3 ?q = leerEntrada d2 ?q"
    by (rule leerEntrada_cong) (use K(1) nl S(3,5) in \<open>auto simp: d2_def intro!: d3b [unfolded d2_def]\<close>)
  then have new: "leerEntrada d3 ?q = ?new" using S(3) by (simp add: d2_def)
  have same: "d3 x = d x" if "?at \<le> x" "x < ?at + chain_len (pre @ a # post)" "x < ?q \<or> ?q + 8 + length n \<le> x" for x
    using d3b [of x] d2 [of x] keep(1) [OF blk, of x] that K(1) by simp
  note sc = split_chain [OF conjunct1 [OF K(1)] K(3) r n new same]
  define d4 where "d4 = wr16 d3 (?p + 4) (de_entry_len (cut_entry a))"
  have "grabarEntrada d3 ?p (cut_entry a) = d4"
    using grabar_len [of d3 ?p "de_entry_len (cut_entry a)"] sc(1) by (simp add: d4_def cut_entry_def)
  moreover have "unat nro \<noteq> 0" using group_arith(1) [OF i ov] nro by simp
  then have "nro \<noteq> 0" by (simp add: unat_eq_zero)
  ultimately have "split_entry t n d ?p a = Some (0, d4)"
    using nueva_entrada [OF al _ fa r n, where b = t and p = ?p and t = ?i] ino by (simp add: d2_def d3_def)
  then have res: "agregar_loop t n d ?at 0 = Some (Some (0, d4))"
    using agregar_loop_hit [of d ?at pre a post 0 n t] K u r n by (simp add: name_ok_def)
  have e1: "wr32 d1 (?i + 4) 0 x = d x" if "in_directory d ino ess x" for x
    using wr_apply(1) [of x "?i + 4" d1 0] off [OF that] keep(1) [OF that] by auto
  have d4: "d4 x = wr32 d1 (?i + 4) 0 x" if "x < ?at \<or> ?at + ?bs \<le> x" for x
  proof -
    have "d4 x = d3 x" unfolding d4_def by (rule wr_apply(2)) (use that K(1) nl in auto)
    then show ?thesis using d2o [OF that] by (simp add: d3_def wr32_def mem_write_def)
  qed
  note E = directory_cong [OF D e1]
  have "directory d4 ino (ess[k := pre @ cut_entry a # ?new # post])"
  proof (rule directory_update [OF E(1) k])
    show "d4 x = wr32 d1 (?i + 4) 0 x" if "x < dir_at (wr32 d1 (?i + 4) 0) ino k \<or>
        dir_at (wr32 d1 (?i + 4) 0) ino k + unat (tamanioDeBloque (wr32 d1 (?i + 4) 0)) \<le> x" for x
      using d4 E(2,3) that D k by (auto simp: directory_def)
  qed (use sc(2) E(2,3) D k K C S nl in \<open>auto simp: directory_def d4_def\<close>)
  moreover have "d4 x = d1 x" if "x < ?at \<or> ?at + ?bs \<le> x" "x < ?i + 4 \<or> ?i + 8 \<le> x" for x
    using d4 [OF that(1)] wr_apply(1) [of x "?i + 4" d1 0] that(2) by auto
  ultimately show ?thesis using res by auto
qed


lemma equals_ignore_case_refl [simp]: "string_equals_ignore_case n n"
  by (simp add: string_equals_ignore_case_def strcasecmp_eq_def)

lemma lookup_append: "lookup n (xs @ ys) = (if lookup n xs = 0 then lookup n ys else lookup n xs)"
  by (induction xs) auto

lemma lookup_inserted:
  assumes "k < length ess" and "list_all (\<lambda>x. \<not> matches n x) (concat ess)" and "matches n e" and "de_inode e \<noteq> 0"
    and "ess ! k = pre @ a # post" and "entry_name a' = entry_name a"
  shows "lookup n (ess[k := pre @ a' # e # post]) = de_inode e"
proof -
  have s: "ess = take k ess @ (pre @ a # post) # drop (Suc k) ess" using id_take_nth_drop [OF assms(1)] assms(5) by simp
  have "list_all (\<lambda>x. \<not> matches n x) (concat (take k ess) @ pre @ [a])"
    using assms(2) by (subst (asm) s) simp
  then show ?thesis using assms(1,3,4,6)
    by (simp add: upd_conv_take_nth_drop lookup_append lookup_none first_match_append)
qed

lemma entry_added_effect:
  assumes "directory (disk s) ino ess" and "k < length ess" and "ess ! k = pre @ a # post"
    and "list_all (\<lambda>x. \<not> room n x) (concat (take k ess) @ pre)" and "room n a" and "name_ok n"
    and "list_all (\<lambda>x. \<not> matches n x) (concat ess)"
    and "leerGroupDescriptor (disk s) gr = Some g" and "inode_meta (disk s) g" and "alloc_apart (disk s) g ino ess"
    and "sb_free_inodes (disk s) \<noteq> 0" and "list_all (\<lambda>j. group_full (disk s) (of_nat j)) [0..<unat gr]"
    and "m < unat (sb_inodes_per_group (disk s))" and "\<not> bitarray_test_bit (disk s) (inode_bitmap (disk s) g) m"
    and "1 + (unat gr + 1) * unat (sb_inodes_per_group (disk s)) < 2 ^ 32"
  obtains i nro d' where "agregarEntradaDirectorio t s ino n = Some (0, s\<lparr>disk := d'\<rparr>)"
    "i < unat (sb_inodes_per_group (disk s))" "nro = 1 + sb_inodes_per_group (disk s) * gr + of_nat i"
    "unat nro = 1 + unat gr * unat (sb_inodes_per_group (disk s)) + i" "\<not> bitarray_test_bit (disk s) (inode_bitmap (disk s) g) i"
    "directory d' ino (ess[k := pre @ cut_entry a # new_entry t n nro a # post])"
    "buscarNroInodoEnEntradasDirectorio d' ino n = Some nro"
    "\<forall>w. \<not> string_equals_ignore_case n w \<longrightarrow>
       buscarNroInodoEnEntradasDirectorio d' ino w = buscarNroInodoEnEntradasDirectorio (disk s) ino w"
    "\<forall>x. x < dir_at (disk s) ino k \<or> dir_at (disk s) ino k + unat (tamanioDeBloque (disk s)) \<le> x \<longrightarrow>
       x < inode_table (disk s) g + i * 128 + 4 \<or> inode_table (disk s) g + i * 128 + 8 \<le> x \<longrightarrow>
       x < read_superblock + 16 \<or> read_superblock + 20 \<le> x \<longrightarrow> x < g + 14 \<or> g + 16 \<le> x \<longrightarrow>
       x \<noteq> ba_bitarray (inode_bitmap (disk s) g) + i div 8 \<longrightarrow> d' x = disk s x"
proof -
  let ?d = "disk s" and ?k = "unat (sb_inodes_per_group (disk s))"
  obtain i nro d1 where al: "getInodoLibre ?d = Some (nro, d1)" "i < ?k" "unat nro = 1 + unat gr * ?k + i"
    "\<not> bitarray_test_bit ?d (inode_bitmap ?d g) i"
    "\<forall>x. (x < read_superblock + 16 \<or> read_superblock + 20 \<le> x) \<and> (x < g + 14 \<or> g + 16 \<le> x) \<and>
       x \<noteq> ba_bitarray (inode_bitmap ?d g) + i div 8 \<longrightarrow> d1 x = ?d x"
    using inode_taken [OF assms(8,9,11-15)] by blast
  have ov: "1 + unat gr * ?k + i < 2 ^ 32" using al(2) assms(15) by simp
  then have nro: "nro = 1 + sb_inodes_per_group ?d * gr + of_nat i"
    using al(3) group_arith(1) [OF al(2) ov] by (simp only: word_unat_eq_iff)
  define es where "es = pre @ cut_entry a # new_entry t n nro a # post"
  obtain d' where d': "agregar_loop t n ?d (dir_at ?d ino k) 0 = Some (Some (0, d'))" "directory d' ino (ess[k := es])"
    "\<forall>x. (x < dir_at ?d ino k \<or> dir_at ?d ino k + unat (tamanioDeBloque ?d) \<le> x) \<and>
       (x < inode_table ?d g + i * 128 + 4 \<or> inode_table ?d g + i * 128 + 8 \<le> x) \<longrightarrow> d' x = d1 x"
    using agregar_splits [OF assms(1-6,8-10) al(2) ov al(4,1) nro al(5), of t] by (auto simp: es_def)
  have "length n \<le> 255" using assms(6) by (simp add: name_ok_def)
  then obtain off where "agregar_bloques t n ?d ino (ino_size ?d ino) 0 = Some (Some (0, d'), off)"
    using agregar_bloques_from [OF assms(1) _ assms(2) _ _ d'(1), of 0] assms(4) by auto
  then have r: "agregarEntradaDirectorio t s ino n = Some (0, s\<lparr>disk := d'\<rparr>)" by (simp add: agregarEntradaDirectorio_def)
  have lk: "buscarNroInodoEnEntradasDirectorio d' ino w = Some (lookup w (ess[k := es]))"
    "buscarNroInodoEnEntradasDirectorio ?d ino w = Some (lookup w ess)" for w
    using buscar_lookup d'(2) assms(1) by (auto simp: directory_def)
  have nm: "entry_name (new_entry t n nro a) = n" "de_inode (new_entry t n nro a) = nro"
    using assms(6) by (auto simp: new_entry_def entry_name_def name_ok_def takeWhile_eq_all_conv)
  have "unat nro \<noteq> 0" using al(3) by simp
  then have "nro \<noteq> 0" by (simp add: unat_eq_zero)
  then have "lookup n (ess[k := es]) = nro"
    using lookup_inserted [OF assms(2,7) _ _ assms(3), of "new_entry t n nro a" "cut_entry a"] nm by (simp add: es_def)
  moreover have "lookup w (ess[k := es]) = lookup w ess" if "\<not> string_equals_ignore_case n w" for w
    using that assms(3) nm by (intro lookup_update) (simp add: es_def first_match_append)
  ultimately show ?thesis using r al(2,3,4,5) nro d'(2,3) lk by (intro that [of d' i nro]) (auto simp: es_def)
qed

text \<open>
  C8. Adding an entry to a directory: when an entry has room behind it for the new one, and a group has a free inode,
  \<open>agregarEntradaDirectorio\<close> ends without error. It shortens the first entry with room to what its name needs, and the
  new entry, with an inode that was free, takes the rest. The directory stays well formed, the new name, when it was
  not there before, is found with the new inode, and every other name is looked up as before.
\<close>

theorem entry_added:
  assumes "directory (disk s) ino ess" and "k < length ess" and "ess ! k = pre @ a # post"
    and "list_all (\<lambda>x. \<not> room n x) (concat (take k ess) @ pre)" and "room n a" and "name_ok n"
    and "list_all (\<lambda>x. \<not> matches n x) (concat ess)"
    and "leerGroupDescriptor (disk s) gr = Some g" and "inode_meta (disk s) g" and "alloc_apart (disk s) g ino ess"
    and "sb_free_inodes (disk s) \<noteq> 0" and "list_all (\<lambda>j. group_full (disk s) (of_nat j)) [0..<unat gr]"
    and "m < unat (sb_inodes_per_group (disk s))" and "\<not> bitarray_test_bit (disk s) (inode_bitmap (disk s) g) m"
    and "1 + (unat gr + 1) * unat (sb_inodes_per_group (disk s)) < 2 ^ 32"
  shows "\<exists>i nro d'. agregarEntradaDirectorio t s ino n = Some (0, s\<lparr>disk := d'\<rparr>) \<and>
    \<not> bitarray_test_bit (disk s) (inode_bitmap (disk s) g) i \<and> unat nro = 1 + unat gr * unat (sb_inodes_per_group (disk s)) + i \<and>
    directory d' ino (ess[k := pre @ cut_entry a # new_entry t n nro a # post]) \<and>
    buscarNroInodoEnEntradasDirectorio d' ino n = Some nro \<and>
    (\<forall>w. \<not> string_equals_ignore_case n w \<longrightarrow>
       buscarNroInodoEnEntradasDirectorio d' ino w = buscarNroInodoEnEntradasDirectorio (disk s) ino w)"
  using entry_added_effect [OF assms, of t] by metis

text \<open>The disk of \<open>Paths\<close> with five free inodes: 1 to 3 are in use.\<close>

definition demo_room :: rfs where
  "demo_room = \<lparr>disk = (wr32 demo_fs 1040 5)(4096 := 7), nro_de_grupo = 0\<rparr>"

lemma demo_room_other: "x < 1040 \<or> 1044 \<le> x \<Longrightarrow> x \<noteq> 4096 \<Longrightarrow> disk demo_room x = demo_fs x"
  by (simp add: demo_room_def mem_simps)

lemma demo_dir_at: "dir_at demo_fs 5248 0 = 6144"
  using dir_at_direct [of 0 demo_fs 5248] demo_fs_facts(6) by simp

lemma demo_room_dir:
  "directory (disk demo_room) 5248 [[demo_dot, demo_dotdot, demo_file]]" "tamanioDeBloque (disk demo_room) = 1024"
  "dir_at (disk demo_room) 5248 0 = 6144"
proof -
  have "disk demo_room x = demo_fs x" if "in_directory demo_fs 5248 [[demo_dot, demo_dotdot, demo_file]] x" for x
    using that by (intro demo_room_other) (auto simp: in_directory_def demo_dir_at demo_fs_super)
  note c = directory_cong [OF demo_directory this]
  show "directory (disk demo_room) 5248 [[demo_dot, demo_dotdot, demo_file]]" by (rule c(1))
  show "tamanioDeBloque (disk demo_room) = 1024" "dir_at (disk demo_room) 5248 0 = 6144"
    using c(2,3) demo_dir_at demo_fs_super by simp_all
qed

lemma demo_room_meta:
  "leerGroupDescriptor (disk demo_room) 0 = Some 2048" "sb_inodes_per_group (disk demo_room) = 8"
  "sb_free_inodes (disk demo_room) = 5" "ba_bitarray (inode_bitmap (disk demo_room) 2048) = 4096"
  "inode_table (disk demo_room) 2048 = 5120"
proof -
  have "rd32 (disk demo_room) (read_superblock + x) = rd32 demo_fs (read_superblock + x)" if "x \<in> {0, 20, 24, 32, 40}" for x
    using that by (intro rd32_cong demo_room_other) (auto simp: read_superblock_def)
  note M = same_meta [of "disk demo_room" demo_fs, OF this]
  show "leerGroupDescriptor (disk demo_room) 0 = Some 2048" "sb_inodes_per_group (disk demo_room) = 8"
    using M demo_fs_super by simp_all
  show "sb_free_inodes (disk demo_room) = 5"
    by (simp add: sb_free_inodes_def read_superblock_def demo_room_def mem_simps)
  have "rd32 demo_fs 2052 = 4" by (simp add: demo_defs)
  then have "gd_inode_bitmap (disk demo_room) 2048 = 4"
    using rd32_cong [of 2052 "disk demo_room" demo_fs] demo_room_other by (simp add: gd_inode_bitmap_def)
  then show "ba_bitarray (inode_bitmap (disk demo_room) 2048) = 4096"
    by (simp add: inode_bitmap_def bitarray_create_def posicionarInicioBloque_def demo_room_dir)
  have "gd_inode_table (disk demo_room) 2048 = 5"
    using rd32_cong [of 2056 "disk demo_room" demo_fs] demo_room_other demo_fs_super(4) by (simp add: gd_inode_table_def)
  then show "inode_table (disk demo_room) 2048 = 5120"
    by (simp add: inode_table_def posicionarInicioBloque_def demo_room_dir)
qed

lemma demo_room_bits: "bitarray_test_bit (disk demo_room) (inode_bitmap (disk demo_room) 2048) i \<longleftrightarrow> i < 3" if "i < 8"
proof -
  have "disk demo_room 4096 = 7" by (simp add: demo_room_def)
  moreover have "bit (7 :: byte) i \<longleftrightarrow> i < 3" using that by (auto simp: less_Suc_eq numeral_eq_Suc)
  ultimately show ?thesis using that by (simp add: test_bit_bit demo_room_meta)
qed

lemma demo_room_alloc:
  "alloc_apart (disk demo_room) 2048 5248 [[demo_dot, demo_dotdot, demo_file]]" "inode_meta (disk demo_room) 2048"
  by (auto simp: alloc_apart_def off_meta_def inode_meta_def demo_room_meta demo_room_dir demo_room_bits read_superblock_def)

lemma demo_room_new:
  "list_all (\<lambda>x. \<not> room (str ''b'') x) [demo_dot, demo_dotdot]" "room (str ''b'') demo_file" "name_ok (str ''b'')"
  "list_all (\<lambda>x. \<not> matches (str ''b'') x) [demo_dot, demo_dotdot, demo_file]"
  by code_simp+

theorem entry_added_witness:
  "\<exists>nro d'. agregarEntradaDirectorio 0 demo_room 5248 (str ''b'') = Some (0, demo_room\<lparr>disk := d'\<rparr>) \<and>
     buscarNroInodoEnEntradasDirectorio d' 5248 (str ''b'') = Some nro"
  using entry_added [OF demo_room_dir(1), of 0 "[demo_dot, demo_dotdot]" demo_file "[]" "str ''b''" 0 2048 3 0]
    demo_room_bits [of 3] demo_room_alloc demo_room_new by (auto simp: demo_room_meta)

end
