(* ===== verification/Creation.thy ===== *)
theory Creation
  imports NewEntries
begin

text \<open>
  Creating a file in the root directory: \<open>crearArchivo\<close> of \<open>rfs/src/funciones_rfs.c\<close> from the path to the inode on the disk.
\<close>

unbundle bit_operations_syntax

lemma root_path:
  assumes "name_ok n" and "47 \<notin> set n"
  shows "separarPathParaNewDirEntry (47 # n) = \<lparr>ruta = [], nombre = n\<rparr>" and "string_split (47 # n) SEPARADOR = [n]"
proof -
  have "component {47} n" using assms by (auto simp: component_def name_ok_def)
  then show "separarPathParaNewDirEntry (47 # n) = \<lparr>ruta = [], nombre = n\<rparr>" "string_split (47 # n) SEPARADOR = [n]"
    using separar_joined [of "[]" n] split_joined [of "[n]"] by simp_all
qed

lemma root_number:
  assumes "inodo_at d 2 = Some ino"
  shows "getNroInodoDeLaDireccionDelPath d [] = Some 2"
    and "\<lbrakk>name_ok n; 47 \<notin> set n; EXT2_INODE_HAS_MODE_FLAG d ino EXT2_S_IFDIR; buscarNroInodoEnEntradasDirectorio d ino n = Some v;
      v \<noteq> 0 \<Longrightarrow> inodo_at d v \<noteq> None\<rbrakk> \<Longrightarrow> getNroInodoDeLaDireccionDelPath d (47 # n) = Some v"
proof -
  have "string_split [] SEPARADOR = []" by code_simp
  then show "getNroInodoDeLaDireccionDelPath d [] = Some 2" using assms by (simp add: getNroInodoDeLaDireccionDelPath_def)
  show "getNroInodoDeLaDireccionDelPath d (47 # n) = Some v"
    if "name_ok n" "47 \<notin> set n" "EXT2_INODE_HAS_MODE_FLAG d ino EXT2_S_IFDIR" "buscarNroInodoEnEntradasDirectorio d ino n = Some v"
      "v \<noteq> 0 \<Longrightarrow> inodo_at d v \<noteq> None"
    using that root_path(2) [OF that(1,2)] assms by (auto simp: getNroInodoDeLaDireccionDelPath_def)
qed

text \<open>An inode of the first group, on a disk that agrees on the superblock and the table of inodes of that group.\<close>

lemma first_group_inode:
  assumes "leerGroupDescriptor d 0 = Some g" and "(n - 1) div sb_inodes_per_group d = 0"
    and "\<And>x. 1024 \<le> x \<Longrightarrow> x < 1068 \<Longrightarrow> x < 1036 \<or> 1044 \<le> x \<Longrightarrow> d' x = d x" and "\<And>x. g + 8 \<le> x \<Longrightarrow> x < g + 12 \<Longrightarrow> d' x = d x"
  shows "inodo_at d' n = inodo_at d n"
  using assms by (intro inodo_at_cong) simp_all

lemma regular_flag: "\<not> (ucast (mode OR S_IFREG) :: u16) AND 0xF000 = EXT2_S_IFDIR"
proof
  assume a: "(ucast (mode OR S_IFREG) :: u16) AND 0xF000 = EXT2_S_IFDIR"
  have "bit ((ucast (mode OR S_IFREG) :: u16) AND 0xF000) 15" by (simp add: bit_simps S_IFREG_def)
  moreover have "\<not> bit EXT2_S_IFDIR 15" by (simp add: EXT2_S_IFDIR_def bit_simps)
  ultimately show False using a by simp
qed

lemma setear_regular:
  "setearInodo s t (mode OR S_IFREG) =
     Some (0, s\<lparr>disk := set_ino_size (set_ino_links (set_ino_mode (disk s) t (ucast (mode OR S_IFREG))) t 1) t 0\<rparr>)"
  using regular_flag [of mode]
  by (simp add: setearInodo_def Let_def EXT2_INODE_HAS_MODE_FLAG_def ino_mode_def set_ino_mode_def)

lemma regular_fields:
  fixes d :: mem and t :: nat and v :: u16
  defines "d' \<equiv> set_ino_size (set_ino_links (set_ino_mode d t v) t 1) t 0"
  shows "ino_mode d' t = v" "ino_links d' t = 1" "ino_size d' t = 0" "x < t \<or> t + 128 \<le> x \<Longrightarrow> d' x = d x"
  by (auto simp: d'_def ino_mode_def ino_links_def ino_size_def set_ino_mode_def set_ino_links_def set_ino_size_def mem_simps)

text \<open>The bytes of the disk that finding the new inode depends on.\<close>

lemma creation_frame:
  assumes D: "directory d ino ess" and k: "k < length ess" and A: "alloc_apart d g ino ess" and M: "inode_meta d g"
    and g: "leerGroupDescriptor d 0 = Some g" and tb: "g + 32 \<le> inode_table d g"
    and fr: "\<forall>x. x < dir_at d ino k \<or> dir_at d ino k + unat (tamanioDeBloque d) \<le> x \<longrightarrow>
       x < inode_table d g + i * 128 + 4 \<or> inode_table d g + i * 128 + 8 \<le> x \<longrightarrow>
       x < read_superblock + 16 \<or> read_superblock + 20 \<le> x \<longrightarrow> x < g + 14 \<or> g + 16 \<le> x \<longrightarrow>
       x \<noteq> ba_bitarray (inode_bitmap d g) + i div 8 \<longrightarrow> d' x = d x"
  shows "1024 \<le> x \<Longrightarrow> x < 1068 \<Longrightarrow> x < 1036 \<or> 1044 \<le> x \<Longrightarrow> d' x = d x" and "g + 8 \<le> x \<Longrightarrow> x < g + 12 \<Longrightarrow> d' x = d x"
proof -
  have b: "2048 \<le> dir_at d ino k" "dir_at d ino k + unat (tamanioDeBloque d) \<le> g \<or> g + 32 \<le> dir_at d ino k" "2048 \<le> inode_table d g"
    using D A k by (auto simp: directory_def alloc_apart_def off_meta_def)
  have m: "read_superblock + 44 \<le> g" "g + 32 \<le> ba_bitarray (inode_bitmap d g)" using M by (auto simp: inode_meta_def)
  show "d' x = d x" if "1024 \<le> x" "x < 1068" "x < 1036 \<or> 1044 \<le> x"
    by (rule fr [rule_format]) (use that b m in \<open>auto simp: read_superblock_def\<close>)
  show "d' x = d x" if "g + 8 \<le> x" "x < g + 12"
    by (rule fr [rule_format]) (use that b m tb in \<open>auto simp: read_superblock_def\<close>)
qed

lemma directory_inode_frame:
  assumes D: "directory d ino ess" and k: "k < length ess" and A: "alloc_apart d g ino ess" and M: "inode_meta d g"
    and i: "i < unat (sb_inodes_per_group d)" and bit: "\<not> bitarray_test_bit d (inode_bitmap d g) i"
    and fr: "\<forall>x. x < dir_at d ino k \<or> dir_at d ino k + unat (tamanioDeBloque d) \<le> x \<longrightarrow>
       x < inode_table d g + i * 128 + 4 \<or> inode_table d g + i * 128 + 8 \<le> x \<longrightarrow>
       x < read_superblock + 16 \<or> read_superblock + 20 \<le> x \<longrightarrow> x < g + 14 \<or> g + 16 \<le> x \<longrightarrow>
       x \<noteq> ba_bitarray (inode_bitmap d g) + i div 8 \<longrightarrow> d' x = d x"
    and x: "ino \<le> x" "x < ino + 128"
  shows "d' x = d x"
proof (rule fr [rule_format])
  have i8: "i div 8 < (unat (sb_inodes_per_group d) + 7) div 8" using i by linarith
  have A': "2048 \<le> ino" "off_meta d g ino 128" using A by (auto simp: alloc_apart_def)
  show "x < dir_at d ino k \<or> dir_at d ino k + unat (tamanioDeBloque d) \<le> x" using D k x by (auto simp: directory_def)
  show "x < inode_table d g + i * 128 + 4 \<or> inode_table d g + i * 128 + 8 \<le> x"
    using inode_off_directory [OF D A i bit, of x] x by (auto simp: in_directory_def)
  show "x < read_superblock + 16 \<or> read_superblock + 20 \<le> x" using A' x by (simp add: read_superblock_def)
  show "x < g + 14 \<or> g + 16 \<le> x" "x \<noteq> ba_bitarray (inode_bitmap d g) + i div 8" using A' x i8 by (auto simp: off_meta_def)
qed

text \<open>The root directory and an inode of its group on a disk that agrees on all of that.\<close>

lemma root_view:
  assumes "leerGroupDescriptor d 0 = Some g" and "1 < sb_inodes_per_group d" and "inodo_at d 2 = Some ino"
    and "EXT2_INODE_HAS_MODE_FLAG d ino EXT2_S_IFDIR" and "(nro - 1) div sb_inodes_per_group d = 0"
    and s: "\<And>x. 1024 \<le> x \<Longrightarrow> x < 1068 \<Longrightarrow> x < 1036 \<or> 1044 \<le> x \<Longrightarrow> d' x = d x" and g: "\<And>x. g + 8 \<le> x \<Longrightarrow> x < g + 12 \<Longrightarrow> d' x = d x"
    and n: "\<And>x. ino \<le> x \<Longrightarrow> x < ino + 128 \<Longrightarrow> d' x = d x"
  shows "inodo_at d' 2 = Some ino" "EXT2_INODE_HAS_MODE_FLAG d' ino EXT2_S_IFDIR" "inodo_at d' nro = inodo_at d nro"
    "tamanioDeBloque d' = tamanioDeBloque d" "i < 12 \<Longrightarrow> dir_at d' ino i = dir_at d ino i"
proof -
  have "unat ((2 - 1 :: u32) div sb_inodes_per_group d) = 0"
    using assms(2) by (auto simp: unat_div word_less_nat_alt)
  then have "(2 - 1 :: u32) div sb_inodes_per_group d = 0" by (simp only: unat_eq_zero)
  then show "inodo_at d' 2 = Some ino" using first_group_inode [OF assms(1) _ s g] assms(3) by metis
  show "inodo_at d' nro = inodo_at d nro" by (rule first_group_inode [OF assms(1,5) s g])
  have "ino_mode d' ino = ino_mode d ino" unfolding ino_mode_def by (intro rd16_cong n) auto
  then show "EXT2_INODE_HAS_MODE_FLAG d' ino EXT2_S_IFDIR" using assms(4) by (simp add: EXT2_INODE_HAS_MODE_FLAG_def)
  have "rd32 d' (read_superblock + x) = rd32 d (read_superblock + x)" if "x \<in> {0, 20, 24, 32, 40}" for x
    using that by (intro rd32_cong s) (auto simp: read_superblock_def)
  from same_meta(4) [of d' d, OF this] show b: "tamanioDeBloque d' = tamanioDeBloque d" .
  show "dir_at d' ino i = dir_at d ino i" if "i < 12"
    using that b rd32_cong [of "ino + 40 + 4 * i" d' d] n by (simp add: dir_at_def posicionarInicioBloque_def)
qed

text \<open>Names are found as before when only bytes outside of the directory change.\<close>

lemma lookups_kept:
  assumes D: "directory d ino ess" and E: "directory d1 ino (ess[k := es])" and b: "tamanioDeBloque d1 = tamanioDeBloque d"
    and at: "\<And>j. j < 12 \<Longrightarrow> dir_at d1 ino j = dir_at d ino j" and o: "\<And>x. in_directory d ino ess x \<Longrightarrow> d2 x = d1 x"
  shows "buscarNroInodoEnEntradasDirectorio d2 ino w = buscarNroInodoEnEntradasDirectorio d1 ino w"
proof -
  have "length ess \<le> 12" using D by (simp add: directory_def)
  then have "dir_at d1 ino j = dir_at d ino j" if "j < length ess" for j using at [of j] that by simp
  then have "in_directory d1 ino (ess[k := es]) x \<longleftrightarrow> in_directory d ino ess x" for x
    using b by (simp add: in_directory_def cong: conj_cong)
  then have "directory d2 ino (ess[k := es])" using o by (intro directory_cong(1) [OF E]) blast
  then show ?thesis using buscar_lookup E by (metis directory_def)
qed

text \<open>
  C4. Creating a file in the root directory: when the name is new, an entry of the directory has room for it, and the
  first group has a free inode, \<open>crearArchivo\<close> ends without error; the path then names an inode that was free, and that inode
  is a regular file of the mode asked for, with one link and size 0. Every other name of the directory is found as before.
\<close>

theorem file_created:
  assumes "inodo_at (disk s) 2 = Some ino" and "EXT2_INODE_HAS_MODE_FLAG (disk s) ino EXT2_S_IFDIR"
    and "1 < sb_inodes_per_group (disk s)" and "1 + unat (sb_inodes_per_group (disk s)) < 2 ^ 32"
    and "directory (disk s) ino ess" and "k < length ess" and "ess ! k = pre @ a # post"
    and "list_all (\<lambda>x. \<not> room n x) (concat (take k ess) @ pre)" and "room n a" and "name_ok n" and "47 \<notin> set n"
    and "list_all (\<lambda>x. \<not> matches n x) (concat ess)"
    and "leerGroupDescriptor (disk s) 0 = Some g" and "inode_meta (disk s) g" and "alloc_apart (disk s) g ino ess"
    and "g + 32 \<le> inode_table (disk s) g" and "sb_free_inodes (disk s) \<noteq> 0"
    and "m < unat (sb_inodes_per_group (disk s))" and "\<not> bitarray_test_bit (disk s) (inode_bitmap (disk s) g) m"
  shows "\<exists>i nro t d'. crearArchivo b s (47 # n) mode = Some (0, s\<lparr>disk := d'\<rparr>) \<and>
    getNroInodoDeLaDireccionDelPath d' (47 # n) = Some nro \<and> inodo_at d' nro = Some t \<and>
    unat nro = i + 1 \<and> \<not> bitarray_test_bit (disk s) (inode_bitmap (disk s) g) i \<and>
    ino_mode d' t = ucast (mode OR S_IFREG) \<and> ino_links d' t = 1 \<and> ino_size d' t = 0 \<and>
    (\<forall>w. \<not> string_equals_ignore_case n w \<longrightarrow>
       buscarNroInodoEnEntradasDirectorio d' ino w = buscarNroInodoEnEntradasDirectorio (disk s) ino w)"
proof -
  let ?d = "disk s" and ?k = "sb_inodes_per_group (disk s)"
  have ov: "1 + (unat (0 :: u32) + 1) * unat ?k < 2 ^ 32" using assms(4) by simp
  have full: "list_all (\<lambda>j. group_full ?d (of_nat j)) [0..<unat (0 :: u32)]" by simp
  obtain i nro d1 where e: "agregarEntradaDirectorio b s ino n = Some (0, s\<lparr>disk := d1\<rparr>)" "i < unat ?k"
    "nro = 1 + ?k * 0 + of_nat i" "unat nro = 1 + unat (0 :: u32) * unat ?k + i" "\<not> bitarray_test_bit ?d (inode_bitmap ?d g) i"
    "directory d1 ino (ess[k := pre @ cut_entry a # new_entry b n nro a # post])"
    "buscarNroInodoEnEntradasDirectorio d1 ino n = Some nro"
    "\<forall>w. \<not> string_equals_ignore_case n w \<longrightarrow> buscarNroInodoEnEntradasDirectorio d1 ino w = buscarNroInodoEnEntradasDirectorio ?d ino w"
    "\<forall>x. x < dir_at ?d ino k \<or> dir_at ?d ino k + unat (tamanioDeBloque ?d) \<le> x \<longrightarrow>
       x < inode_table ?d g + i * 128 + 4 \<or> inode_table ?d g + i * 128 + 8 \<le> x \<longrightarrow>
       x < read_superblock + 16 \<or> read_superblock + 20 \<le> x \<longrightarrow> x < g + 14 \<or> g + 16 \<le> x \<longrightarrow>
       x \<noteq> ba_bitarray (inode_bitmap ?d g) + i div 8 \<longrightarrow> d1 x = ?d x"
    using entry_added_effect [OF assms(5-10,12-15,17) full assms(18,19) ov, where t = b] .
  define t where "t = inode_table ?d g + i * 128"
  define d2 where "d2 = set_ino_size (set_ino_links (set_ino_mode d1 t (ucast (mode OR S_IFREG))) t 1) t 0"
  note F = creation_frame [OF assms(5,6,15,14,13,16) e(9)] and R = regular_fields [where d = d1 and t = t and v = "ucast (mode OR S_IFREG)", folded d2_def]
  note N = directory_inode_frame [OF assms(5,6,15,14) e(2,5) e(9)]
  have gn: "(nro - 1) div ?k = 0" unfolding e(3) using group_arith(2) [OF e(2), of 0] e(2) assms(4) by simp
  have nz: "nro \<noteq> 0" using e(4) by (metis add_is_0 one_neq_zero unat_0)
  have t: "inodo_at ?d nro = Some t" unfolding e(3) t_def using assms(4) e(2) by (intro new_inode_at assms(13)) auto
  note V = root_view [OF assms(13,3,1,2) gn F N]
  have off: "x < t \<or> t + 128 \<le> x" if "in_directory ?d ino ess x" for x
    using inode_off_directory [OF assms(5,15) e(2,5) that] by (simp add: t_def)
  have t0: "2048 \<le> t" "g + 32 \<le> t" using assms(15,16) by (auto simp: t_def alloc_apart_def)
  have F2: "d2 x = ?d x" if "1024 \<le> x" "x < 1068" "x < 1036 \<or> 1044 \<le> x" for x
    using F(1) [OF that] R(4) [of x] t0 that(2) by simp
  have G2: "d2 x = ?d x" if "g + 8 \<le> x" "x < g + 12" for x using F(2) [OF that] R(4) [of x] t0 that(2) by simp
  have N2: "d2 x = ?d x" if "ino \<le> x" "x < ino + 128" for x
    using N [OF that] R(4) [of x] off [of x] that by (simp add: in_directory_def)
  note W = root_view [OF assms(13,3,1,2) gn F2 G2 N2]
  have lk: "buscarNroInodoEnEntradasDirectorio d2 ino w = buscarNroInodoEnEntradasDirectorio d1 ino w" for w
    using R(4) off by (intro lookups_kept [OF assms(5) e(6) V(4,5)]) auto
  have free: "getNroInodoDeLaDireccionDelPath ?d (47 # n) = Some 0"
    using root_number(2) [OF assms(1,10,11,2), of 0] buscar_lookup [of ?d ino ess n] assms(5,12) lookup_none by (simp add: directory_def)
  have p1: "getNroInodoDeLaDireccionDelPath d1 (47 # n) = Some nro"
    using root_number(2) [OF V(1) assms(10,11) V(2) e(7)] V(3) t by simp
  have p2: "getNroInodoDeLaDireccionDelPath d2 (47 # n) = Some nro" "inodo_at d2 nro = Some t"
    using root_number(2) [OF W(1) assms(10,11) W(2), of nro] W(3) lk e(7) t by simp_all
  have "crearArchivo b s (47 # n) mode = Some (0, s\<lparr>disk := d2\<rparr>)"
    using root_path(1) [OF assms(10,11)] root_number(1) [OF assms(1)] assms(1) free e(1) p1 V(3) t setear_regular [of "s\<lparr>disk := d1\<rparr>" t mode]
    by (simp add: crearArchivo_def Let_def d2_def)
  then show ?thesis using p2 e(4,5,8) R lk by (intro exI [of _ i] exI [of _ nro] exI [of _ t] exI [of _ d2]) simp
qed

lemma demo_room_root:
  "inodo_at (disk demo_room) 2 = Some 5248" "EXT2_INODE_HAS_MODE_FLAG (disk demo_room) 5248 EXT2_S_IFDIR"
proof -
  have "inodo_at demo_fs 2 = Some 5248" "EXT2_INODE_HAS_MODE_FLAG demo_fs 5248 EXT2_S_IFDIR"
    "leerGroupDescriptor demo_fs 0 = Some 2048" "1 < sb_inodes_per_group demo_fs" "(2 - 1) div sb_inodes_per_group demo_fs = 0"
    using demo_fs_facts demo_fs_super by simp_all
  moreover have "disk demo_room x = demo_fs x" if "x < 1036 \<or> 1044 \<le> x" "x < 1068" for x using demo_room_other [of x] that by auto
  ultimately show "inodo_at (disk demo_room) 2 = Some 5248" "EXT2_INODE_HAS_MODE_FLAG (disk demo_room) 5248 EXT2_S_IFDIR"
    using root_view(1,2) [of demo_fs 2048 5248 2 "disk demo_room"] demo_room_other by simp_all
qed

theorem file_created_witness:
  "\<exists>nro t d'. crearArchivo 0 demo_room (47 # str ''b'') 0x1A4 = Some (0, demo_room\<lparr>disk := d'\<rparr>) \<and>
     getNroInodoDeLaDireccionDelPath d' (47 # str ''b'') = Some nro \<and> inodo_at d' nro = Some t \<and> ino_links d' t = 1 \<and> ino_size d' t = 0"
proof -
  have "47 \<notin> set (str ''b'')" by code_simp
  then show ?thesis
    using file_created [OF demo_room_root, where ess = "[[demo_dot, demo_dotdot, demo_file]]" and k = 0 and pre = "[demo_dot, demo_dotdot]"
        and a = demo_file and post = "[]" and n = "str ''b''" and g = 2048 and m = 3 and b = 0 and mode = "0x1A4"]
      demo_room_bits [of 3] demo_room_alloc demo_room_new demo_room_dir(1) by (auto simp: demo_room_meta)
qed

end
