(* ===== verification/Truncation.thy ===== *)
theory Truncation
  imports Creation
begin

unbundle bit_operations_syntax

text \<open>
  Shrinking and removing files, \<open>truncarArchivo\<close> and \<open>eliminarArchivo\<close> of \<open>rfs/src/funciones_rfs.c\<close>: a file of direct blocks loses
  exactly the blocks behind its new size.
\<close>

section \<open>Sizes as words\<close>

lemma of_nat_div_mod:
  assumes "a < 2 ^ 32"
  shows "(of_nat a :: u32) div w = of_nat (a div unat w)" and "(of_nat a :: u32) mod w = of_nat (a mod unat w)"
proof -
  have a: "unat (of_nat a :: u32) = a" using assms by (intro unat_of_nat_small) simp
  have "a div unat w < 2 ^ 32" "a mod unat w < 2 ^ 32"
    using assms div_le_dividend [of a "unat w"] mod_less_eq_dividend [of a "unat w"] by linarith+
  then show "(of_nat a :: u32) div w = of_nat (a div unat w)" "(of_nat a :: u32) mod w = of_nat (a mod unat w)"
    using a by (simp_all add: word_unat_eq_iff unat_div unat_mod unat_of_nat_small)
qed

lemma size_change:
  assumes "t \<le> e" and "e < 2 ^ 31"
  shows "sint (of_nat t - of_nat e :: u32) = int t - int e" and "- (of_nat t - of_nat e :: u32) = of_nat (e - t)"
proof -
  have "(of_nat t - of_nat e :: u32) = word_of_int (int t - int e)" by simp
  then show "sint (of_nat t - of_nat e :: u32) = int t - int e"
    using assms signed_take_bit_int_eq_self [of 31 "int t - int e"] by (simp only: sint_sbintrunc') simp
  show "- (of_nat t - of_nat e :: u32) = of_nat (e - t)" using assms by (simp add: of_nat_diff)
qed

section \<open>The group of the blocks\<close>

definition block_group :: "mem \<Rightarrow> u32 \<Rightarrow> nat \<Rightarrow> bool" where
  "block_group d nro g \<longleftrightarrow> leerGroupDescriptor d nro = Some g \<and> sb_first_data_block d = 1 \<and> meta_below d g \<and>
     1 + (unat nro + 1) * unat (sb_blocks_per_group d) < 2 ^ 32"

text \<open>An inode that is apart from the descriptor and the bitmap of the group.\<close>

definition ino_apart :: "mem \<Rightarrow> nat \<Rightarrow> nat \<Rightarrow> bool" where
  "ino_apart d g ino \<longleftrightarrow> g + 32 \<le> ino \<and> (ino + 128 \<le> ba_bitarray (block_bitmap d g) \<or>
     ba_bitarray (block_bitmap d g) + unat (sb_blocks_per_group d) div 8 < ino)"

text \<open>A file whose blocks are direct and belong to the group; the list has their positions in the bitmap.\<close>

definition direct_blocks :: "mem \<Rightarrow> u32 \<Rightarrow> nat \<Rightarrow> nat list \<Rightarrow> bool" where
  "direct_blocks d nro ino bs \<longleftrightarrow> length bs \<le> 12 \<and> (\<forall>k < length bs. bs ! k < unat (sb_blocks_per_group d) \<and>
     rd32 d (ino + 40 + 4 * k) = 1 + sb_blocks_per_group d * nro + of_nat (bs ! k))"

text \<open>Bytes that shrinking a file does not write.\<close>

definition shrink_frame :: "mem \<Rightarrow> nat \<Rightarrow> nat \<Rightarrow> nat \<Rightarrow> bool" where
  "shrink_frame d g ino x \<longleftrightarrow> (x < 1036 \<or> 1040 \<le> x) \<and> (x < g + 12 \<or> g + 14 \<le> x) \<and> (x < ino + 28 \<or> ino + 88 \<le> x) \<and>
     (x < ba_bitarray (block_bitmap d g) \<or> ba_bitarray (block_bitmap d g) + unat (sb_blocks_per_group d) div 8 < x)"

text \<open>The disk after all the blocks of the list from the position on were released.\<close>

definition freed :: "mem \<Rightarrow> nat \<Rightarrow> nat \<Rightarrow> nat list \<Rightarrow> nat \<Rightarrow> mem \<Rightarrow> bool" where
  "freed d g ino bs m d' \<longleftrightarrow>
     (\<forall>j < unat (sb_blocks_per_group d). bitarray_test_bit d' (block_bitmap d g) j \<longleftrightarrow>
        bitarray_test_bit d (block_bitmap d g) j \<and> j \<notin> set (drop m bs)) \<and>
     sb_free_blocks d' = sb_free_blocks d + of_nat (length bs - m) \<and>
     gd_free_blocks_count d' g = gd_free_blocks_count d g + of_nat (length bs - m) \<and>
     ino_nr_blocks d' ino = ino_nr_blocks d ino - of_nat (length bs - m) * (tamanioDeBloque d div 512) \<and>
     (\<forall>k < 12. rd32 d' (ino + 40 + 4 * k) = (if m \<le> k \<and> k < length bs then 0 else rd32 d (ino + 40 + 4 * k))) \<and>
     (\<forall>x. shrink_frame d g ino x \<longrightarrow> d' x = d x)"

lemma freed_refl: "length bs \<le> m \<Longrightarrow> freed d g ino bs m d"
  by (auto simp: freed_def)

text \<open>What such a change leaves alone.\<close>

lemma frame_keeps:
  assumes G: "block_group d nro g" and I: "ino_apart d g ino" and f: "\<forall>x. shrink_frame d g ino x \<longrightarrow> d' x = d x"
  shows "block_group d' nro g" "ino_apart d' g ino" "block_bitmap d' g = block_bitmap d g" "sb_blocks_per_group d' = sb_blocks_per_group d"
    "tamanioDeBloque d' = tamanioDeBloque d" "shrink_frame d' g ino x = shrink_frame d g ino x" "ino_size d' ino = ino_size d ino"
proof -
  have M: "1068 \<le> g" "g + 32 \<le> ba_bitarray (block_bitmap d g)" "g + 32 \<le> ino"
    "ino + 128 \<le> ba_bitarray (block_bitmap d g) \<or> ba_bitarray (block_bitmap d g) + unat (sb_blocks_per_group d) div 8 < ino"
    using G I by (auto simp: block_group_def meta_below_def ino_apart_def read_superblock_def)
  have "rd32 d' (read_superblock + x) = rd32 d (read_superblock + x)" if "x \<in> {0, 20, 24, 32, 40}" for x
    using that M by (intro rd32_cong f [rule_format]) (auto simp: read_superblock_def shrink_frame_def)
  then have S: "sb_first_data_block d' = sb_first_data_block d" "leerGroupDescriptor d' nro = leerGroupDescriptor d nro"
    and S2: "sb_blocks_per_group d' = sb_blocks_per_group d" "tamanioDeBloque d' = tamanioDeBloque d"
    using same_meta [of d' d] by blast+
  show "sb_blocks_per_group d' = sb_blocks_per_group d" "tamanioDeBloque d' = tamanioDeBloque d" by (fact S2)+
  have "rd32 d' g = rd32 d g" using M by (intro rd32_cong f [rule_format]) (auto simp: shrink_frame_def)
  then show bm: "block_bitmap d' g = block_bitmap d g"
    using S2 by (simp add: block_bitmap_def gd_block_bitmap_def posicionarInicioBloque_def)
  show "block_group d' nro g" "ino_apart d' g ino" "shrink_frame d' g ino x = shrink_frame d g ino x"
    using G I S S2 bm by (simp_all add: block_group_def ino_apart_def shrink_frame_def meta_below_def)
  show "ino_size d' ino = ino_size d ino"
    unfolding ino_size_def using M by (intro rd32_cong f [rule_format]) (auto simp: shrink_frame_def)
qed

section \<open>One block\<close>

lemma direct_no_indirection:
  assumes "n < 12"
  shows "manejarBloquesIndireccionesParaEliminar d ino n = Some d"
proof -
  have "unat (tamanioDeBloque d) < 2 ^ 32" using unsigned_less [where w = "tamanioDeBloque d"] by simp
  then have "unat (cantPtr d) \<le> 2 ^ 30" by (simp add: cantPtr_def unat_div)
  then have "12 \<le> unat (12 + cantPtr d)" by (simp add: unat_word_ariths)
  then have "\<not> esIndireccionSimple d n" "\<not> esIndireccionDoble d n" "\<not> esIndireccionTriple d n"
    using assms by (auto simp: esIndireccionSimple_def esIndireccionDoble_def esIndireccionTriple_def word_less_nat_alt word_le_nat_alt)
  then show ?thesis by (simp add: manejarBloquesIndireccionesParaEliminar_def soltar_def Let_def)
qed

text \<open>The counter of sectors of the inode is lowered, and nothing else changes.\<close>

lemma nr_blocks_effect:
  assumes "1068 \<le> g" and "g + 32 \<le> ino" and "tamanioDeBloque d1 = tamanioDeBloque d"
    and b: "ino + 128 \<le> ba_bitarray bm \<or> ba_bitarray bm + n div 8 < ino"
  defines "d' \<equiv> nr_blocks_menos d1 ino"
  shows "j < n \<Longrightarrow> bitarray_test_bit d' bm j = bitarray_test_bit d1 bm j"
    and "sb_free_blocks d' = sb_free_blocks d1" and "gd_free_blocks_count d' g = gd_free_blocks_count d1 g"
    and "ino_nr_blocks d' ino = ino_nr_blocks d1 ino - tamanioDeBloque d div 512"
    and "rd32 d' (ino + 40 + 4 * k) = rd32 d1 (ino + 40 + 4 * k)"
    and "x < ino + 28 \<or> ino + 88 \<le> x \<Longrightarrow> d' x = d1 x"
proof -
  have d': "d' = wr32 d1 (ino + 28) (ino_nr_blocks d1 ino - tamanioDeBloque d div 512)"
    by (simp add: d'_def nr_blocks_menos_def set_ino_nr_blocks_def assms(3))
  show o: "d' x = d1 x" if "x < ino + 28 \<or> ino + 88 \<le> x" for x unfolding d' using that by (intro wr_apply) auto
  show "bitarray_test_bit d' bm j = bitarray_test_bit d1 bm j" if "j < n"
    using b that div_le_mono [of j n 8] by (intro test_bit_cong o) auto
  show "sb_free_blocks d' = sb_free_blocks d1" "gd_free_blocks_count d' g = gd_free_blocks_count d1 g"
    "ino_nr_blocks d' ino = ino_nr_blocks d1 ino - tamanioDeBloque d div 512" "rd32 d' (ino + 40 + 4 * k) = rd32 d1 (ino + 40 + 4 * k)"
    using assms(1,2) by (simp_all add: d' sb_free_blocks_def gd_free_blocks_count_def ino_nr_blocks_def read_superblock_def mem_simps)
qed

lemma release_last:
  assumes G: "block_group d nro g" and I: "ino_apart d g ino" and D: "direct_blocks d nro ino (bs @ [i])"
  obtains d1 d' where "getPtrNroBloqueLogicoDentroInodo d ino (of_nat (length bs)) = Some (ino + 40 + 4 * length bs)"
    "liberarBloque d (ino + 40 + 4 * length bs) = Some d1" "d' = nr_blocks_menos d1 ino"
    "manejarBloquesIndireccionesParaEliminar d' ino (of_nat (length bs)) = Some d'"
    "freed d g ino (bs @ [i]) (length bs) d'"
proof -
  let ?n = "length bs" and ?p = "ino + 40 + 4 * length bs" and ?bpg = "sb_blocks_per_group d"
  have G': "leerGroupDescriptor d nro = Some g" "sb_first_data_block d = 1" "meta_below d g" using G by (simp_all add: block_group_def)
  have n: "?n < 12" "i < unat ?bpg" "rd32 d ?p = 1 + ?bpg * nro + of_nat i"
    using D nth_append_length [of bs i "[]"] by (auto simp: direct_blocks_def less_Suc_eq)
  have ov: "1 + unat nro * unat ?bpg + i < 2 ^ 32" using G n(2) by (simp add: block_group_def)
  note A = group_arith [OF n(2) ov]
  obtain r where r: "reduce_loop ?bpg (rd32 d ?p) = Some r" "unat (r - 1) = i" using A(3) by (auto simp: n(3))
  have q: "(rd32 d ?p - sb_first_data_block d) div ?bpg = nro" unfolding G'(2) n(3) by (rule A(2))
  have M: "1068 \<le> g" "g + 32 \<le> ba_bitarray (block_bitmap d g)" "g + 32 \<le> ino"
    "ino + 128 \<le> ba_bitarray (block_bitmap d g) \<or> ba_bitarray (block_bitmap d g) + unat ?bpg div 8 < ino"
    using G I by (auto simp: block_group_def meta_below_def ino_apart_def read_superblock_def)
  have "ptr_apart d g ?p" using M n(1) by (auto simp: ptr_apart_def)
  from liberar_raw [OF G'(1,3) this q r n(2)] obtain d1 where d1: "liberarBloque d ?p = Some d1" "rd32 d1 ?p = 0"
    "\<And>j. j < unat ?bpg \<Longrightarrow> bitarray_test_bit d1 (block_bitmap d g) j \<longleftrightarrow> j \<noteq> i \<and> bitarray_test_bit d (block_bitmap d g) j"
    "sb_free_blocks d1 = sb_free_blocks d + 1" "gd_free_blocks_count d1 g = gd_free_blocks_count d g + 1"
    "\<And>x. (x < 1036 \<or> 1040 \<le> x) \<Longrightarrow> (x < g + 12 \<or> g + 14 \<le> x) \<Longrightarrow> (x < ?p \<or> ?p + 4 \<le> x) \<Longrightarrow>
       x \<noteq> ba_bitarray (block_bitmap d g) + i div 8 \<Longrightarrow> d1 x = d x"
    by (auto simp: read_superblock_def)
  have i8: "i div 8 \<le> unat ?bpg div 8" using n(2) by (simp add: div_le_mono)
  have f1: "d1 x = d x" if "shrink_frame d g ino x" for x
    by (rule d1(6)) (use that n(1) i8 in \<open>auto simp: shrink_frame_def\<close>)
  then have K: "tamanioDeBloque d1 = tamanioDeBloque d" using frame_keeps(5) [OF G I] by blast
  define d' where "d' = nr_blocks_menos d1 ino"
  note N = nr_blocks_effect [OF M(1,3) K M(4), folded d'_def]
  have nb: "ino_nr_blocks d1 ino = ino_nr_blocks d ino" unfolding ino_nr_blocks_def
    by (rule rd32_cong, rule d1(6)) (use M i8 in auto)
  have "rd32 d' (ino + 40 + 4 * k) = (if k = ?n then 0 else rd32 d (ino + 40 + 4 * k))" if "k < 12" for k
  proof -
    have "rd32 d1 (ino + 40 + 4 * k) = rd32 d (ino + 40 + 4 * k)" if "k \<noteq> ?n"
      by (rule rd32_cong, rule d1(6)) (use M i8 n(1) that \<open>k < 12\<close> in auto)
    then show ?thesis using N(5) d1(2) by (cases "k = ?n") auto
  qed
  moreover have "d' x = d x" if "shrink_frame d g ino x" for x
    using f1 [OF that] N(6) [of x] that by (simp add: shrink_frame_def)
  ultimately have F: "freed d g ino (bs @ [i]) ?n d'" using d1(3-5) N(1-4) nb by (auto simp: freed_def)
  have lt: "(of_nat ?n :: u32) < 12" using n(1) by (simp add: word_less_nat_alt unat_of_nat_small)
  show ?thesis
  proof (rule that [OF _ d1(1) d'_def _ F])
    show "getPtrNroBloqueLogicoDentroInodo d ino (of_nat ?n) = Some ?p"
      using lt n(1) by (simp add: getPtrNroBloqueLogicoDentroInodo_def esBloqueDirecto_def unat_of_nat_small mult.commute)
    show "manejarBloquesIndireccionesParaEliminar d' ino (of_nat ?n) = Some d'"
      by (rule direct_no_indirection) (rule lt)
  qed
qed

section \<open>The loop\<close>

lemma freed_trans:
  assumes G: "block_group d nro g" and I: "ino_apart d g ino" and a: "freed d g ino (bs @ [i]) (length bs) d1" and b: "freed d1 g ino bs m d2"
    and m: "m \<le> length bs"
  shows "freed d g ino (bs @ [i]) m d2"
proof -
  note A = a [unfolded freed_def]
  have f: "\<forall>x. shrink_frame d g ino x \<longrightarrow> d1 x = d x" using A by simp
  note B = b [unfolded freed_def frame_keeps(3-6) [OF G I f]]
  have c: "Suc (length bs) - m = Suc (length bs - m)" using m by simp
  have "sb_free_blocks d2 = sb_free_blocks d + of_nat (length (bs @ [i]) - m)"
    "gd_free_blocks_count d2 g = gd_free_blocks_count d g + of_nat (length (bs @ [i]) - m)"
    "ino_nr_blocks d2 ino = ino_nr_blocks d ino - of_nat (length (bs @ [i]) - m) * (tamanioDeBloque d div 512)"
    using A B c by (simp_all add: distrib_right)
  moreover have "\<forall>j < unat (sb_blocks_per_group d). bitarray_test_bit d2 (block_bitmap d g) j \<longleftrightarrow>
      bitarray_test_bit d (block_bitmap d g) j \<and> j \<notin> set (drop m (bs @ [i]))" using A B m by auto
  moreover have "\<forall>k < 12. rd32 d2 (ino + 40 + 4 * k) = (if m \<le> k \<and> k < length (bs @ [i]) then 0 else rd32 d (ino + 40 + 4 * k))"
    using A B m by (auto simp: less_Suc_eq)
  moreover have "\<forall>x. shrink_frame d g ino x \<longrightarrow> d2 x = d x" using A B by simp
  ultimately show ?thesis unfolding freed_def by blast
qed

text \<open>The number of blocks of a size.\<close>

definition blocks_for :: "nat \<Rightarrow> nat \<Rightarrow> nat" where
  "blocks_for B n = (n + B - 1) div B"

lemma blocks_for_iff:
  assumes "0 < B"
  shows "blocks_for B n \<le> k \<longleftrightarrow> n \<le> k * B"
proof -
  have "blocks_for B n \<le> k \<longleftrightarrow> blocks_for B n < Suc k" by auto
  also have "\<dots> \<longleftrightarrow> n + B - 1 < Suc k * B" unfolding blocks_for_def using assms by (simp only: div_less_iff_less_mult)
  also have "\<dots> \<longleftrightarrow> n \<le> k * B" using assms by auto
  finally show ?thesis .
qed

lemma blocks_for_mult: "0 < B \<Longrightarrow> blocks_for B (k * B) = k"
  using blocks_for_iff [of B "k * B" k] blocks_for_iff [of B "k * B" "blocks_for B (k * B)"] by simp

lemma blocks_for_Suc:
  assumes "0 < B" and "blocks_for B n = Suc k"
  shows "k * B < n" and "n \<le> Suc k * B" and "(n - 1) div B = k" and "(n - 1) mod B + 1 = n - k * B"
proof -
  show l: "k * B < n" "n \<le> Suc k * B" using blocks_for_iff [OF assms(1), of n] assms(2) by (metis Suc_n_not_le_n not_le, metis order_refl)
  have "n - 1 = (n - 1 - k * B) + k * B" "n - 1 - k * B < B" using l by auto
  then have "(n - 1) div B = k \<and> (n - 1) mod B = n - 1 - k * B"
    by (metis div_mult_self3 div_less add_0 less_nat_zero_code mod_less mod_mult_self1 assms(1) mult.commute add.commute neq0_conv)
  then show "(n - 1) div B = k" "(n - 1) mod B + 1 = n - k * B" using l by auto
qed

lemma shrink_words:
  assumes B: "0 < unat w" and e: "blocks_for (unat w) e = Suc k" "e < 2 ^ 31"
  shows "(of_nat e - 1 :: u32) div w = of_nat k" "(of_nat e - 1 :: u32) mod w + 1 = of_nat (e - k * unat w)"
proof -
  note E = blocks_for_Suc [OF B e(1)]
  have s: "(of_nat e - 1 :: u32) = of_nat (e - 1)" using E(1) by (simp add: of_nat_diff)
  have "e - 1 < 2 ^ 32" using e(2) by simp
  note D = of_nat_div_mod [OF this, of w]
  show "(of_nat e - 1 :: u32) div w = of_nat k" by (simp only: s D E(3))
  show "(of_nat e - 1 :: u32) mod w + 1 = of_nat (e - k * unat w)" unfolding s D E(4) [symmetric] by simp
qed

text \<open>A round of the loop frees the last block, or only lowers the size when the new end is in the last block.\<close>

lemma shrink_round:
  assumes B: "unat (tamanioDeBloque d) = B" "0 < B" and k: "blocks_for B e = Suc k" and t: "t < e" "e < 2 ^ 31"
  shows "k * B < t \<Longrightarrow> achicar_loop d ino (of_nat e) (of_nat t - of_nat e) = achicar_loop d ino (of_nat t) 0"
    and "t \<le> k * B \<Longrightarrow> getPtrNroBloqueLogicoDentroInodo d ino (of_nat k) = Some p \<Longrightarrow> liberarBloque d p = Some d1 \<Longrightarrow>
      d' = nr_blocks_menos d1 ino \<Longrightarrow> manejarBloquesIndireccionesParaEliminar d' ino (of_nat k) = Some d' \<Longrightarrow>
      achicar_loop d ino (of_nat e) (of_nat t - of_nat e) = achicar_loop d' ino (of_nat (k * B)) (of_nat t - of_nat (k * B))"
proof -
  note E = blocks_for_Suc [OF B(2) k] and Z = size_change [OF less_imp_le [OF t(1)] t(2)]
  note W = shrink_words [of "tamanioDeBloque d" e k, unfolded B(1), OF B(2) k t(2)]
  note D = nroBloqueDentroDelInodo_def desplazamientoDentroDelBloque_def Let_def
  have neg: "sint (of_nat t - of_nat e :: u32) < 0" using Z(1) t(1) by simp
  have u: "unat (of_nat (e - x) :: u32) = e - x" for x by (rule unat_of_nat_small) (use t(2) in simp)
  have le: "(of_nat (e - k * B) :: u32) \<le> of_nat (e - t) \<longleftrightarrow> t \<le> k * B"
    unfolding word_le_nat_alt u using t(1) E(1) by linarith
  show "achicar_loop d ino (of_nat e) (of_nat t - of_nat e) = achicar_loop d ino (of_nat t) 0" if "k * B < t"
    using neg le that W Z(2) by (subst achicar_loop.simps) (simp add: D)
  show "achicar_loop d ino (of_nat e) (of_nat t - of_nat e) = achicar_loop d' ino (of_nat (k * B)) (of_nat t - of_nat (k * B))"
    if r: "t \<le> k * B" "getPtrNroBloqueLogicoDentroInodo d ino (of_nat k) = Some p" "liberarBloque d p = Some d1"
      "d' = nr_blocks_menos d1 ino" "manejarBloquesIndireccionesParaEliminar d' ino (of_nat k) = Some d'"
  proof -
    have "achicar_loop d ino (of_nat e) (of_nat t - of_nat e) =
        achicar_loop d' ino (of_nat e - of_nat (e - k * B)) (of_nat t - of_nat e + of_nat (e - k * B))"
      using neg le W Z(2) r by (subst achicar_loop.simps) (simp add: D)
    then show ?thesis using E(1) by (simp add: of_nat_diff)
  qed
qed

lemma shrink_loop:
  assumes "block_group d nro g" and "ino_apart d g ino" and "direct_blocks d nro ino bs" and "unat (tamanioDeBloque d) = B" and "0 < B"
    and "blocks_for B e = length bs" and "t \<le> e" and "e < 2 ^ 31"
  shows "\<exists>d'. achicar_loop d ino (of_nat e) (of_nat t - of_nat e) = Some (of_nat t, d') \<and> freed d g ino bs (blocks_for B t) d'"
  using assms
proof (induction bs arbitrary: d e rule: rev_induct)
  case Nil
  then have "e = 0" using blocks_for_iff [of B e 0] by simp
  then show ?case using Nil by (simp add: achicar_loop.simps freed_refl)
next
  case (snoc i bs)
  note G = snoc.prems(1,2) and D = snoc.prems(3)
  have k: "blocks_for B e = Suc (length bs)" using snoc.prems(6) by simp
  note R = shrink_round [OF snoc.prems(4,5) k _ snoc.prems(8), of t]
  let ?L = "length bs * B"
  consider (same) "t = e" | (inside) "t < e" "?L < t" | (cut) "t < e" "t \<le> ?L" using snoc.prems(7) by linarith
  then show ?case
  proof cases
    case same
    then show ?thesis using k freed_refl [of "bs @ [i]"] by (simp add: achicar_loop.simps)
  next
    case inside
    then have "length (bs @ [i]) \<le> blocks_for B t" using blocks_for_iff [OF snoc.prems(5), of t "length bs"] by auto
    then show ?thesis using R(1) [OF inside] freed_refl by (simp add: achicar_loop.simps)
  next
    case cut
    obtain d1 d' where r: "getPtrNroBloqueLogicoDentroInodo d ino (of_nat (length bs)) = Some (ino + 40 + 4 * length bs)"
      "liberarBloque d (ino + 40 + 4 * length bs) = Some d1" "d' = nr_blocks_menos d1 ino"
      "manejarBloquesIndireccionesParaEliminar d' ino (of_nat (length bs)) = Some d'" "freed d g ino (bs @ [i]) (length bs) d'"
      using release_last [OF G D] .
    have f: "\<forall>x. shrink_frame d g ino x \<longrightarrow> d' x = d x" using r(5) by (simp add: freed_def)
    note K = frame_keeps [OF G f]
    have "direct_blocks d' nro ino bs" using D r(5) K(4) by (auto simp: direct_blocks_def freed_def nth_append less_Suc_eq)
    moreover have "blocks_for B ?L = length bs" by (rule blocks_for_mult [OF snoc.prems(5)])
    moreover have "?L < e" using blocks_for_Suc(1) [OF snoc.prems(5) k] .
    ultimately obtain d2 where d2: "achicar_loop d' ino (of_nat ?L) (of_nat t - of_nat ?L) = Some (of_nat t, d2)"
      "freed d' g ino bs (blocks_for B t) d2"
      using snoc.IH [OF K(1,2), of ?L] K(5) snoc.prems(4,5,8) cut by auto
    have "blocks_for B t \<le> length bs" using blocks_for_iff [OF snoc.prems(5)] cut by simp
    from freed_trans [OF G r(5) d2(2) this] show ?thesis using R(2) [OF cut r(1-4)] d2(1) by simp
  qed
qed


section \<open>Truncation of a file\<close>

text \<open>A file of direct blocks of one group, with as many blocks as its size needs.\<close>

definition direct_file :: "mem \<Rightarrow> u32 \<Rightarrow> nat \<Rightarrow> nat \<Rightarrow> nat list \<Rightarrow> bool" where
  "direct_file d nro g ino bs \<longleftrightarrow> block_group d nro g \<and> ino_apart d g ino \<and> direct_blocks d nro ino bs \<and> 0 < tamanioDeBloque d \<and>
     blocks_for (unat (tamanioDeBloque d)) (unat (ino_size d ino)) = length bs \<and> unat (ino_size d ino) < 2 ^ 31"

lemma inode_truncated:
  assumes F: "direct_file (disk s) nro g ino bs" and t: "t \<le> ino_size (disk s) ino"
  shows "\<exists>d. truncarInodo s ino t = Some (0, s\<lparr>disk := set_ino_size d ino t\<rparr>) \<and>
    freed (disk s) g ino bs (blocks_for (unat (tamanioDeBloque (disk s))) (unat t)) d"
proof -
  let ?d = "disk s" and ?e = "ino_size (disk s) ino"
  note A = F [unfolded direct_file_def]
  have le: "unat t \<le> unat ?e" "unat ?e < 2 ^ 31" using t A by (simp_all add: word_le_nat_alt)
  note Z = size_change [OF le, unfolded of_nat_unat ucast_id]
  show ?thesis
  proof (cases "t = ?e")
    case True
    have "hayEspacioSuficiente ?d 0" by (simp add: hayEspacioSuficiente_def)
    then show ?thesis using True A freed_refl [of bs "length bs" ?d g ino]
      by (intro exI [of _ ?d]) (simp add: truncarInodo_def Let_def agrandar_loop.simps)
  next
    case False
    have "0 < unat (tamanioDeBloque ?d)" using A by (simp add: word_less_nat_alt)
    then obtain d where d: "achicar_loop ?d ino (of_nat (unat ?e)) (of_nat (unat t) - of_nat (unat ?e)) = Some (of_nat (unat t), d)"
      "freed ?d g ino bs (blocks_for (unat (tamanioDeBloque ?d)) (unat t)) d"
      using shrink_loop [of ?d nro g ino bs _ "unat ?e" "unat t"] A le by blast
    have "t < ?e" using t False by simp
    then have "sint (t - ?e) < 0" using Z(1) by (simp add: word_less_def)
    moreover have "\<not> ?e < - (t - ?e)" using Z(2) le by (simp add: word_less_nat_alt unat_sub word_le_nat_alt)
    ultimately show ?thesis using d by (intro exI [of _ d]) (simp add: truncarInodo_def Let_def)
  qed
qed

text \<open>
  C6. Truncating a file to a size that is not greater: for a file of direct blocks, \<open>truncarArchivo\<close> ends without error, the file has the
  new size, and exactly the blocks behind it are given back: their bits are cleared and no other, their
  pointers are 0, both counters grow and the count of the inode shrinks by their number. Nothing else of the disk changes, so that the
  bytes before the new size are the ones from before.
\<close>

theorem file_truncated:
  assumes "getNroInodoDeLaDireccionDelPath (disk s) (ruta (separarPathParaNewDirEntry path)) = Some r" and "r \<noteq> 0"
    and "getNroInodoDeLaDireccionDelPath (disk s) path = Some n" and "n \<noteq> 0" and "inodo_at (disk s) n = Some ino"
    and "direct_file (disk s) nro g ino bs" and "t \<le> ino_size (disk s) ino"
  shows "\<exists>d. truncarArchivo s path t = Some (0, s\<lparr>disk := set_ino_size d ino t\<rparr>) \<and>
    freed (disk s) g ino bs (blocks_for (unat (tamanioDeBloque (disk s))) (unat t)) d"
proof -
  have "getInodoDeLaDireccionDelPath (disk s) path = Some (Some ino)"
    using assms(3-5) by (auto simp: getInodoDeLaDireccionDelPath_def inodo_at_def split: bind_splits)
  then show ?thesis using inode_truncated [OF assms(6,7)] assms(1-4) by (simp add: truncarArchivo_def)
qed

section \<open>The file of the demonstration disk\<close>

lemma demo_blocks:
  "sb_first_data_block demo_fs = 1" "sb_blocks_per_group demo_fs = 16" "ba_bitarray (block_bitmap demo_fs 2048) = 3072"
  "ba_bitarray (inode_bitmap demo_fs 2048) = 4096" "inode_table demo_fs 2048 = 5120"
proof -
  have r: "rd32 demo_fs 1044 = 1" "rd32 demo_fs 1056 = 16" "rd32 demo_fs 2048 = 3" "rd32 demo_fs 2052 = 4"
    by (simp_all add: demo_defs)
  then show "sb_first_data_block demo_fs = 1" "sb_blocks_per_group demo_fs = 16"
    by (simp_all add: sb_first_data_block_def sb_blocks_per_group_def read_superblock_def)
  show "ba_bitarray (block_bitmap demo_fs 2048) = 3072" "ba_bitarray (inode_bitmap demo_fs 2048) = 4096" "inode_table demo_fs 2048 = 5120"
    using r by (simp_all add: block_bitmap_def inode_bitmap_def bitarray_create_def gd_block_bitmap_def gd_inode_bitmap_def inode_table_def
        posicionarInicioBloque_def demo_fs_super)
qed

lemma demo_direct: "direct_file demo_fs 0 2048 5376 [6]"
  by (simp add: direct_file_def block_group_def ino_apart_def direct_blocks_def meta_below_def blocks_for_def read_superblock_def demo_blocks
      demo_fs_super demo_fs_facts)

theorem file_truncated_witness:
  "\<exists>d. truncarArchivo \<lparr>disk = demo_fs, nro_de_grupo = 0\<rparr> (47 # str ''a'') 0 = Some (0, \<lparr>disk = set_ino_size d 5376 0, nro_de_grupo = 0\<rparr>) \<and>
     freed demo_fs 2048 5376 [6] 0 d"
proof -
  have "47 \<notin> set (str ''a'')" "name_ok (str ''a'')" by code_simp+
  then have "ruta (separarPathParaNewDirEntry (47 # str ''a'')) = []" using root_path(1) by simp
  moreover have "resolve demo_tree 2 (string_split (47 # str ''a'') SEPARADOR) = 3" by code_simp
  then have "getNroInodoDeLaDireccionDelPath demo_fs (47 # str ''a'') = Some 3" using path_number [OF demo_fs_tree] by simp
  ultimately show ?thesis
    using file_truncated [of "\<lparr>disk = demo_fs, nro_de_grupo = 0\<rparr>" "47 # str ''a''" 2 3 5376 0 2048 "[6]" 0] root_number(1) demo_direct
    by (auto simp: demo_fs_facts demo_fs_super blocks_for_def)
qed

end
