(* ===== verification/Removal.thy ===== *)
theory Removal
  imports Truncation
begin

unbundle bit_operations_syntax

text \<open>
  Removing a file of the root directory: \<open>eliminarArchivo\<close> of \<open>rfs/src/funciones_rfs.c\<close>, that is its blocks, its inode and its
  entry. The disk has the layout of ext2: behind the descriptor of the first group its two bitmaps, the table
  of inodes, and the blocks of data.
\<close>

section \<open>Releasing an inode\<close>

definition first_group :: "mem \<Rightarrow> nat \<Rightarrow> bool" where
  "first_group d g \<longleftrightarrow> block_group d 0 g \<and> 1 < sb_inodes_per_group d \<and> 1 + unat (sb_inodes_per_group d) < 2 ^ 32 \<and>
     ba_bitarray (block_bitmap d g) + unat (sb_blocks_per_group d) div 8 < ba_bitarray (inode_bitmap d g) \<and>
     ba_bitarray (inode_bitmap d g) + unat (sb_inodes_per_group d) div 8 < inode_table d g"

lemma first_groupD:
  assumes "first_group d g"
  shows "1068 \<le> g" "g + 32 \<le> ba_bitarray (block_bitmap d g)" "g + 32 \<le> inode_table d g" "leerGroupDescriptor d 0 = Some g"
    "sb_first_data_block d = 1" "inode_meta d g"
  using assms by (auto simp: first_group_def block_group_def meta_below_def inode_meta_def read_superblock_def)

lemma release_inode:
  assumes L: "first_group d g" and i: "i < unat (sb_inodes_per_group d)" and sz: "ino_size d (inode_table d g + i * 128) = 0"
  defines "t \<equiv> inode_table d g + i * 128"
  shows "\<exists>d'. liberarInodo d (1 + of_nat i) = Some d' \<and>
    (\<forall>j < unat (sb_inodes_per_group d). bitarray_test_bit d' (inode_bitmap d g) j \<longleftrightarrow> j \<noteq> i \<and> bitarray_test_bit d (inode_bitmap d g) j) \<and>
    sb_free_inodes d' = sb_free_inodes d + 1 \<and> gd_free_inodes_count d' g = gd_free_inodes_count d g + 1 \<and>
    ino_mode d' t = 0 \<and> ino_links d' t = 0 \<and> ino_size d' t = 0 \<and>
    (\<forall>x. (x < 1040 \<or> 1044 \<le> x) \<and> (x < g + 14 \<or> g + 16 \<le> x) \<and> (x < t \<or> t + 128 \<le> x) \<and>
       x \<noteq> ba_bitarray (inode_bitmap d g) + i div 8 \<longrightarrow> d' x = d x)"
proof -
  let ?bm = "inode_bitmap d g" and ?k = "sb_inodes_per_group d"
  note M = first_groupD [OF L]
  have ov: "1 + unat (0 :: u32) * unat ?k + i < 2 ^ 32" using L i by (simp add: first_group_def)
  note G = group_arith [OF i ov, simplified]
  obtain r where r: "reduce_loop ?k (1 + of_nat i) = Some r" "unat (r - 1) = i" using G(3) by auto
  have q: "(1 + of_nat i - 1) div ?k = 0" using G(2) by simp
  have at: "inodo_at d (1 + of_nat i) = Some t" using new_inode_at [OF M(4) i ov] by (simp add: t_def)
  define d1 where "d1 = bitarray_clean_bit d ?bm i"
  define d2 where "d2 = set_gd_free_inodes_count d1 g (gd_free_inodes_count d1 g + 1)"
  define d3 where "d3 = set_sb_free_inodes d2 (sb_free_inodes d2 + 1)"
  define d4 where "d4 = set_ino_size (set_ino_links (set_ino_mode d3 t 0) t 0) t 0"
  obtain v where v: "d1 = d(ba_bitarray ?bm + i div 8 := v)" using bitarray_ops_upd(2) by (metis d1_def)
  have i8: "i div 8 \<le> unat ?k div 8" using i by (simp add: div_le_mono)
  have P: "read_superblock = 1024" "g + 32 \<le> ba_bitarray ?bm" "ba_bitarray ?bm + unat ?k div 8 < t"
    using L M by (auto simp: read_superblock_def t_def first_group_def)
  have a: "liberarInodo d (1 + of_nat i) = Some d4"
    using at sz M(4,5) r q by (simp add: liberarInodo_def liberar_loop.simps t_def d1_def d2_def d3_def d4_def Let_def)
  have o: "d4 x = d x" if "x < 1040 \<or> 1044 \<le> x" "x < g + 14 \<or> g + 16 \<le> x" "x < t \<or> t + 128 \<le> x" "x \<noteq> ba_bitarray ?bm + i div 8" for x
    using that P(1) by (auto simp: d4_def d3_def d2_def v set_ino_size_def set_ino_links_def set_ino_mode_def set_sb_free_inodes_def
        set_gd_free_inodes_count_def mem_simps)
  have "bitarray_test_bit d4 ?bm j = bitarray_test_bit d1 ?bm j" if "j < unat ?k" for j
  proof (rule test_bit_cong)
    have "j div 8 \<le> unat ?k div 8" using that by (simp add: div_le_mono)
    then show "d4 (ba_bitarray ?bm + j div 8) = d1 (ba_bitarray ?bm + j div 8)"
      using P M by (auto simp: d4_def d3_def d2_def set_ino_size_def set_ino_links_def set_ino_mode_def set_sb_free_inodes_def
          set_gd_free_inodes_count_def mem_simps)
  qed
  then have "\<forall>j < unat ?k. bitarray_test_bit d4 ?bm j \<longleftrightarrow> j \<noteq> i \<and> bitarray_test_bit d ?bm j"
    unfolding d1_def ba.test_clr by auto
  moreover have "sb_free_inodes d4 = sb_free_inodes d + 1" "gd_free_inodes_count d4 g = gd_free_inodes_count d g + 1"
    using P M(1) by (simp_all add: d4_def d3_def d2_def v sb_free_inodes_def set_ino_size_def set_ino_links_def set_ino_mode_def
        set_sb_free_inodes_def set_gd_free_inodes_count_def gd_free_inodes_count_def mem_simps)
  moreover have "ino_mode d4 t = 0" "ino_links d4 t = 0" "ino_size d4 t = 0"
    by (simp_all add: d4_def ino_mode_def ino_links_def ino_size_def set_ino_size_def set_ino_links_def set_ino_mode_def mem_simps)
  ultimately show ?thesis using a o by auto
qed

section \<open>What removing a file leaves alone\<close>

definition removal_frame :: "mem \<Rightarrow> nat \<Rightarrow> nat \<Rightarrow> nat \<Rightarrow> bool" where
  "removal_frame d g t x \<longleftrightarrow> (x < 1036 \<or> 1044 \<le> x) \<and> (x < g + 12 \<or> g + 16 \<le> x) \<and>
     (x < ba_bitarray (block_bitmap d g) \<or> inode_table d g \<le> x) \<and> (x < t \<or> t + 128 \<le> x)"

lemma removal_keeps:
  assumes L: "first_group d g" and t: "inode_table d g \<le> t" and f: "\<forall>x. removal_frame d g t x \<longrightarrow> d' x = d x"
  shows "first_group d' g" "inode_table d' g = inode_table d g" "inode_bitmap d' g = inode_bitmap d g" "block_bitmap d' g = block_bitmap d g"
    "sb_inodes_per_group d' = sb_inodes_per_group d" "sb_blocks_per_group d' = sb_blocks_per_group d" "tamanioDeBloque d' = tamanioDeBloque d"
proof -
  note M = first_groupD [OF L]
  have "rd32 d' (read_superblock + x) = rd32 d (read_superblock + x)" if "x \<in> {0, 20, 24, 32, 40}" for x
    using that M t by (intro rd32_cong f [rule_format]) (auto simp: read_superblock_def removal_frame_def)
  then have S: "sb_first_data_block d' = sb_first_data_block d" "leerGroupDescriptor d' 0 = leerGroupDescriptor d 0"
    and S2: "sb_inodes_per_group d' = sb_inodes_per_group d" "sb_blocks_per_group d' = sb_blocks_per_group d" "tamanioDeBloque d' = tamanioDeBloque d"
    using same_meta [of d' d] by blast+
  have G: "rd32 d' (g + y) = rd32 d (g + y)" if "y \<le> 8" for y
    using that M t by (intro rd32_cong f [rule_format]) (auto simp: removal_frame_def)
  show b: "inode_table d' g = inode_table d g" "inode_bitmap d' g = inode_bitmap d g" "block_bitmap d' g = block_bitmap d g"
    using G [of 0] G [of 4] G [of 8] S2
    by (simp_all add: inode_table_def inode_bitmap_def block_bitmap_def gd_inode_table_def gd_inode_bitmap_def gd_block_bitmap_def posicionarInicioBloque_def)
  show "sb_inodes_per_group d' = sb_inodes_per_group d" "sb_blocks_per_group d' = sb_blocks_per_group d" "tamanioDeBloque d' = tamanioDeBloque d"
    by (fact S2)+
  show "first_group d' g" using L S S2 b by (simp add: first_group_def block_group_def meta_below_def)
qed

section \<open>Blocks and inode of a file\<close>

text \<open>The disk without the blocks of the list and the inode of the position.\<close>

definition file_gone :: "mem \<Rightarrow> nat \<Rightarrow> nat \<Rightarrow> nat list \<Rightarrow> mem \<Rightarrow> bool" where
  "file_gone d g i bs d' \<longleftrightarrow>
     (\<forall>j < unat (sb_blocks_per_group d). bitarray_test_bit d' (block_bitmap d g) j \<longleftrightarrow> bitarray_test_bit d (block_bitmap d g) j \<and> j \<notin> set bs) \<and>
     (\<forall>j < unat (sb_inodes_per_group d). bitarray_test_bit d' (inode_bitmap d g) j \<longleftrightarrow> bitarray_test_bit d (inode_bitmap d g) j \<and> j \<noteq> i) \<and>
     sb_free_blocks d' = sb_free_blocks d + of_nat (length bs) \<and> gd_free_blocks_count d' g = gd_free_blocks_count d g + of_nat (length bs) \<and>
     sb_free_inodes d' = sb_free_inodes d + 1 \<and> gd_free_inodes_count d' g = gd_free_inodes_count d g + 1 \<and>
     ino_links d' (inode_table d g + i * 128) = 0 \<and> ino_size d' (inode_table d g + i * 128) = 0"

text \<open>These facts only depend on the metadata in front of the blocks of data.\<close>

lemma file_gone_cong:
  assumes "file_gone d g i bs d1" and L: "first_group d g" and i: "i < unat (sb_inodes_per_group d)"
    and o: "\<And>x. x < inode_table d g + unat (sb_inodes_per_group d) * 128 \<Longrightarrow> d2 x = d1 x"
  shows "file_gone d g i bs d2"
proof -
  note M = first_groupD [OF L]
  have P: "ba_bitarray (block_bitmap d g) + unat (sb_blocks_per_group d) div 8 < inode_table d g"
    "ba_bitarray (inode_bitmap d g) + unat (sb_inodes_per_group d) div 8 < inode_table d g"
    using L by (auto simp: first_group_def)
  have i1: "i * 128 + 128 \<le> unat (sb_inodes_per_group d) * 128" using i by simp
  have r32: "rd32 d2 x = rd32 d1 x" "rd16 d2 x = rd16 d1 x" if "x + 4 \<le> inode_table d g + unat (sb_inodes_per_group d) * 128" for x
    using that by (intro rd32_cong rd16_cong o; simp)+
  have "bitarray_test_bit d2 (block_bitmap d g) j = bitarray_test_bit d1 (block_bitmap d g) j" if "j < unat (sb_blocks_per_group d)" for j
    using that P div_le_mono [of j "unat (sb_blocks_per_group d)" 8] by (intro test_bit_cong o) simp
  moreover have "bitarray_test_bit d2 (inode_bitmap d g) j = bitarray_test_bit d1 (inode_bitmap d g) j" if "j < unat (sb_inodes_per_group d)" for j
    using that P div_le_mono [of j "unat (sb_inodes_per_group d)" 8] by (intro test_bit_cong o) simp
  moreover have "sb_free_blocks d2 = sb_free_blocks d1" "gd_free_blocks_count d2 g = gd_free_blocks_count d1 g"
    "sb_free_inodes d2 = sb_free_inodes d1" "gd_free_inodes_count d2 g = gd_free_inodes_count d1 g"
    "ino_links d2 (inode_table d g + i * 128) = ino_links d1 (inode_table d g + i * 128)"
    "ino_size d2 (inode_table d g + i * 128) = ino_size d1 (inode_table d g + i * 128)"
    unfolding sb_free_blocks_def gd_free_blocks_count_def sb_free_inodes_def gd_free_inodes_count_def ino_links_def ino_size_def read_superblock_def
    using M i1 by (intro r32; simp)+
  ultimately show ?thesis using assms(1) by (simp add: file_gone_def)
qed

lemma inode_emptied:
  fixes s :: rfs and g i :: nat
  defines "t \<equiv> inode_table (disk s) g + i * 128"
  assumes L: "first_group (disk s) g" and F: "direct_file (disk s) 0 g t bs"
  obtains d1 where "truncarInodo s t 0 = Some (0, s\<lparr>disk := d1\<rparr>)" "ino_size d1 t = 0"
    "\<And>j. j < unat (sb_blocks_per_group (disk s)) \<Longrightarrow> bitarray_test_bit d1 (block_bitmap (disk s) g) j \<longleftrightarrow>
       bitarray_test_bit (disk s) (block_bitmap (disk s) g) j \<and> j \<notin> set bs"
    "sb_free_blocks d1 = sb_free_blocks (disk s) + of_nat (length bs)"
    "gd_free_blocks_count d1 g = gd_free_blocks_count (disk s) g + of_nat (length bs)"
    "\<And>x. shrink_frame (disk s) g t x \<Longrightarrow> x < t + 4 \<or> t + 8 \<le> x \<Longrightarrow> d1 x = disk s x"
proof -
  let ?d = "disk s" and ?bm = "block_bitmap (disk s) g" and ?bpg = "sb_blocks_per_group (disk s)"
  note M = first_groupD [OF L]
  have P: "ba_bitarray ?bm + unat ?bpg div 8 < inode_table ?d g" "inode_table ?d g \<le> t" using L by (auto simp: first_group_def t_def)
  have "0 < unat (tamanioDeBloque ?d)" using F by (simp add: direct_file_def word_less_nat_alt)
  then have "blocks_for (unat (tamanioDeBloque ?d)) 0 = 0" by (simp add: blocks_for_def)
  then obtain d0 where d0: "truncarInodo s t 0 = Some (0, s\<lparr>disk := set_ino_size d0 t 0\<rparr>)" "freed ?d g t bs 0 d0"
    using inode_truncated [OF F, of 0] by auto
  have e: "set_ino_size d0 t 0 x = d0 x" if "x < t + 4 \<or> t + 8 \<le> x" for x using that by (auto simp: set_ino_size_def mem_simps)
  show ?thesis
  proof (rule that [OF d0(1)])
    show "bitarray_test_bit (set_ino_size d0 t 0) ?bm j \<longleftrightarrow> bitarray_test_bit ?d ?bm j \<and> j \<notin> set bs" if "j < unat ?bpg" for j
      using d0(2) that P div_le_mono [of j "unat ?bpg" 8] test_bit_cong [of "set_ino_size d0 t 0" ?bm j d0] e by (simp add: freed_def)
    show "set_ino_size d0 t 0 x = ?d x" if "shrink_frame ?d g t x" "x < t + 4 \<or> t + 8 \<le> x" for x
      using e [OF that(2)] d0(2) that(1) by (simp add: freed_def)
  qed (use d0(2) M P in \<open>simp_all add: freed_def sb_free_blocks_def gd_free_blocks_count_def ino_size_def set_ino_size_def read_superblock_def mem_simps\<close>)
qed

lemma inode_gone:
  fixes s :: rfs and g i :: nat
  defines "t \<equiv> inode_table (disk s) g + i * 128"
  assumes L: "first_group (disk s) g" and i: "i < unat (sb_inodes_per_group (disk s))" and F: "direct_file (disk s) 0 g t bs"
  obtains d1 d3 where "truncarInodo s t 0 = Some (0, s\<lparr>disk := d1\<rparr>)" "liberarInodo d1 (1 + of_nat i) = Some d3"
    "file_gone (disk s) g i bs d3" "\<forall>x. removal_frame (disk s) g t x \<longrightarrow> d3 x = disk s x"
proof -
  let ?d = "disk s" and ?bb = "ba_bitarray (block_bitmap (disk s) g)" and ?ib = "ba_bitarray (inode_bitmap (disk s) g)"
  let ?bpg = "sb_blocks_per_group (disk s)" and ?ipg = "sb_inodes_per_group (disk s)"
  note M = first_groupD [OF L]
  have P: "?bb + unat ?bpg div 8 < ?ib" "?ib + unat ?ipg div 8 < inode_table ?d g" "inode_table ?d g \<le> t"
    using L by (auto simp: first_group_def t_def)
  have i8: "i div 8 \<le> unat ?ipg div 8" using i by (simp add: div_le_mono)
  obtain d1 where d1: "truncarInodo s t 0 = Some (0, s\<lparr>disk := d1\<rparr>)" "ino_size d1 t = 0"
    "\<And>j. j < unat ?bpg \<Longrightarrow> bitarray_test_bit d1 (block_bitmap ?d g) j \<longleftrightarrow> bitarray_test_bit ?d (block_bitmap ?d g) j \<and> j \<notin> set bs"
    "sb_free_blocks d1 = sb_free_blocks ?d + of_nat (length bs)" "gd_free_blocks_count d1 g = gd_free_blocks_count ?d g + of_nat (length bs)"
    "\<And>x. shrink_frame ?d g t x \<Longrightarrow> x < t + 4 \<or> t + 8 \<le> x \<Longrightarrow> d1 x = ?d x"
    using inode_emptied [OF L F [unfolded t_def], folded t_def] by blast
  have r1: "\<forall>x. removal_frame ?d g t x \<longrightarrow> d1 x = ?d x"
    using P by (auto simp: removal_frame_def shrink_frame_def intro!: d1(6))
  note K = removal_keeps [OF L P(3) r1]
  have z: "ino_size d1 (inode_table d1 g + i * 128) = 0" using d1(2) unfolding K(2) t_def .
  from release_inode [OF K(1) _ z] obtain d3 where d3: "liberarInodo d1 (1 + of_nat i) = Some d3"
    "\<And>j. j < unat ?ipg \<Longrightarrow> bitarray_test_bit d3 (inode_bitmap ?d g) j \<longleftrightarrow> j \<noteq> i \<and> bitarray_test_bit d1 (inode_bitmap ?d g) j"
    "sb_free_inodes d3 = sb_free_inodes d1 + 1" "gd_free_inodes_count d3 g = gd_free_inodes_count d1 g + 1" "ino_links d3 t = 0" "ino_size d3 t = 0"
    "\<And>x. (x < 1040 \<or> 1044 \<le> x) \<Longrightarrow> (x < g + 14 \<or> g + 16 \<le> x) \<Longrightarrow> (x < t \<or> t + 128 \<le> x) \<Longrightarrow> x \<noteq> ?ib + i div 8 \<Longrightarrow> d3 x = d1 x"
    using i unfolding K(2,3,5) t_def [symmetric] by auto
  have "bitarray_test_bit d3 (block_bitmap ?d g) j = bitarray_test_bit d1 (block_bitmap ?d g) j" if "j < unat ?bpg" for j
    using that P M(1,2) div_le_mono [of j "unat ?bpg" 8] by (intro test_bit_cong d3(7)) auto
  moreover have "bitarray_test_bit d1 (inode_bitmap ?d g) j = bitarray_test_bit ?d (inode_bitmap ?d g) j" if "j < unat ?ipg" for j
    using that P M(1,2) div_le_mono [of j "unat ?ipg" 8] by (intro test_bit_cong d1(6)) (auto simp: shrink_frame_def)
  moreover have "sb_free_blocks d3 = sb_free_blocks d1" "gd_free_blocks_count d3 g = gd_free_blocks_count d1 g"
    unfolding sb_free_blocks_def gd_free_blocks_count_def read_superblock_def using M P by (intro rd32_cong rd16_cong d3(7); auto)+
  moreover have "sb_free_inodes d1 = sb_free_inodes ?d" "gd_free_inodes_count d1 g = gd_free_inodes_count ?d g"
    unfolding sb_free_inodes_def gd_free_inodes_count_def read_superblock_def using M P
    by (intro rd32_cong rd16_cong d1(6); auto simp: shrink_frame_def)+
  ultimately have "file_gone ?d g i bs d3" using d1(3-5) d3(2-6) by (auto simp: file_gone_def t_def)
  moreover have "d3 x = ?d x" if "removal_frame ?d g t x" for x
    using d3(7) [of x] r1 that P i8 M by (auto simp: removal_frame_def)
  ultimately show ?thesis using that d1(1) d3(1) by blast
qed

section \<open>Removal from the root directory\<close>

text \<open>The blocks of a directory lie behind the table of inodes.\<close>

definition data_behind :: "mem \<Rightarrow> nat \<Rightarrow> nat \<Rightarrow> DirEntry list list \<Rightarrow> bool" where
  "data_behind d g ino ess \<longleftrightarrow> (\<forall>i < length ess. inode_table d g + unat (sb_inodes_per_group d) * 128 \<le> dir_at d ino i)"

lemma table_inode:
  assumes "first_group d g" and "i < unat (sb_inodes_per_group d)"
  shows "inodo_at d (1 + of_nat i) = Some (inode_table d g + i * 128)" and "unat (1 + of_nat i :: u32) = Suc i"
    and "(1 + of_nat i - 1) div sb_inodes_per_group d = 0"
proof -
  have ov: "1 + unat (0 :: u32) * unat (sb_inodes_per_group d) + i < 2 ^ 32" using assms by (simp add: first_group_def)
  show "inodo_at d (1 + of_nat i) = Some (inode_table d g + i * 128)" "unat (1 + of_nat i :: u32) = Suc i"
    "(1 + of_nat i - 1) div sb_inodes_per_group d = 0"
    using new_inode_at [OF first_groupD(4) [OF assms(1)] assms(2) ov] group_arith(1,2) [OF assms(2) ov] by simp_all
qed

lemma root_inode: "first_group d g \<Longrightarrow> inodo_at d 2 = Some (inode_table d g + 128)"
  using table_inode(1) [of d g 1] by (simp add: first_group_def word_less_nat_alt)

text \<open>
  C5. Removing a file from the root directory, on a disk with the layout of ext2 and first data block 1: when the name belongs to an entry that is not the
  first of its block (the first one stays, see \<open>first_entry_stays\<close>), and the inode of the entry is one of the first group, of a file
  of at most 12 direct blocks of that group, \<open>eliminarArchivo\<close> ends without error;
  the path names nothing afterwards and every other name is found as before; the blocks and the inode of the
  file are free and no others, and the counters of the superblock and the group say so.
\<close>

theorem file_removed:
  assumes "first_group (disk s) g" and "inodo_at (disk s) 2 = Some ino" and "EXT2_INODE_HAS_MODE_FLAG (disk s) ino EXT2_S_IFDIR"
    and "directory (disk s) ino ess" and "data_behind (disk s) g ino ess" and "name_ok n" and "47 \<notin> set n"
    and "k < length ess" and "ess ! k = pre @ a # e # post" and "matches n e"
    and "list_all (\<lambda>x. \<not> matches n x) (concat (take k ess) @ pre @ [a])" and "list_all (\<lambda>x. \<not> matches n x) (post @ concat (drop (Suc k) ess))"
    and "de_inode e = 1 + of_nat i" and "2 \<le> i" and "i < unat (sb_inodes_per_group (disk s))"
    and "direct_file (disk s) 0 g (inode_table (disk s) g + i * 128) bs"
  shows "\<exists>d'. eliminarArchivo s (47 # n) = Some (0, s\<lparr>disk := d'\<rparr>) \<and> getNroInodoDeLaDireccionDelPath d' (47 # n) = Some 0 \<and>
    (\<forall>m. \<not> matches m e \<longrightarrow> buscarNroInodoEnEntradasDirectorio d' ino m = buscarNroInodoEnEntradasDirectorio (disk s) ino m) \<and>
    file_gone (disk s) g i bs d'"
proof -
  let ?d = "disk s" and ?t = "inode_table (disk s) g + i * 128" and ?v = "1 + of_nat i :: u32"
  let ?lim = "inode_table ?d g + unat (sb_inodes_per_group ?d) * 128"
  note M = first_groupD [OF assms(1)] and T = table_inode [OF assms(1,15)]
  have ino: "ino = inode_table ?d g + 128" using root_inode [OF assms(1)] assms(2) by simp
  have below: "ino + 128 \<le> ?t" "?t + 128 \<le> ?lim" using assms(14,15) by (simp_all add: ino)
  have nz: "?v \<noteq> 0" using T(2) by (metis nat.distinct(1) unat_0)
  have num: "getNroInodoDeLaDireccionDelPath ?d (47 # n) = Some ?v"
    using root_number(2) [OF assms(2,6,7,3), of ?v] buscar_lookup [of ?d ino ess n] lookup_hit [of k ess "pre @ [a]" e post n] assms nz T(1)
    by (simp add: directory_def)
  obtain d1 d3 where r: "truncarInodo s ?t 0 = Some (0, s\<lparr>disk := d1\<rparr>)" "liberarInodo d1 ?v = Some d3" "file_gone ?d g i bs d3"
    "\<forall>x. removal_frame ?d g ?t x \<longrightarrow> d3 x = ?d x"
    using inode_gone [OF assms(1,15,16)] .
  have d3: "d3 x = ?d x" if "x < 1036 \<or> 1044 \<le> x" "x < g + 12 \<or> g + 16 \<le> x" "x < ba_bitarray (block_bitmap ?d g) \<or> inode_table ?d g \<le> x"
      "x < ?t \<or> ?t + 128 \<le> x" for x using r(4) that by (simp add: removal_frame_def)
  have "in_directory ?d ino ess x \<Longrightarrow> d3 x = ?d x" for x
    using assms(5) below M ino by (intro d3) (auto simp: in_directory_def data_behind_def)
  note D = directory_cong [OF assms(4) this]
  let ?p = "dir_at d3 ino k + chain_len pre + 4"
  define d4 where "d4 = wr16 d3 ?p (de_entry_len a + de_entry_len e)"
  have d4: "eliminarEntradaDirectorio d3 ino n = Some d4" "directory d4 ino (ess[k := pre @ absorb a e # post])"
    using eliminar_absorbs [OF D(1) assms(8-11)] by (auto simp: d4_def)
  have "k < 12" using assms(4,8) by (simp add: directory_def)
  then have p: "?lim \<le> ?p" using D(3) [of k] assms(5,8) by (auto simp: data_behind_def)
  have o4: "d4 x = d3 x" if "x < ?lim" for x unfolding d4_def using that p by (intro wr_apply(2)) simp
  have "eliminarArchivo s (47 # n) = Some (0, s\<lparr>disk := d4\<rparr>)"
    using root_path(1) [OF assms(6,7)] root_number(1) [OF assms(2)] num nz T(1) r(1,2) d4(1) assms(2)
    by (auto simp: eliminarArchivo_def truncarArchivo_def getInodoDeLaDireccionDelPath_def inodo_at_def Let_def split: bind_splits)
  moreover have "file_gone ?d g i bs d4" using file_gone_cong [OF r(3) assms(1,15) o4] by simp
  moreover have lk: "buscarNroInodoEnEntradasDirectorio d4 ino m = Some (lookup m (ess[k := pre @ absorb a e # post]))"
    "buscarNroInodoEnEntradasDirectorio ?d ino m = Some (lookup m ess)" for m
    using buscar_lookup d4(2) assms(4) by (auto simp: directory_def)
  moreover have "getNroInodoDeLaDireccionDelPath d4 (47 # n) = Some 0"
  proof -
    have o: "d4 x = ?d x" if "x < ?lim" "x < 1036 \<or> 1044 \<le> x" "x < g + 12 \<or> ino \<le> x" "x < ?t" for x
      using o4 [of x] d3 [of x] that M(2,3) ino by auto
    have s: "d4 x = ?d x" if "1024 \<le> x" "x < 1068" "x < 1036 \<or> 1044 \<le> x" for x by (rule o) (use that M below in auto)
    have g: "d4 x = ?d x" if "g + 8 \<le> x" "x < g + 12" for x by (rule o) (use that M below in auto)
    have u: "d4 x = ?d x" if "ino \<le> x" "x < ino + 128" for x by (rule o) (use that M below ino in auto)
    have "1 < sb_inodes_per_group ?d" using assms(1) by (simp add: first_group_def)
    note V = root_view [OF M(4) this assms(2,3) T(3) s g u]
    show ?thesis using root_number(2) [OF V(1) assms(6,7) V(2), of 0] lk(1) absorb_lookup(2) [OF assms(8,9,11,12)] by simp
  qed
  ultimately show ?thesis using absorb_lookup(1) [OF assms(8,9,11)] by (intro exI [of _ d4]) simp
qed

theorem file_removed_witness:
  "\<exists>d'. eliminarArchivo \<lparr>disk = demo_fs, nro_de_grupo = 0\<rparr> (47 # str ''a'') = Some (0, \<lparr>disk = d', nro_de_grupo = 0\<rparr>) \<and>
     getNroInodoDeLaDireccionDelPath d' (47 # str ''a'') = Some 0 \<and> file_gone demo_fs 2048 2 [6] d'"
proof -
  have "first_group demo_fs 2048"
    by (simp add: first_group_def block_group_def meta_below_def read_superblock_def demo_blocks demo_fs_super)
  moreover have "data_behind demo_fs 2048 5248 [[demo_dot, demo_dotdot, demo_file]]"
    by (simp add: data_behind_def demo_blocks demo_fs_super demo_dir_at)
  moreover have "name_ok (str ''a'')" "47 \<notin> set (str ''a'')" "matches (str ''a'') demo_file"
    "list_all (\<lambda>x. \<not> matches (str ''a'') x) [demo_dot, demo_dotdot]" by code_simp+
  ultimately show ?thesis
    using file_removed [of "\<lparr>disk = demo_fs, nro_de_grupo = 0\<rparr>" 2048 5248 "[[demo_dot, demo_dotdot, demo_file]]" "str ''a''" 0 "[demo_dot]"
        demo_dotdot demo_file "[]" 2 "[6]"] demo_directory demo_direct
    by (auto simp: demo_fs_facts demo_blocks demo_fs_super)
qed

end
