(* ===== verification/Sessions.thy ===== *)
theory Sessions
  imports Reads
begin

text \<open>
  The server as a state machine: a run takes packets one after the other, as \<open>serveRequest\<close> of \<open>rfs/src/main_rfs.c\<close> does, as
  long as no step is undefined. Invariants of the runs: the table of open files counts what the requests
  opened and released, every answer is addressed to the client that asked and has a type the client
  expects, some requests never write to the disk, and client ids are given out once.
\<close>

section \<open>The table of open files in one step\<close>

lemma step_counts:
  assumes "open_rep st f" and "table_step st x = Some st'"
  shows "open_rep st' (count_step f x)"
proof (cases x)
  case (Cerrar m)
  then show ?thesis using assms table_step_close [of st _ _ m] by (fastforce simp: open_rep_def)
next
  case (Abrir m)
  obtain ps ns where t: "table_rep st ps ns" "f = cuenta ns" using assms(1) by (auto simp: open_rep_def)
  have "cuenta ns m < INT_MAX"
  proof (rule table_entry [OF t(1), of m])
    fix st1 us p vs as n bs
    assume e: "obtener_o_crear_archivo_abierto st m = Some (p, st1)" "nodos st1 p = Some n" "numero_inodo n = m"
      "m \<notin> numero_inodo ` set (as @ bs)" "cuenta (as @ n # bs) = cuenta ns"
    then have "cuenta ns m = cantidad_abiertos n" using cuenta_middle [of m n as bs] by (metis fun_upd_same)
    then show ?thesis using e(1,2) assms(2) Abrir by (auto simp: registrar_apertura_def ensure_def split: bind_splits if_splits)
  qed
  then show ?thesis using assms(2) t Abrir table_step_open [OF t(1)] by fastforce
qed

lemma client_lists_keep:
  "obtener_o_crear_lista_del_cliente st c = Some (q, st') \<Longrightarrow> open_rep st' f \<longleftrightarrow> open_rep st f"
  "registrar_apertura_cliente st q m = Some st' \<Longrightarrow> open_rep st' f \<longleftrightarrow> open_rep st f"
  "registrar_cierre_cliente st c m = Some st' \<Longrightarrow> open_rep st' f \<longleftrightarrow> open_rep st f"
  by (auto simp: obtener_o_crear_lista_del_cliente_def registrar_apertura_cliente_def registrar_cierre_cliente_def
      open_rep_def table_rep_def Let_def split: option.splits bind_splits if_splits prod.splits)

lemma lock_keeps:
  "open_rep st f \<Longrightarrow> obtener_o_crear_archivo_abierto st m = Some (p, st') \<Longrightarrow> open_rep st' f"
  using lock_total [of st f m] by auto

section \<open>What a request does to the table\<close>

text \<open>Opening and releasing the inode of a path of the disk; the path of 0 does nothing.\<close>

definition on_path :: "(u32 \<Rightarrow> table_op) \<Rightarrow> mem \<Rightarrow> cstr \<Rightarrow> table_op list" where
  "on_path f d path = (case numeroInodo d path of Some n \<Rightarrow> (if n = 0 then [] else [f n]) | None \<Rightarrow> [])"

text \<open>
  The operation on the table, from the disk after the request and the answer; \<open>serve_create\<close> opens the file when it has
  made it, and answers two packets then.
\<close>

fun request_ops :: "mem \<Rightarrow> request \<Rightarrow> nipc_packet list \<Rightarrow> table_op list" where
  "request_ops d (Req_open m) ps = on_path Abrir d (op_path m)"
| "request_ops d (Req_create m) ps = (if length ps = 2 then on_path Abrir d (cr_path m) else [])"
| "request_ops d (Req_release m) ps = on_path Cerrar d (rl_path m)"
| "request_ops d r ps = []"

definition counts :: "table_op list \<Rightarrow> (u32 \<Rightarrow> int) \<Rightarrow> u32 \<Rightarrow> int" where
  "counts ops f = fold (\<lambda>x g. count_step g x) ops f"

lemma counts_simps [simp]: "counts [] f = f" "counts [x] f = count_step f x" "counts (xs @ ys) f = counts ys (counts xs f)"
  by (simp_all add: counts_def)

lemma abrir_counts:
  assumes "abrir s path c = Some (ps, s')" and "open_rep (adm s) f"
  shows "open_rep (adm s') (counts (on_path Abrir (disk (fs s')) path) f) \<and> fs s' = fs s \<and> length ps = 1"
proof -
  obtain n where n: "getNroInodoDeLaDireccionDelPath (disk (fs s)) path = Some n"
    using assms(1) by (auto simp: abrir_def split: bind_splits)
  show ?thesis
  proof (cases "n = 0")
    case True
    then show ?thesis using assms n
      by (auto simp: abrir_def on_path_def numeroInodo_def send_no_ok_def split: bind_splits)
  next
    case False
    then obtain p a1 a2 q a3 a4 where a: "obtener_o_crear_archivo_abierto (adm s) n = Some (p, a1)" "registrar_apertura a1 p = Some a2"
      "obtener_o_crear_lista_del_cliente a2 c = Some (q, a3)" "registrar_apertura_cliente a3 q n = Some a4"
      "s' = s\<lparr>adm := a4\<rparr>" "length ps = 1"
      using assms(1) n by (auto simp: abrir_def send_ok_def split: bind_splits)
    then have "open_rep a2 (count_step f (Abrir n))" using step_counts [OF assms(2), of "Abrir n" a2] by simp
    then have "open_rep a4 (count_step f (Abrir n))" using client_lists_keep(1) [OF a(3)] client_lists_keep(2) [OF a(4)] by blast
    then show ?thesis using a n False by (simp add: on_path_def numeroInodo_def)
  qed
qed

lemma release_counts:
  assumes "serve_release s m = Some (ps, s')" and "open_rep (adm s) f"
  shows "open_rep (adm s') (counts (on_path Cerrar (disk (fs s')) (rl_path m)) f)"
proof -
  obtain n where n: "getNroInodoDeLaDireccionDelPath (disk (fs s)) (rl_path m) = Some n"
    using assms(1) by (auto simp: serve_release_def split: bind_splits)
  show ?thesis
  proof (cases "n = 0")
    case True
    then show ?thesis using assms n
      by (auto simp: serve_release_def on_path_def numeroInodo_def send_no_ok_def split: bind_splits)
  next
    case False
    then obtain p a1 a2 a3 where a: "obtener_o_crear_archivo_abierto (adm s) n = Some (p, a1)" "registrar_cierre a1 p = Some a2"
      "registrar_cierre_cliente a2 (rl_client_id m) n = Some a3" "s' = s\<lparr>adm := a3\<rparr>"
      using assms(1) n by (auto simp: serve_release_def split: bind_splits)
    then have "open_rep a2 (count_step f (Cerrar n))" using step_counts [OF assms(2), of "Cerrar n" a2] by simp
    then have "open_rep a3 (count_step f (Cerrar n))" using client_lists_keep(3) [OF a(3)] by blast
    then show ?thesis using a n False by (simp add: on_path_def numeroInodo_def)
  qed
qed

lemma read_write_counts:
  "serve_read s m = Some (ps, s') \<Longrightarrow> open_rep (adm s) f \<Longrightarrow> open_rep (adm s') f"
  "serve_write s w = Some (ps, s') \<Longrightarrow> open_rep (adm s) f \<Longrightarrow> open_rep (adm s') f"
  by (auto simp: serve_read_def serve_write_def bloquearLectura_def bloquearEscritura_def desbloquear_def Let_def
      split: bind_splits prod.splits intro: lock_keeps)

lemma other_counts:
  "serve_unlink s u = Some (ps, s') \<Longrightarrow> adm s' = adm s" "serve_mkdir b b1 b2 s k = Some (ps, s') \<Longrightarrow> adm s' = adm s"
  "serve_readdir s d = Some (ps, s') \<Longrightarrow> adm s' = adm s" "serve_rmdir s r = Some (ps, s') \<Longrightarrow> adm s' = adm s"
  "serve_getattr s g = Some (ps, s') \<Longrightarrow> adm s' = adm s" "serve_truncate s t = Some (ps, s') \<Longrightarrow> adm s' = adm s"
  by (auto simp: serve_unlink_def serve_mkdir_def serve_readdir_def serve_rmdir_def serve_getattr_def serve_truncate_def Let_def
      split: bind_splits)

lemma create_counts:
  assumes "serve_create b s m = Some (ps, s')" and "open_rep (adm s) f"
  shows "open_rep (adm s') (counts (request_ops (disk (fs s')) (Req_create m) ps) f)"
proof -
  obtain e g where e: "crearArchivo b (fs s) (cr_path m) (cr_fileMode m) = Some (e, g)"
    using assms(1) by (auto simp: serve_create_def split: bind_splits)
  show ?thesis
  proof (cases "e = 0")
    case True
    then obtain r1 where "abrir (s\<lparr>fs := g\<rparr>) (cr_path m) (cr_client_id m) = Some (r1, s')" "ps = r1 @ [new_nipc_ok (cr_client_id m)]"
      using assms(1) e by (auto simp: serve_create_def send_ok_def split: bind_splits)
    then show ?thesis using abrir_counts [of "s\<lparr>fs := g\<rparr>" "cr_path m" "cr_client_id m" r1 s' f] assms(2) by auto
  next
    case False
    then show ?thesis using assms e by (auto simp: serve_create_def send_no_ok_def split: bind_splits)
  qed
qed

lemma serve_counts:
  assumes "serve b b1 b2 s r = Some (ps, s')" and "open_rep (adm s) f"
  shows "open_rep (adm s') (counts (request_ops (disk (fs s')) r ps) f)"
  using assms
  by (cases r) (auto simp: serve_def serve_open_def simp del: request_ops.simps(2)
      dest: other_counts abrir_counts intro: create_counts release_counts read_write_counts)

section \<open>Answers\<close>

primrec client_of :: "request \<Rightarrow> u32" where
  "client_of (Req_create m) = cr_client_id m"
| "client_of (Req_open m) = op_client_id m"
| "client_of (Req_read m) = rd_client_id m"
| "client_of (Req_write m) = wt_client_id m"
| "client_of (Req_unlink m) = ul_client_id m"
| "client_of (Req_release m) = rl_client_id m"
| "client_of (Req_mkdir m) = mk_client_id m"
| "client_of (Req_rmdir m) = rm_client_id m"
| "client_of (Req_readdir m) = dr_client_id m"
| "client_of (Req_getattr m) = ga_client_id m"
| "client_of (Req_truncate m) = tr_client_id m"

text \<open>The types of answer to a request. The attributes go out with client id 0 (\<open>serialize_getattr_response\<close>).\<close>

fun answer_types :: "request \<Rightarrow> tipo_nipc list" where
  "answer_types (Req_read m) = [nipc_read_response]"
| "answer_types (Req_readdir m) = [nipc_error, nipc_readdir_response]"
| "answer_types (Req_getattr m) = [nipc_error, nipc_getattr_response]"
| "answer_types r = [nipc_error, nipc_ok]"

definition answer_to :: "request \<Rightarrow> nipc_packet \<Rightarrow> bool" where
  "answer_to r p \<longleftrightarrow> list_ex (\<lambda>t. pkt_type p = tipo_code t) (answer_types r) \<and>
     pkt_client_id p = (if pkt_type p = tipo_code nipc_getattr_response then 0 else client_of r)"

definition answered :: "request \<Rightarrow> nipc_packet list \<Rightarrow> bool" where
  "answered r ps \<longleftrightarrow> ps \<noteq> [] \<and> list_all (answer_to r) ps"

lemma fill_packet_fields: "fill_packet t c n bs = Some p \<Longrightarrow> pkt_type p = t \<and> pkt_client_id p = c"
  by (auto simp: fill_packet_def split: bind_splits if_splits)

lemma error_fields:
  "send_no_ok e c = Some ps \<Longrightarrow> \<exists>p. ps = [p] \<and> pkt_type p = tipo_code nipc_error \<and> pkt_client_id p = c"
  by (auto simp: send_no_ok_def serialize_error_def new_nipc_error_code_def empty_nipc_error_def Let_def
      dest!: fill_packet_fields split: bind_splits)

lemma ok_fields: "send_ok c = Some ps \<longleftrightarrow> ps = [new_nipc_ok c]"
  "pkt_type (new_nipc_ok c) = tipo_code nipc_ok" "pkt_client_id (new_nipc_ok c) = c"
  by (auto simp: send_ok_def new_nipc_ok_def)

lemma responder_answered:
  "responder e c = Some ps \<Longrightarrow> client_of r = c \<Longrightarrow> answer_types r = [nipc_error, nipc_ok] \<Longrightarrow> answered r ps"
  by (auto simp: responder_def answered_def answer_to_def ok_fields dest!: error_fields split: if_splits)

lemma abrir_answered:
  "abrir s path c = Some (ps, s') \<Longrightarrow> client_of r = c \<Longrightarrow> answer_types r = [nipc_error, nipc_ok] \<Longrightarrow> answered r ps"
  by (auto simp: abrir_def ok_fields answered_def answer_to_def split: bind_splits if_splits dest!: error_fields)

lemma serve_answered:
  assumes "serve b b1 b2 s r = Some (ps, s')"
  shows "answered r ps"
proof (cases r)
  case (Req_create m)
  then show ?thesis using assms
    by (auto simp: serve_def serve_create_def Let_def ok_fields split: bind_splits if_splits
        dest!: abrir_answered [where r = r] error_fields) (auto simp: answered_def answer_to_def ok_fields)
next
  case (Req_read m)
  then show ?thesis using assms
    by (auto simp: serve_def serve_read_def Let_def answered_def answer_to_def new_nipc_read_response_def split: bind_splits)
next
  case (Req_write m)
  then show ?thesis using assms
    by (auto simp: serve_def serve_write_def Let_def ok_fields split: bind_splits if_splits
        dest!: error_fields) (auto simp: answered_def answer_to_def ok_fields)
next
  case (Req_release m)
  then show ?thesis using assms
    by (auto simp: serve_def serve_release_def ok_fields split: bind_splits if_splits dest!: error_fields)
      (auto simp: answered_def answer_to_def ok_fields)
next
  case (Req_readdir m)
  then show ?thesis using assms
    by (auto simp: serve_def serve_readdir_def serialize_readdir_response_def new_nipc_readdir_response_def
        empty_nipc_readdir_response_def answered_def answer_to_def Let_def
        split: bind_splits if_splits dest!: fill_packet_fields error_fields)
next
  case (Req_getattr m)
  then show ?thesis using assms
    by (auto simp: serve_def serve_getattr_def serialize_getattr_response_def new_nipc_getattr_response_def
        empty_nipc_getattr_response_def answered_def answer_to_def Let_def
        split: bind_splits option.splits dest!: fill_packet_fields error_fields)
qed (use assms in \<open>auto simp: serve_def serve_open_def serve_unlink_def serve_mkdir_def serve_rmdir_def serve_truncate_def
    split: bind_splits intro: responder_answered abrir_answered\<close>)

text \<open>Requests that only read.\<close>

fun read_only :: "request \<Rightarrow> bool" where
  "read_only (Req_open m) = True"
| "read_only (Req_read m) = True"
| "read_only (Req_release m) = True"
| "read_only (Req_readdir m) = True"
| "read_only (Req_getattr m) = True"
| "read_only r = False"

lemma serve_read_only: "serve b b1 b2 s r = Some (ps, s') \<Longrightarrow> read_only r \<Longrightarrow> fs s' = fs s"
  by (cases r) (auto simp: serve_def serve_open_def abrir_def serve_read_def serve_release_def serve_readdir_def serve_getattr_def
      Let_def split: bind_splits if_splits option.splits)

lemma serve_keeps_id: "serve b b1 b2 s r = Some (ps, s') \<Longrightarrow> generated_client_id s' = generated_client_id s"
  by (cases r) (auto simp: serve_def serve_open_def abrir_def serve_create_def serve_read_def serve_write_def serve_release_def
      serve_unlink_def serve_mkdir_def serve_readdir_def serve_rmdir_def serve_getattr_def serve_truncate_def
      Let_def split: bind_splits if_splits option.splits)

section \<open>Runs\<close>

text \<open>A step: a packet, its answer, and what it does to the table of open files.\<close>

inductive server_step :: "'c server \<Rightarrow> nipc_packet \<Rightarrow> nipc_packet list \<Rightarrow> table_op list \<Rightarrow> 'c server \<Rightarrow> bool" where
  request: "serveRequest b b1 b2 s p = Some (ps, s') \<Longrightarrow> decode_request p = Some (Some r) \<Longrightarrow>
    server_step s p ps (request_ops (disk (fs s')) r ps) s'"
| other: "serveRequest b b1 b2 s p = Some (ps, s') \<Longrightarrow> decode_request p = Some None \<Longrightarrow> server_step s p ps [] s'"

inductive_cases server_stepE: "server_step s p ps ops s'"

inductive server_run :: "'c server \<Rightarrow> (nipc_packet \<times> nipc_packet list) list \<Rightarrow> table_op list \<Rightarrow> 'c server \<Rightarrow> bool" where
  start: "server_run s [] [] s"
| step: "server_run s tr ops s1 \<Longrightarrow> server_step s1 p ps ops' s2 \<Longrightarrow> server_run s (tr @ [(p, ps)]) (ops @ ops') s2"

text \<open>Every packet the server survives is a step.\<close>

lemma step_total:
  assumes "serveRequest b b1 b2 s p = Some (ps, s')"
  shows "\<exists>ops. server_step s p ps ops s'"
proof -
  obtain x where "decode_request p = Some x" using assms by (auto simp: serveRequest_def split: bind_splits)
  then show ?thesis using assms by (cases x) (auto intro: server_step.intros)
qed

lemma step_request:
  assumes "serveRequest b b1 b2 s p = Some (ps, s')" and "decode_request p = Some (Some r)"
  shows "serve b b1 b2 s r = Some (ps, s')"
  using assms by (auto simp: serveRequest_def split: bind_splits)

lemma step_other:
  assumes "serveRequest b b1 b2 s p = Some (ps, s')" and "decode_request p = Some None"
  shows "fs s' = fs s \<and> adm s' = adm s \<and> rcache s' = rcache s"
  using assms by (auto simp: serveRequest_def serve_handshake_def serve_error_def serve_unknown_def generate_client_id_def Let_def
      split: bind_splits if_splits)

lemma step_invariant:
  assumes "server_step s p ps ops s'" and "open_rep (adm s) f"
  shows "open_rep (adm s') (counts ops f)"
  using assms(1)
proof (rule server_stepE)
  fix b b1 b2 r
  assume "serveRequest b b1 b2 s p = Some (ps, s')" "decode_request p = Some (Some r)" "ops = request_ops (disk (fs s')) r ps"
  then show ?thesis using serve_counts [OF step_request assms(2)] by blast
next
  fix b b1 b2
  assume "serveRequest b b1 b2 s p = Some (ps, s')" "decode_request p = Some None" "ops = []"
  then show ?thesis using step_other [of b b1 b2 s p ps s'] assms(2) by simp
qed

lemma run_invariant: "server_run s tr ops s' \<Longrightarrow> open_rep (adm s) f \<Longrightarrow> open_rep (adm s') (counts ops f)"
  by (induction rule: server_run.induct) (auto dest: step_invariant)

text \<open>
  C10. The table of open files over any run of the server: from the start, whatever packets arrive and whatever else they do,
  the table is well formed and holds for every inode the number of opens (by open and create requests)
  that were not released.
\<close>

theorem open_files_invariant:
  assumes "server_run s tr ops s'" and "adm s = inicializar_administracion"
  shows "open_rep (adm s') (fold (\<lambda>x f. count_step f x) ops (\<lambda>_. 0))"
  using run_invariant [OF assms(1)] inicializar_rep assms(2) by (simp add: counts_def)

text \<open>
  C29. Every request that the server survives is answered, by packets of the types that belong to the request, with the
  client id of the request, except that attributes are sent with client id 0.
\<close>

theorem requests_answered:
  assumes "serveRequest b b1 b2 s p = Some (ps, s')" and "decode_request p = Some (Some r)"
  shows "answered r ps"
  using serve_answered step_request [OF assms] by blast

text \<open>
  Requests to open, read, release and list files and to read attributes leave the image of the disk and the
  allocator as they are, whatever they answer.
\<close>

theorem read_only_requests:
  assumes "serveRequest b b1 b2 s p = Some (ps, s')" and "decode_request p = Some (Some r)" and "read_only r"
  shows "fs s' = fs s"
  using serve_read_only step_request [OF assms(1,2)] assms(3) by blast

section \<open>Client ids\<close>

text \<open>The client ids that the answers to greetings of a run carry.\<close>

definition greeting_ids :: "nipc_packet \<times> nipc_packet list \<Rightarrow> u32 list" where
  "greeting_ids pp = (if decode_request (fst pp) = Some None \<and> pkt_type (fst pp) = tipo_code nipc_handshake
     then map pkt_client_id (snd pp) else [])"

lemma step_ids:
  assumes "server_step s p ps ops s'"
  shows "\<exists>k. greeting_ids (p, ps) = map (\<lambda>i. generated_client_id s + of_nat i) [1..<Suc k] \<and>
    generated_client_id s' = generated_client_id s + of_nat k \<and> k \<le> 1"
  using assms
proof (rule server_stepE)
  fix b b1 b2 r
  assume r: "serveRequest b b1 b2 s p = Some (ps, s')" "decode_request p = Some (Some r)"
  then show ?thesis using serve_keeps_id [OF step_request [OF r]] by (intro exI [of _ 0]) (simp add: greeting_ids_def)
next
  fix b b1 b2
  assume r: "serveRequest b b1 b2 s p = Some (ps, s')" "decode_request p = Some None"
  show ?thesis
  proof (cases "pkt_type p = tipo_code nipc_handshake \<and> ps \<noteq> []")
    case True
    then have "serve_handshake s p = Some (ps, s')" using r by (auto simp: serveRequest_def split: bind_splits)
    then have "ps = [new_nipc_handshake_ok (generated_client_id s + 1)]" "generated_client_id s' = generated_client_id s + 1"
      using True by (auto simp: serve_handshake_def generate_client_id_def Let_def split: bind_splits if_splits)
    then show ?thesis using True r(2)
      by (intro exI [of _ 1]) (simp add: greeting_ids_def new_nipc_handshake_ok_def new_nipc_handshake_def)
  next
    case False
    then have "generated_client_id s' = generated_client_id s" using r
      by (auto simp: serveRequest_def serve_handshake_def generate_client_id_def serve_error_def serve_unknown_def Let_def
          split: bind_splits if_splits)
    then show ?thesis using False by (intro exI [of _ 0]) (auto simp: greeting_ids_def)
  qed
qed

lemma run_ids:
  "server_run s tr ops s' \<Longrightarrow> \<exists>k. concat (map greeting_ids tr) = map (\<lambda>i. generated_client_id s + of_nat i) [1..<Suc k] \<and>
    generated_client_id s' = generated_client_id s + of_nat k \<and> k \<le> length tr"
proof (induction rule: server_run.induct)
  case (step s tr ops s1 p ps ops' s2)
  then obtain k where k: "concat (map greeting_ids tr) = map (\<lambda>i. generated_client_id s + of_nat i) [1..<Suc k]"
    "generated_client_id s1 = generated_client_id s + of_nat k" "k \<le> length tr" by blast
  obtain j where j: "greeting_ids (p, ps) = map (\<lambda>i. generated_client_id s1 + of_nat i) [1..<Suc j]"
    "generated_client_id s2 = generated_client_id s1 + of_nat j" "j \<le> 1" using step_ids [OF step.hyps(2)] by blast
  have "j = 0 \<or> j = 1" using j(3) by auto
  then show ?case using k j by (intro exI [of _ "k + j"]) (auto simp: add.assoc)
qed simp

text \<open>
  C30. Client ids: in every run of the server of less than 4294967296 packets, the client ids handed out to greetings are all
  different, and none is 0, the id of a client without one, when the counter starts at 0.
\<close>

theorem client_ids_distinct:
  assumes "server_run s tr ops s'" and "length tr < 2 ^ 32"
  shows "distinct (concat (map greeting_ids tr)) \<and> (generated_client_id s = 0 \<longrightarrow> 0 \<notin> set (concat (map greeting_ids tr)))"
proof -
  obtain k where k: "concat (map greeting_ids tr) = map (\<lambda>i. generated_client_id s + of_nat i) [1..<Suc k]" "k < 2 ^ 32"
    using run_ids [OF assms(1)] assms(2) by auto
  have u: "unat (of_nat i :: u32) = i" if "i \<le> k" for i using that k(2) by (simp add: unsigned_of_nat take_bit_nat_eq_self)
  have "inj_on (\<lambda>i. generated_client_id s + of_nat i) {1..<Suc k}"
    by (rule inj_onI) (metis add_left_cancel atLeastLessThan_iff less_Suc_eq_le u)
  moreover have "(of_nat i :: u32) \<noteq> 0" if "1 \<le> i" "i \<le> k" for i using u [of i] that by (metis not_one_le_zero unat_0)
  ultimately show ?thesis unfolding k(1) by (auto simp: distinct_map simp del: upt_Suc)
qed

section \<open>Witnesses\<close>

definition demo_open :: request where
  "demo_open = Req_open \<lparr>op_nipcType = 1, op_client_id = 7, op_path = str ''/a'', op_flags = 0\<rparr>"

lemma demo_open_served:
  "\<exists>p ps s'. serveRequest 0 0 0 demo_server p = Some (ps, s') \<and> decode_request p = Some (Some demo_open) \<and> fs s' = fs demo_server"
proof -
  have "request_ok demo_open" by (simp add: demo_open_def open_ok_def path_ok_def is_cstr_def str_def)
  then obtain p where p: "serialize_request demo_open = Some p" "decode_request p = Some (Some demo_open)"
    using serialize_request_ok by blast
  moreover have "serveRequest 0 0 0 demo_server p = serve 0 0 0 demo_server demo_open"
    using dispatch_ok [OF \<open>request_ok demo_open\<close>] p(1) by auto
  moreover obtain q a1 a2 where a: "obtener_o_crear_archivo_abierto inicializar_administracion 3 = Some (q, a1)"
    "registrar_apertura a1 q = Some a2"
    using table_run_counts [OF inicializar_rep, of "[Abrir 3]"] by (auto simp: INT_MAX_def split: bind_splits)
  then have "archivos_por_cliente a2 = dictionary_create"
    by (auto simp: obtener_o_crear_archivo_abierto_def registrar_apertura_def inicializar_administracion_def Let_def
        ensure_def split: bind_splits option.splits if_splits)
  then have "dictionary_get (archivos_por_cliente a2) k = None" for k using dict.get_put_all [of "[]" k] by simp
  then have "\<exists>c a3 a4. obtener_o_crear_lista_del_cliente a2 7 = Some (c, a3) \<and> registrar_apertura_cliente a3 c 3 = Some a4"
    by (simp add: obtener_o_crear_lista_del_cliente_def registrar_apertura_cliente_def list_add_def list_create_def Let_def
        split: prod.split)
  then have "\<exists>ps s'. serve 0 0 0 demo_server demo_open = Some (ps, s') \<and> fs s' = fs demo_server"
    using demo_file_number a by (auto simp: serve_def demo_open_def serve_open_def abrir_def numeroInodo_def send_ok_def)
  ultimately show ?thesis by metis
qed

theorem open_files_invariant_witness:
  "\<exists>tr s'. server_run demo_server tr [Abrir 3] s' \<and> open_rep (adm s') ((\<lambda>_. 0)(3 := 1))"
proof -
  obtain p ps s' where p: "serveRequest 0 0 0 demo_server p = Some (ps, s')" "decode_request p = Some (Some demo_open)"
    "fs s' = fs demo_server" using demo_open_served by blast
  have "request_ops (disk (fs s')) demo_open ps = [Abrir 3]" using p(3) demo_file_number by (simp add: demo_open_def on_path_def)
  then have "server_run demo_server [(p, ps)] [Abrir 3] s'"
    using server_run.step [OF server_run.start server_step.request [OF p(1,2)]] by simp
  then show ?thesis using open_files_invariant [of demo_server _ "[Abrir 3]" s'] by auto
qed

theorem requests_answered_witness:
  "\<exists>p ps s'. serveRequest 0 0 0 demo_server p = Some (ps, s') \<and> answered demo_open ps"
  using demo_open_served requests_answered by blast

theorem read_only_requests_witness:
  "\<exists>p ps s'. serveRequest 0 0 0 demo_server p = Some (ps, s') \<and> fs s' = fs demo_server"
proof -
  obtain p ps s' where p: "serveRequest 0 0 0 demo_server p = Some (ps, s')" "decode_request p = Some (Some demo_open)"
    using demo_open_served by blast
  then show ?thesis using read_only_requests [OF p] by (auto simp: demo_open_def)
qed

lemma hello_served:
  "serveRequest 0 0 0 s new_nipc_handshake_hello =
     Some ([new_nipc_handshake_ok (generated_client_id s + 1)], s\<lparr>generated_client_id := generated_client_id s + 1\<rparr>)"
  "decode_request new_nipc_handshake_hello = Some None"
proof -
  show d: "decode_request new_nipc_handshake_hello = Some None" by code_simp
  have n: "nombre_del_enum_nipc (pkt_type new_nipc_handshake_hello) \<noteq> None" "c_str (HANDSHAKE_HELLO @ [0]) = Some HANDSHAKE_HELLO"
    "pkt_type new_nipc_handshake_hello = tipo_code nipc_handshake" by code_simp+
  then show "serveRequest 0 0 0 s new_nipc_handshake_hello =
      Some ([new_nipc_handshake_ok (generated_client_id s + 1)], s\<lparr>generated_client_id := generated_client_id s + 1\<rparr>)"
    using d by (auto simp: serveRequest_def serve_handshake_def generate_client_id_def Let_def
        new_nipc_handshake_hello_def new_nipc_handshake_def)
qed

lemma hello_step:
  "server_step s new_nipc_handshake_hello [new_nipc_handshake_ok (generated_client_id s + 1)] []
     (s\<lparr>generated_client_id := generated_client_id s + 1\<rparr>)"
  using hello_served by (rule server_step.other)

theorem client_ids_distinct_witness:
  "\<exists>tr s'. server_run demo_server tr [] s' \<and> concat (map greeting_ids tr) = [1, 2] \<and> distinct (concat (map greeting_ids tr))"
proof -
  let ?h = "new_nipc_handshake_hello"
  let ?s1 = "demo_server\<lparr>generated_client_id := generated_client_id demo_server + 1\<rparr>"
  have g: "generated_client_id demo_server = 0" by (simp add: demo_server_def)
  let ?tr = "[(?h, [new_nipc_handshake_ok (generated_client_id demo_server + 1)])] @ [(?h, [new_nipc_handshake_ok (generated_client_id ?s1 + 1)])]"
  have r: "server_run demo_server ?tr [] (?s1\<lparr>generated_client_id := generated_client_id ?s1 + 1\<rparr>)"
    using server_run.step [OF server_run.step [OF server_run.start hello_step [of demo_server]] hello_step [of ?s1]] by simp
  have "decode_request ?h = Some None \<and> pkt_type ?h = tipo_code nipc_handshake" by code_simp
  then have "greeting_ids (?h, [new_nipc_handshake_ok n]) = [n]" for n
    by (simp add: greeting_ids_def new_nipc_handshake_ok_def new_nipc_handshake_def)
  then have "concat (map greeting_ids ?tr) = [1, 2]" using g by simp
  moreover have "distinct (concat (map greeting_ids ?tr))" using client_ids_distinct [OF r] by simp
  ultimately show ?thesis using r by blast
qed

end
