(* ===== verification/EventLoop.thy ===== *)
theory EventLoop
  imports Sessions
begin

unbundle bit_operations_syntax

text \<open>
  The main thread of the server and its worker threads, from \<open>main\<close> and \<open>serveRequest\<close> of \<open>rfs/src/main_rfs.c\<close>. A step is
  one action of one thread, with what the kernel answered in it: the main thread waits for events, takes or accepts
  sockets and creates threads; a thread reads the socket from the pointer it was given, receives a packet,
  runs its handler, closes the socket and posts the semaphore. The actions of a run are in the order
  the scheduler chose. A handler is one step: interleavings inside handlers are left out.
\<close>

section \<open>State and actions\<close>

definition EPOLLIN :: u32 where "EPOLLIN = 1"
definition EPOLLERR :: u32 where "EPOLLERR = 8"
definition EPOLLHUP :: u32 where "EPOLLHUP = 16"

text \<open>
  Where the main thread is, with the events of the last \<open>epoll_wait\<close> that are left: waiting; at the head of the loop over the
  events; in the block of a socket, before \<open>sem_wait\<close>; in the same block after \<open>pthread_create\<close>, where the variable
  \<open>querySocket\<close> still lives.
\<close>

datatype control = Epoll_wait | Eventos "(int \<times> u32) list" | Tomado int "(int \<times> u32) list" | Creado int "(int \<times> u32) list"

text \<open>A thread: created, before it reads its argument; before it receives; before \<open>close\<close>; before \<open>sem_post\<close>; finished.\<close>

datatype hilo = Nacido | Recibe int | Cierra int | Libera | Terminado

record 'c proceso =
  pc :: control
  en_epoll :: "int set"
  abiertos :: "int set"
  threads_count :: nat
  hilos :: "hilo list"
  servidor :: "'c server"

datatype accion =
    Despierta "(int \<times> u32) list"
  | Siguiente "int option"
  | Crea bool
  | Fin_bloque
  | Arranca nat
  | Atiende nat nipc_packet byte byte byte
  | Cierra_socket nat
  | Devuelve nat

datatype 'c paso = Sigue "'c proceso" | Bloqueado | Indefinido

section \<open>The main thread\<close>

text \<open>Closing a descriptor also takes it out of the epoll set.\<close>

definition close_fd :: "'c proceso \<Rightarrow> int \<Rightarrow> 'c proceso" where
  "close_fd s fd = s\<lparr>abiertos := abiertos s - {fd}, en_epoll := en_epoll s - {fd}\<rparr>"

text \<open>\<open>epoll_wait\<close> returns different sockets of the set, at most \<open>max_events\<close>; an error (-1) is the empty list.\<close>

definition esperar :: "nat \<Rightarrow> 'c proceso \<Rightarrow> (int \<times> u32) list \<Rightarrow> 'c paso" where
  "esperar max_events s evs =
     (if pc s = Epoll_wait \<and> length evs \<le> max_events \<and> distinct (map fst evs) \<and> list_all (\<lambda>e. fst e \<in> en_epoll s) evs
      then Sigue (s\<lparr>pc := Eventos evs\<rparr>) else Bloqueado)"

text \<open>
  One event: errors close the socket, the listening socket accepts, any other socket is taken out of the epoll set.
  \<open>accept\<close> answers an unused descriptor, or -1 (\<open>None\<close>), which \<open>epoll_ctl\<close> refuses.
\<close>

definition siguiente :: "int \<Rightarrow> 'c proceso \<Rightarrow> int option \<Rightarrow> 'c paso" where
  "siguiente listeningSocket s aceptado =
     (case pc s of
        Eventos [] \<Rightarrow> Sigue (s\<lparr>pc := Epoll_wait\<rparr>)
      | Eventos ((fd, events) # evs) \<Rightarrow>
          (if events AND EPOLLERR \<noteq> 0 \<or> events AND EPOLLHUP \<noteq> 0 \<or> \<not> events AND EPOLLIN \<noteq> 0
           then Sigue ((close_fd s fd)\<lparr>pc := Eventos evs\<rparr>)
           else if fd = listeningSocket
           then (case aceptado of
                   None \<Rightarrow> Sigue (s\<lparr>pc := Eventos evs\<rparr>)
                 | Some querySocket \<Rightarrow>
                     (if querySocket < 0 \<or> querySocket \<in> abiertos s then Bloqueado
                      else Sigue (s\<lparr>pc := Eventos evs, abiertos := insert querySocket (abiertos s),
                                    en_epoll := insert querySocket (en_epoll s)\<rparr>)))
           else Sigue (s\<lparr>pc := Tomado fd evs, en_epoll := en_epoll s - {fd}\<rparr>))
      | _ \<Rightarrow> Bloqueado)"

text \<open>
  \<open>sem_wait\<close> and \<open>pthread_create\<close>. When no thread is created, \<open>threadID\<close> has no value and \<open>pthread_detach\<close> uses it
  all the same.
\<close>

definition crear_hilo :: "'c proceso \<Rightarrow> bool \<Rightarrow> 'c paso" where
  "crear_hilo s creado =
     (case pc s of
        Tomado querySocket evs \<Rightarrow>
          (if threads_count s = 0 then Bloqueado
           else if creado
           then Sigue (s\<lparr>pc := Creado querySocket evs, threads_count := threads_count s - 1, hilos := hilos s @ [Nacido]\<rparr>)
           else Indefinido)
      | _ \<Rightarrow> Bloqueado)"

definition fin_bloque :: "'c proceso \<Rightarrow> 'c paso" where
  "fin_bloque s = (case pc s of Creado querySocket evs \<Rightarrow> Sigue (s\<lparr>pc := Eventos evs\<rparr>) | _ \<Rightarrow> Bloqueado)"

section \<open>A worker thread\<close>

text \<open>
  A thread reads the variable of the block that created it: the last thread can while that block is alive, any other
  read is of a variable that no longer exists.
\<close>

definition leer_socket :: "'c proceso \<Rightarrow> nat \<Rightarrow> 'c paso" where
  "leer_socket s i =
     (if i < length (hilos s) \<and> hilos s ! i = Nacido
      then (case pc s of
              Creado querySocket evs \<Rightarrow>
                (if Suc i = length (hilos s) then Sigue (s\<lparr>hilos := (hilos s)[i := Recibe querySocket]\<rparr>) else Indefinido)
            | _ \<Rightarrow> Indefinido)
      else Bloqueado)"

text \<open>\<open>serve_handshake\<close> closes the socket when the greeting is not the one it knows.\<close>

definition handshake_cierra :: "nipc_packet \<Rightarrow> bool" where
  "handshake_cierra request \<longleftrightarrow>
     pkt_type request = tipo_code nipc_handshake \<and> Option.bind (pkt_data request) c_str \<noteq> Some HANDSHAKE_HELLO"

definition atender :: "'c proceso \<Rightarrow> nat \<Rightarrow> nipc_packet \<Rightarrow> byte \<Rightarrow> byte \<Rightarrow> byte \<Rightarrow> 'c paso" where
  "atender s i request basura basura1 basura2 =
     (if i < length (hilos s)
      then (case hilos s ! i of
              Recibe socket \<Rightarrow>
                (case serveRequest basura basura1 basura2 (servidor s) request of
                   None \<Rightarrow> Indefinido
                 | Some (ps, t) \<Rightarrow>
                     (let s1 = (if handshake_cierra request then close_fd s socket else s)
                      in Sigue (s1\<lparr>servidor := t, hilos := (hilos s1)[i := Cierra socket]\<rparr>)))
            | _ \<Rightarrow> Bloqueado)
      else Bloqueado)"

definition cerrar_socket :: "'c proceso \<Rightarrow> nat \<Rightarrow> 'c paso" where
  "cerrar_socket s i =
     (if i < length (hilos s)
      then (case hilos s ! i of
              Cierra socket \<Rightarrow> Sigue ((close_fd s socket)\<lparr>hilos := (hilos s)[i := Libera]\<rparr>)
            | _ \<Rightarrow> Bloqueado)
      else Bloqueado)"

definition devolver :: "'c proceso \<Rightarrow> nat \<Rightarrow> 'c paso" where
  "devolver s i =
     (if i < length (hilos s) \<and> hilos s ! i = Libera
      then Sigue (s\<lparr>threads_count := threads_count s + 1, hilos := (hilos s)[i := Terminado]\<rparr>)
      else Bloqueado)"

section \<open>Runs\<close>

fun main_step :: "int \<Rightarrow> nat \<Rightarrow> 'c proceso \<Rightarrow> accion \<Rightarrow> 'c paso" where
  "main_step ls k s (Despierta evs) = esperar k s evs"
| "main_step ls k s (Siguiente q) = siguiente ls s q"
| "main_step ls k s (Crea b) = crear_hilo s b"
| "main_step ls k s Fin_bloque = fin_bloque s"
| "main_step ls k s (Arranca i) = leer_socket s i"
| "main_step ls k s (Atiende i p b b1 b2) = atender s i p b b1 b2"
| "main_step ls k s (Cierra_socket i) = cerrar_socket s i"
| "main_step ls k s (Devuelve i) = devolver s i"

fun main_loop :: "int \<Rightarrow> nat \<Rightarrow> 'c proceso \<Rightarrow> accion list \<Rightarrow> 'c paso" where
  "main_loop ls k s [] = Sigue s"
| "main_loop ls k s (a # as) = (case main_step ls k s a of Sigue s' \<Rightarrow> main_loop ls k s' as | r \<Rightarrow> r)"

text \<open>The process when it enters the loop: only the listening socket is watched, and the semaphore has its initial value.\<close>

definition arranque :: "int \<Rightarrow> nat \<Rightarrow> 'c server \<Rightarrow> 'c proceso" where
  "arranque ls n t = \<lparr>pc = Epoll_wait, en_epoll = {ls}, abiertos = {ls}, threads_count = n, hilos = [], servidor = t\<rparr>"

lemmas loop_defs = esperar_def siguiente_def crear_hilo_def fin_bloque_def leer_socket_def atender_def cerrar_socket_def
  devolver_def close_fd_def

text \<open>An invariant of the steps is one of the runs.\<close>

lemma run_keeps:
  assumes "main_loop ls k s as = Sigue s'" and "P s" and "\<And>s a s'. a \<in> set as \<Longrightarrow> P s \<Longrightarrow> main_step ls k s a = Sigue s' \<Longrightarrow> P s'"
  shows "P s'"
  using assms
proof (induction as arbitrary: s)
  case (Cons a as)
  then obtain s1 where "main_step ls k s a = Sigue s1" "main_loop ls k s1 as = Sigue s'" by (auto split: paso.splits)
  then show ?case using Cons.IH [of s1] Cons.prems(2,3) by (metis list.set_intros)
qed simp

section \<open>The semaphore\<close>

definition vivos :: "hilo list \<Rightarrow> nat" where
  "vivos hs = length (filter (\<lambda>h. h \<noteq> Terminado) hs)"

lemma vivos_update:
  "i < length hs \<Longrightarrow> vivos (hs[i := h]) + (if hs ! i = Terminado then 0 else 1) = vivos hs + (if h = Terminado then 0 else 1)"
proof (induction hs arbitrary: i)
  case (Cons x hs)
  have c: "vivos (y # ys) = vivos ys + (if y = Terminado then 0 else 1)" for y ys by (simp add: vivos_def)
  show ?case using Cons.prems Cons.IH [of "i - 1"] by (cases i) (auto simp: c)
qed simp

lemma vivos_simps: "vivos [] = 0" "vivos (hs @ [h]) = vivos hs + (if h = Terminado then 0 else 1)"
  "i < length hs \<Longrightarrow> hs ! i \<noteq> Terminado \<Longrightarrow> h \<noteq> Terminado \<Longrightarrow> vivos (hs[i := h]) = vivos hs"
  "i < length hs \<Longrightarrow> hs ! i \<noteq> Terminado \<Longrightarrow> Suc (vivos (hs[i := Terminado])) = vivos hs"
  using vivos_update [of i hs h] vivos_update [of i hs Terminado] by (auto simp: vivos_def)

lemma step_permits:
  "main_step ls k s a = Sigue s' \<Longrightarrow> threads_count s' + vivos (hilos s') = threads_count s + vivos (hilos s)"
  by (cases a) (auto simp: loop_defs vivos_simps Let_def split: if_splits control.splits list.splits option.splits hilo.splits)

lemma permits: "main_loop ls k (arranque ls n t) as = Sigue s \<Longrightarrow> threads_count s + vivos (hilos s) = n"
  by (erule run_keeps) (simp_all add: arranque_def vivos_simps step_permits)

text \<open>
  C25. The semaphore bounds the threads: in every state that any interleaving of the main thread and the workers reaches, the
  value of the semaphore and the number of threads that have not finished add up to the initial value.
\<close>

theorem threads_bounded:
  assumes "main_loop ls k (arranque ls n t) as = Sigue s"
  shows "threads_count s + vivos (hilos s) = n"
  by (rule permits [OF assms])

section \<open>Waiting for the semaphore\<close>

text \<open>The thread that takes an action, and the actions a thread has left.\<close>

fun hilo_de :: "accion \<Rightarrow> nat option" where
  "hilo_de (Arranca i) = Some i"
| "hilo_de (Atiende i p b b1 b2) = Some i"
| "hilo_de (Cierra_socket i) = Some i"
| "hilo_de (Devuelve i) = Some i"
| "hilo_de a = None"

fun resta :: "hilo \<Rightarrow> nat" where
  "resta Nacido = 4"
| "resta (Recibe q) = 3"
| "resta (Cierra q) = 2"
| "resta Libera = 1"
| "resta Terminado = 0"

definition trabajo :: "hilo list \<Rightarrow> nat" where
  "trabajo hs = sum_list (map resta hs)"

lemma trabajo_update: "i < length hs \<Longrightarrow> trabajo (hs[i := h]) + resta (hs ! i) = trabajo hs + resta h"
proof (induction hs arbitrary: i)
  case (Cons x hs)
  show ?case using Cons.prems Cons.IH [of "i - 1"] by (cases i) (simp_all add: trabajo_def)
qed simp

lemma trabajo_simps:
  "i < length hs \<Longrightarrow> hs ! i = Nacido \<Longrightarrow> Suc (trabajo (hs[i := Recibe q])) = trabajo hs"
  "i < length hs \<Longrightarrow> hs ! i = Recibe q \<Longrightarrow> Suc (trabajo (hs[i := Cierra q])) = trabajo hs"
  "i < length hs \<Longrightarrow> hs ! i = Cierra q \<Longrightarrow> Suc (trabajo (hs[i := Libera])) = trabajo hs"
  "i < length hs \<Longrightarrow> hs ! i = Libera \<Longrightarrow> Suc (trabajo (hs[i := Terminado])) = trabajo hs"
  using trabajo_update [of i hs "Recibe q"] trabajo_update [of i hs "Cierra q"] trabajo_update [of i hs Libera]
    trabajo_update [of i hs Terminado] by simp_all

lemma trabajo_vivos: "vivos hs \<le> trabajo hs" "trabajo hs \<le> 4 * vivos hs"
proof -
  have "resta h \<le> 4 \<and> (0 < resta h \<longleftrightarrow> h \<noteq> Terminado)" for h by (cases h) simp_all
  then have r: "resta h \<le> 4" "0 < resta h \<longleftrightarrow> h \<noteq> Terminado" for h by blast+
  show "vivos hs \<le> trabajo hs"
  proof (induction hs)
    case (Cons h hs)
    then show ?case using r(2) [of h] by (auto simp: vivos_def trabajo_def)
  qed (simp add: vivos_def)
  show "trabajo hs \<le> 4 * vivos hs"
  proof (induction hs)
    case (Cons h hs)
    then show ?case using r [of h] by (cases "h = Terminado") (auto simp: vivos_def trabajo_def)
  qed (simp add: trabajo_def)
qed

text \<open>Every action of a thread is one of those it has left, and leaves the main thread where it is.\<close>

lemma worker_step:
  assumes "main_step ls k s a = Sigue s'" and "hilo_de a \<noteq> None"
  shows "Suc (trabajo (hilos s')) = trabajo (hilos s) \<and> pc s' = pc s"
  using assms by (cases a) (auto simp: leer_socket_def atender_def cerrar_socket_def devolver_def close_fd_def trabajo_simps Let_def
      split: if_splits control.splits option.splits hilo.splits)

lemma worker_run:
  "main_loop ls k s as = Sigue s' \<Longrightarrow> list_all (\<lambda>a. hilo_de a \<noteq> None) as \<Longrightarrow>
    trabajo (hilos s') + length as = trabajo (hilos s) \<and> pc s' = pc s"
proof (induction as arbitrary: s)
  case (Cons a as)
  then obtain s1 where "main_step ls k s a = Sigue s1" "main_loop ls k s1 as = Sigue s'" by (auto split: paso.splits)
  then show ?case using Cons.IH [of s1] Cons.prems(2) worker_step [of ls k s a s1] by auto
qed simp

lemma live_thread:
  assumes "i < length (hilos s)" and "hilos s ! i \<noteq> Terminado"
  shows "\<exists>a. hilo_de a = Some i \<and> main_step ls k s a \<noteq> Bloqueado"
proof (cases "hilos s ! i")
  case Nacido
  then show ?thesis using assms(1) by (intro exI [of _ "Arranca i"]) (simp add: leer_socket_def split: control.splits)
next
  case (Recibe q)
  then show ?thesis using assms(1)
    by (intro exI [of _ "Atiende i p 0 0 0" for p]) (simp add: atender_def Let_def split: option.splits)
next
  case (Cierra q)
  then show ?thesis using assms(1) by (intro exI [of _ "Cierra_socket i"]) (simp add: cerrar_socket_def)
next
  case Libera
  then show ?thesis using assms(1) by (intro exI [of _ "Devuelve i"]) (simp add: devolver_def)
qed (use assms in simp)

lemma main_loop_append:
  "main_loop ls k s (as @ bs) = (case main_loop ls k s as of Sigue s' \<Rightarrow> main_loop ls k s' bs | r \<Rightarrow> r)"
  by (induction as arbitrary: s) (simp_all split: paso.splits)

text \<open>
  C26. The main thread does not wait for the semaphore for ever: let a run bring it in front of \<open>sem_wait\<close>, with a semaphore that started above zero, and let
  the workers go on in any order. At every moment, either the main thread can create the next thread, or the workers have taken at most
  three actions for each thread the semaphore allows and some worker is not blocked (given a packet, if it is
  the next thing it does). So after more actions of the workers than that, whatever the schedule, the main thread goes on, as long as nothing undefined happens.
\<close>

theorem main_thread_released:
  assumes "main_loop ls k (arranque ls n t) as = Sigue s" and "pc s = Tomado q es" and "0 < n"
    and "list_all (\<lambda>a. hilo_de a \<noteq> None) ws" and "main_loop ls k s ws = Sigue s'"
  shows "(\<exists>s''. main_step ls k s' (Crea True) = Sigue s'') \<or>
    length ws \<le> 3 * n \<and> (\<exists>i a. hilo_de a = Some i \<and> main_step ls k s' a \<noteq> Bloqueado)"
proof -
  have "main_loop ls k (arranque ls n t) (as @ ws) = Sigue s'" using assms(1,5) by (simp add: main_loop_append)
  then have p: "threads_count s + vivos (hilos s) = n" "threads_count s' + vivos (hilos s') = n" using permits assms(1) by blast+
  note W = worker_run [OF assms(5,4)]
  show ?thesis
  proof (cases "threads_count s' = 0")
    case True
    then have "length ws \<le> 3 * n" using p W trabajo_vivos(1) [of "hilos s'"] trabajo_vivos(2) [of "hilos s"] by linarith
    moreover have "0 < length (filter (\<lambda>h. h \<noteq> Terminado) (hilos s'))" using True p(2) assms(3) by (simp add: vivos_def)
    then obtain h where "h \<in> set (hilos s')" "h \<noteq> Terminado" by (auto simp: filter_empty_conv)
    then obtain i where "i < length (hilos s')" "hilos s' ! i \<noteq> Terminado" by (auto simp: in_set_conv_nth)
    ultimately show ?thesis using live_thread [of i s' ls k] by blast
  next
    case False
    then show ?thesis using W assms(2) by (simp add: crear_hilo_def)
  qed
qed

section \<open>Who holds a socket\<close>

fun de_hilo :: "hilo \<Rightarrow> int list" where
  "de_hilo (Recibe q) = [q]"
| "de_hilo (Cierra q) = [q]"
| "de_hilo _ = []"

text \<open>The sockets the threads hold, one occurrence for each thread.\<close>

definition ocupados :: "hilo list \<Rightarrow> int list" where
  "ocupados hs = concat (map de_hilo hs)"

lemma ocupados_split:
  assumes "i < length hs"
  obtains xs ys where "ocupados hs = ocupados xs @ de_hilo (hs ! i) @ ocupados ys"
    "\<And>h. ocupados (hs[i := h]) = ocupados xs @ de_hilo h @ ocupados ys"
proof (rule that [of "take i hs" "drop (Suc i) hs"])
  show "ocupados hs = ocupados (take i hs) @ de_hilo (hs ! i) @ ocupados (drop (Suc i) hs)"
    using id_take_nth_drop [OF assms] by (metis ocupados_def concat.simps(2) concat_append list.simps(9) map_append)
  show "ocupados (hs[i := h]) = ocupados (take i hs) @ de_hilo h @ ocupados (drop (Suc i) hs)" for h
    by (simp add: ocupados_def upd_conv_take_nth_drop [OF assms])
qed

lemma ocupados_simps:
  "ocupados [] = []" "ocupados (hs @ [Nacido]) = ocupados hs"
  "i < length hs \<Longrightarrow> hs ! i = Recibe q \<Longrightarrow> ocupados (hs[i := Cierra q]) = ocupados hs"
  "i < length hs \<Longrightarrow> hs ! i = Libera \<Longrightarrow> ocupados (hs[i := Terminado]) = ocupados hs"
  "i < length hs \<Longrightarrow> hs ! i = Nacido \<Longrightarrow> set (ocupados (hs[i := Recibe q])) = insert q (set (ocupados hs))"
  "i < length hs \<Longrightarrow> hs ! i = Nacido \<Longrightarrow> distinct (ocupados (hs[i := Recibe q])) \<longleftrightarrow> q \<notin> set (ocupados hs) \<and> distinct (ocupados hs)"
  "i < length hs \<Longrightarrow> hs ! i = Recibe q \<Longrightarrow> q \<in> set (ocupados hs)" "i < length hs \<Longrightarrow> hs ! i = Cierra q \<Longrightarrow> q \<in> set (ocupados hs)"
  "i < length hs \<Longrightarrow> hs ! i = Cierra q \<Longrightarrow> distinct (ocupados hs) \<Longrightarrow> set (ocupados (hs[i := Libera])) = set (ocupados hs) - {q}"
  "i < length hs \<Longrightarrow> hs ! i = Cierra q \<Longrightarrow> distinct (ocupados hs) \<Longrightarrow> distinct (ocupados (hs[i := Libera]))"
  by (simp add: ocupados_def) (simp add: ocupados_def, (erule ocupados_split; auto)+)

text \<open>What the position of the main thread says: the events left are watched, and the socket in its hands is nobody else's.\<close>

fun libre_en :: "'c proceso \<Rightarrow> control \<Rightarrow> bool" where
  "libre_en s Epoll_wait \<longleftrightarrow> True"
| "libre_en s (Eventos es) \<longleftrightarrow> distinct (map fst es) \<and> fst ` set es \<subseteq> en_epoll s"
| "libre_en s (Tomado q es) \<longleftrightarrow> distinct (map fst es) \<and> fst ` set es \<subseteq> en_epoll s \<and> q \<in> abiertos s - en_epoll s - set (ocupados (hilos s))"
| "libre_en s (Creado q es) \<longleftrightarrow> distinct (map fst es) \<and> fst ` set es \<subseteq> en_epoll s \<and> hilos s \<noteq> [] \<and>
     (hilos s ! (length (hilos s) - 1) = Nacido \<longrightarrow> q \<in> abiertos s - en_epoll s - set (ocupados (hilos s)))"

definition sockets_inv :: "'c proceso \<Rightarrow> bool" where
  "sockets_inv s \<longleftrightarrow> en_epoll s \<subseteq> abiertos s \<and> libre_en s (pc s) \<and> distinct (ocupados (hilos s)) \<and> set (ocupados (hilos s)) \<subseteq> abiertos s - en_epoll s"

fun rechaza :: "accion \<Rightarrow> bool" where
  "rechaza (Atiende i p b b1 b2) \<longleftrightarrow> handshake_cierra p"
| "rechaza a \<longleftrightarrow> False"

lemma main_sockets:
  "sockets_inv s \<Longrightarrow> esperar k s evs = Sigue s' \<Longrightarrow> sockets_inv s'"
  "sockets_inv s \<Longrightarrow> crear_hilo s b = Sigue s' \<Longrightarrow> sockets_inv s'"
  "sockets_inv s \<Longrightarrow> fin_bloque s = Sigue s' \<Longrightarrow> sockets_inv s'"
  subgoal by (auto simp: esperar_def sockets_inv_def list_all_iff split: if_splits)
  subgoal by (cases "pc s") (auto simp: crear_hilo_def sockets_inv_def ocupados_simps split: if_splits)
  subgoal by (cases "pc s") (auto simp: fin_bloque_def sockets_inv_def)
  done

lemma event_sockets:
  assumes I: "sockets_inv s" and s: "siguiente ls s x = Sigue s'"
  shows "sockets_inv s'"
proof (cases "pc s")
  case (Eventos evs)
  show ?thesis
  proof (cases evs)
    case Nil
    then show ?thesis using Eventos assms by (auto simp: siguiente_def sockets_inv_def)
  next
    case (Cons e es)
    define fd where "fd = fst e"
    have c: "fd \<in> en_epoll s" "fd \<in> abiertos s" "fd \<notin> fst ` set es" "distinct (map fst es)" "fst ` set es \<subseteq> en_epoll s"
      "fd \<notin> set (ocupados (hilos s))" using I Eventos Cons by (auto simp: sockets_inv_def fd_def)
    have i: "en_epoll s \<subseteq> abiertos s" "distinct (ocupados (hilos s))" "set (ocupados (hilos s)) \<subseteq> abiertos s - en_epoll s"
      using I by (auto simp: sockets_inv_def)
    consider "s' = (close_fd s fd)\<lparr>pc := Eventos es\<rparr>" | "s' = s\<lparr>pc := Eventos es\<rparr>" | "s' = s\<lparr>pc := Tomado fd es, en_epoll := en_epoll s - {fd}\<rparr>"
      | y where "y \<notin> abiertos s" "s' = s\<lparr>pc := Eventos es, abiertos := insert y (abiertos s), en_epoll := insert y (en_epoll s)\<rparr>"
      using s Eventos Cons by (cases e) (auto simp: siguiente_def fd_def split: if_splits option.splits)
    then show ?thesis by cases (use c i in \<open>auto simp: sockets_inv_def close_fd_def\<close>)
  qed
qed (use s in \<open>simp_all add: siguiente_def\<close>)

lemma start_sockets:
  assumes I: "sockets_inv s" and s: "leer_socket s i = Sigue s'"
  shows "sockets_inv s'"
proof -
  obtain q es where q: "pc s = Creado q es" "i < length (hilos s)" "hilos s ! i = Nacido" "s' = s\<lparr>hilos := (hilos s)[i := Recibe q]\<rparr>"
    and n: "length (hilos s) - 1 = i"
    using s by (auto simp: leer_socket_def split: if_splits control.splits)
  have "q \<in> abiertos s - en_epoll s - set (ocupados (hilos s))" using I q(1,3) n by (simp add: sockets_inv_def)
  then show ?thesis using I q n by (simp add: sockets_inv_def ocupados_simps)
qed

lemma close_sockets:
  assumes I: "sockets_inv s" and s: "cerrar_socket s i = Sigue s'"
  shows "sockets_inv s'"
proof -
  obtain q where q: "i < length (hilos s)" "hilos s ! i = Cierra q" "s' = (close_fd s q)\<lparr>hilos := (hilos s)[i := Libera]\<rparr>"
    using s by (auto simp: cerrar_socket_def split: if_splits hilo.splits)
  have d: "distinct (ocupados (hilos s))" "set (ocupados (hilos s)) \<subseteq> abiertos s - en_epoll s" "en_epoll s \<subseteq> abiertos s" "libre_en s (pc s)"
    using I by (simp_all add: sockets_inv_def)
  note o = ocupados_simps(8) [OF q(1,2)] ocupados_simps(9,10) [OF q(1,2) d(1)]
  have e: "en_epoll s - {q} = en_epoll s" using o(1) d(2) by auto
  have "libre_en s' (pc s)" using d(4) o(1,2) e q by (cases "pc s") (auto simp: close_fd_def nth_list_update split: if_splits)
  then show ?thesis using o d(2,3) e q(3) by (auto simp: sockets_inv_def close_fd_def)
qed

lemma thread_sockets:
  "sockets_inv s \<Longrightarrow> atender s i p b b1 b2 = Sigue s' \<Longrightarrow> \<not> handshake_cierra p \<Longrightarrow> sockets_inv s'"
  "sockets_inv s \<Longrightarrow> devolver s i = Sigue s' \<Longrightarrow> sockets_inv s'"
  subgoal by (cases "pc s") (auto simp: atender_def sockets_inv_def ocupados_simps nth_list_update split: if_splits hilo.splits option.splits)
  subgoal by (cases "pc s") (auto simp: devolver_def sockets_inv_def ocupados_simps nth_list_update split: if_splits)
  done


section \<open>A descriptor that is closed twice\<close>

text \<open>
  A refused greeting closes the socket twice: when another client connects in between and gets the same descriptor, the second
  close ends the connection of that client, which the main thread no longer watches.
\<close>

theorem foreign_close:
  assumes "pc s = Epoll_wait" and "ls \<in> en_epoll s" and "i < length (hilos s)" and "hilos s ! i = Recibe q" and "0 < k" and "0 \<le> q" and "q \<noteq> ls"
    and "handshake_cierra p" and "serveRequest b b1 b2 (servidor s) p = Some (ps, t)"
  shows "\<exists>s1 s2. main_loop ls k s [Atiende i p b b1 b2, Despierta [(ls, EPOLLIN)], Siguiente (Some q)] = Sigue s1 \<and>
    q \<in> abiertos s1 \<and> q \<in> en_epoll s1 \<and> main_loop ls k s1 [Cierra_socket i] = Sigue s2 \<and> q \<notin> abiertos s2 \<and> q \<notin> en_epoll s2"
  using assms by (auto simp: loop_defs EPOLLIN_def EPOLLERR_def EPOLLHUP_def Let_def)

section \<open>A run with two clients\<close>

lemma hello_kept: "\<not> handshake_cierra new_nipc_handshake_hello"
proof -
  have "c_str (HANDSHAKE_HELLO @ [0]) = Some HANDSHAKE_HELLO" by code_simp
  then show ?thesis by (simp add: handshake_cierra_def new_nipc_handshake_hello_def new_nipc_handshake_def)
qed

text \<open>Two clients connect; while the thread of the first one still has its socket, the second one is taken.\<close>

definition demo_actions :: "accion list" where
  "demo_actions = [Despierta [(3, EPOLLIN)], Siguiente (Some 5), Siguiente None, Despierta [(3, EPOLLIN)], Siguiente (Some 6), Siguiente None,
     Despierta [(5, EPOLLIN), (6, EPOLLIN)], Siguiente None, Crea True, Arranca 0, Fin_bloque, Siguiente None, Crea True, Arranca 1,
     Atiende 1 new_nipc_handshake_hello 0 0 0, Fin_bloque]"

lemma demo_actions_run:
  "main_loop 3 8 (arranque 3 2 demo_server) demo_actions =
     Sigue \<lparr>pc = Eventos [], en_epoll = {3}, abiertos = {3, 5, 6}, threads_count = 0, hilos = [Recibe 5, Cierra 6],
       servidor = demo_server\<lparr>generated_client_id := generated_client_id demo_server + 1\<rparr>\<rparr>"
  by (auto simp: demo_actions_def loop_defs arranque_def hello_served hello_kept EPOLLIN_def EPOLLERR_def EPOLLHUP_def Let_def)

theorem threads_bounded_witness: "\<exists>s. main_loop 3 8 (arranque 3 2 demo_server) demo_actions = Sigue s \<and> vivos (hilos s) = 2"
  using threads_bounded [OF demo_actions_run] demo_actions_run by simp


text \<open>The second socket finds the semaphore at zero; the thread of the first one finishes.\<close>

definition waiting_actions :: "accion list" where
  "waiting_actions = [Despierta [(3, EPOLLIN)], Siguiente (Some 5), Siguiente None, Despierta [(3, EPOLLIN)], Siguiente (Some 6), Siguiente None,
     Despierta [(5, EPOLLIN), (6, EPOLLIN)], Siguiente None, Crea True, Arranca 0, Fin_bloque, Siguiente None]"

definition waiting_state :: "unit proceso" where
  "waiting_state = \<lparr>pc = Tomado 6 [], en_epoll = {3}, abiertos = {3, 5, 6}, threads_count = 0, hilos = [Recibe 5], servidor = demo_server\<rparr>"

lemma waiting_run: "main_loop 3 8 (arranque 3 1 demo_server) waiting_actions = Sigue waiting_state"
  by (auto simp: waiting_actions_def waiting_state_def loop_defs arranque_def EPOLLIN_def EPOLLERR_def EPOLLHUP_def)

lemma waiting_blocked: "main_step 3 8 waiting_state (Crea b) = Bloqueado"
  by (simp add: waiting_state_def crear_hilo_def)

theorem main_thread_released_witness:
  "\<exists>s' s''. main_step 3 8 waiting_state (Crea True) = Bloqueado \<and>
     main_loop 3 8 waiting_state [Atiende 0 new_nipc_handshake_hello 0 0 0, Cierra_socket 0, Devuelve 0] = Sigue s' \<and>
     main_step 3 8 s' (Crea True) = Sigue s''"
proof -
  let ?ws = "[Atiende 0 new_nipc_handshake_hello 0 0 0, Cierra_socket 0, Devuelve 0]"
  obtain s' where s': "main_loop 3 8 waiting_state ?ws = Sigue s'" "hilos s' = [Terminado]"
    by (simp add: waiting_state_def loop_defs hello_served hello_kept Let_def)
  have "main_step 3 8 s' a = Bloqueado" if "hilo_de a = Some i" for a i
    using that s'(2) by (cases a) (auto simp: loop_defs)
  then show ?thesis using main_thread_released [OF waiting_run, of 6 "[]" ?ws s'] s'(1) waiting_blocked
    by (fastforce simp: waiting_state_def)
qed

end
