(* ===== verification/Spec2Isabelle.thy ===== *)
theory Spec2Isabelle
  imports Engine WriteThrough Startup Log Connections Removal EventLoop
begin

text \<open>
  A verification of los-altos, a remote file system in C: a FUSE client (\<open>fsc\<close>), a file server over an ext2 image
  (\<open>rfs\<close>), a cache engine for memcached (\<open>rc\<close>) and the shared library \<open>commons\<close>.

  \<^bold>\<open>The program.\<close> The client turns every callback of FUSE into a request, serializes it and sends it as a frame
  (\<open>nipc\<close>) over a socket. The server receives the frame, decodes it by its type and runs a handler, which resolves the
  path in the directories of the image, keeps the tables of open files, reads and writes blocks through its cache
  and answers with one packet (\<open>serve_create\<close> with two). Client and server use memcached through its
  client library; the engine inside memcached keeps values in one block of memory that it divides
  into partitions.

  \<^bold>\<open>Conventions.\<close> The platform is the one the code is built for, i386, little endian. A value of type
  \<open>'a option\<close> is the outcome of C code: \<open>None\<close> is undefined behaviour (null, dangling or out of range) or a loop
  that never ends; the error codes of the program are ordinary values. No definition uses fuel: a loop that
  visibly ends is a \<open>fun\<close> or \<open>primrec\<close>, any other one a \<open>partial_function (option)\<close>, and a theorem that such code
  returns says that its value is \<open>Some\<close>. Structs are records, fixed-width integers are words, memory with aliasing
  (the disk image, the nodes of lists) is an explicit map from addresses. Lower layers come first; the theories, with
  the sources they follow:

  \<^item> \<open>Base\<close>: machine types, buffers, memory, little-endian fields, C strings. The prelude.
  \<^item> \<open>CString\<close>, \<open>Bitarray\<close>, \<open>CList\<close>, \<open>Dictionary\<close>, \<open>Config\<close>: \<open>commons/string.c\<close>, \<open>bitarray.c\<close>,
    \<open>collections/list.c\<close> and \<open>queue.c\<close>, \<open>collections/dictionary.c\<close>, \<open>config.c\<close> and the levels of \<open>log.c\<close>; \<open>Log\<close>: the rest of
    \<open>log.c\<close>, \<open>temporal.c\<close>, \<open>error.c\<close> and what they use of \<open>printf\<close>. Lists and queues
    live on a heap and refine sequences; the dictionary refines a map from hashes to sequences; the
    configuration file is read back setting by setting; a logger writes one whole line, or overflows its
    buffer, exactly by the length of the message. Where the code leaves its contract (removal out of
    range, iteration over a chain, keys with equal hashes) the theorems say exactly when.
  \<^item> \<open>Nipc\<close>, \<open>Protocol\<close>, \<open>Sockets\<close>, \<open>Connections\<close>: \<open>nipc/nipc.c\<close> and \<open>sockets/sockets.c\<close>. Messages, their encoding, framing, and the loops
    of \<open>nipc_send\<close> and \<open>nipc_receive\<close> over scripts of results of \<open>send\<close> and \<open>recv\<close>. Every request survives
    encoding and the stream, for every division of the stream into chunks after the first look at the header.
    Making and binding sockets is over a record of the kernel.
  \<^item> \<open>Vector\<close>, \<open>Partitions\<close>, \<open>Engine\<close>: \<open>rc/src/vector.c\<close>, \<open>our_engine.c\<close>, \<open>manage.c\<close>. The table of partitions with
    next fit, worst fit and the buddy split, eviction, compaction and lookup; the callbacks of memcached. The
    buddy split ends and creates no overlap, the victim is the oldest, get returns what was set where no gap and no older value
    of the key comes first, flush empties the table; compaction leaves wrong addresses, which an example shows.
  \<^item> \<open>Ext2\<close>, \<open>Inodes\<close>, \<open>Directory\<close>, \<open>Paths\<close>, \<open>Files\<close>, \<open>Entries\<close>, \<open>NewEntries\<close>, \<open>Creation\<close>, \<open>Truncation\<close>, \<open>Removal\<close>:
    \<open>rfs/src/funciones_rfs.c\<close>. The definitions
    are in \<open>Ext2\<close> (structures of the disk, addressing of blocks through the indirections, allocators), \<open>Directory\<close>
    (entries, paths) and \<open>Files\<close>; the others hold theorems. Addressing is the rule of ext2, allocation and release
    of blocks and inodes change one bit and their counters, lookup, listing and path resolution refine a
    tree of directories, and adding and removing an entry change the chain of entries of one block, so that
    exactly one name is found that was not, or the other way round; creating a file in the root composes
    them down to the fields of the new inode; truncating a file of direct blocks gives back exactly the blocks
    behind its new size, and removing a file of the root gives back its blocks and its inode.
  \<^item> \<open>RemoteCache\<close>, \<open>Opened\<close>, \<open>Server\<close>, \<open>Requests\<close>, \<open>Reads\<close>, \<open>Writes\<close>: \<open>memcached_uses.c\<close>, \<open>administracion.c\<close>, \<open>main_rfs.c\<close>. The
    cache of blocks, the tables of open files, every handler and the switch. The tables refine a count per
    inode; a read answers and a write stores exactly the bytes of the file, under conditions that the
    theorems make exact; missing paths and a full disk are followed to their end.
  \<^item> \<open>Sessions\<close>: the server as a state machine over the packets it receives (\<open>server_step\<close>, \<open>server_run\<close>) and what holds in
    all its runs: the counts of open files, the types and addressees of the answers, the requests that never
    write, the client ids. \<open>EventLoop\<close>: the loop of \<open>main\<close> over the events of epoll and the worker threads, as actions in the
    order of a scheduler: the semaphore bounds the threads, a socket is in one place, and a main thread that waits for the
    semaphore is released after a bounded number of actions of the workers, in any order. A thread that starts after the main thread left the block of its
    argument is undefined there. \<open>Startup\<close>: the configuration of the server, the loop that follows its changes and
    \<open>do_sleep\<close> of \<open>main_rfs.c\<close>.
  \<^item> \<open>Client\<close>, \<open>ClientCalls\<close>, \<open>EndToEnd\<close>, \<open>WriteThrough\<close>: \<open>fsc/src/fileSystemClient.c\<close>, \<open>memcached_utils.c\<close>. The callbacks, their
    composition with the server over a network that delivers, reads and writes in pieces, and
    reading a file and its attributes, and writing a file, through all the layers.

  \<^bold>\<open>Interfaces.\<close> \<open>bit_view\<close> (bit arrays, used by the allocators of \<open>Ext2\<close>), \<open>sequence_impl\<close> and \<open>fifo_impl\<close> (lists and
  queues), \<open>hashed_store\<close> (dictionary, used by \<open>Opened\<close> and \<open>Config\<close>) and \<open>message_codec\<close> (one kind of message, used by
  the dispatch) are locales, each interpreted on the model's own definitions.

  \<^bold>\<open>Parameters.\<close> The client library of memcached is a record of operations; what the server relies on is
  \<open>memcached_laws\<close>, for the keys the protocol of memcached allows: storing under one key changes no other key, and the key answers its
  new value, its old one or nothing. \<open>demo_memcached\<close> and \<open>replacing_memcached\<close> satisfy it. Whether \<open>add\<close> replaces is left open, because the engine
  of \<open>rc\<close> ignores the operation. Compaction in that engine leaves values at wrong addresses (\<open>Partitions\<close>), so that the law is not claimed of it. What a key with a NUL
  means is not assumed either; in \<open>Engine\<close> it is the key without it. A network is a record of operations with \<open>delivers\<close> as what is relied
  on, and \<open>line\<close> satisfies it. Bytes of uninitialised memory that the code uses, the clock, the addresses of
  \<open>malloc\<close> and the floating-point test \<open>esPotenciaDe\<close> are arguments.

  \<^bold>\<open>Not modelled.\<close> memcached 1.6 itself, which is vendored; the main function of the client, \<open>mmap\<close> and what
  only prints, which are system calls around the modelled functions; mutexes and
  read-write locks (a handler runs alone: \<open>EventLoop\<close> interleaves threads between handlers, not inside them), and with them the messages
  a handler logs on its way; \<open>atof\<close>; messages of 2 GB and more. The image is unbounded, so
  that reading past its end is not detected, and the superblock is that of a made file system with non-zero
  divisors. The static cache of the block size in \<open>tamanioDeBloque\<close> is the block size of the image.
\<close>

end
